(* ===== verification/Prelude.thy ===== *)
theory Prelude
  imports Main "HOL-Library.AList" "HOL-Library.Char_ord" "HOL-Library.List_Lexorder"
    "HOL-Library.Sublist"
begin

text \<open>
  Shared vocabulary of the development: the error monad over sums (a Python call either raises,
  \<open>Inl\<close>, or returns, \<open>Inr\<close>), the loop combinators the scripts' \<open>for\<close> statements translate to,
  insertion-ordered dictionaries as association lists, and the few string operations the scripts
  use. A Python \<open>str\<close> is a \<open>string\<close>: one \<open>char\<close> per code point, so the model covers the texts
  whose code points are at most U+00FF.
\<close>

named_theorems res_iff \<open>when a computation of the error monad returns normally\<close>


section \<open>The error monad\<close>

definition bnd :: "'e + 'a \<Rightarrow> ('a \<Rightarrow> 'e + 'b) \<Rightarrow> 'e + 'b" where
  "bnd m f = (case m of Inl e \<Rightarrow> Inl e | Inr x \<Rightarrow> f x)"

lemma bnd_simps [simp]: "bnd (Inl e) f = Inl e" "bnd (Inr x) f = f x"
  by (simp_all add: bnd_def)

lemma bnd_Inr_iff [res_iff]: "bnd m f = Inr y \<longleftrightarrow> (\<exists>x. m = Inr x \<and> f x = Inr y)"
  by (cases m) auto

lemma bnd_Inl_iff: "bnd m f = Inl e \<longleftrightarrow> m = Inl e \<or> (\<exists>x. m = Inr x \<and> f x = Inl e)"
  by (cases m) auto

lemma bnd_assoc: "bnd (bnd m f) g = bnd m (\<lambda>x. bnd (f x) g)"
  by (cases m) auto

lemma if_raise_iff [res_iff]: "(if b then Inl e else r) = Inr y \<longleftrightarrow> \<not> b \<and> r = Inr y"
  by simp

lemma unless_raise_iff [res_iff]: "(if b then r else Inl e) = Inr y \<longleftrightarrow> b \<and> r = Inr y"
  by simp

lemma not_isl_iff: "\<not> isl r \<longleftrightarrow> (\<exists>x. r = Inr x)"
  by (cases r) auto

text \<open>A \<open>for\<close> loop whose body only checks, one that collects results, and one that carries state.\<close>

fun each :: "('a \<Rightarrow> 'e + unit) \<Rightarrow> 'a list \<Rightarrow> 'e + unit" where
  "each f [] = Inr ()"
| "each f (x # xs) = bnd (f x) (\<lambda>_. each f xs)"

fun mapm :: "('a \<Rightarrow> 'e + 'b) \<Rightarrow> 'a list \<Rightarrow> 'e + 'b list" where
  "mapm f [] = Inr []"
| "mapm f (x # xs) = bnd (f x) (\<lambda>y. bnd (mapm f xs) (\<lambda>ys. Inr (y # ys)))"

fun foldm :: "('s \<Rightarrow> 'a \<Rightarrow> 'e + 's) \<Rightarrow> 's \<Rightarrow> 'a list \<Rightarrow> 'e + 's" where
  "foldm f s [] = Inr s"
| "foldm f s (x # xs) = bnd (f s x) (\<lambda>s'. foldm f s' xs)"

lemma each_Inr_iff [res_iff]: "each f xs = Inr u \<longleftrightarrow> (\<forall>x \<in> set xs. f x = Inr ())"
  by (induction xs) (auto simp: res_iff)

lemma mapm_Inr_iff: "mapm f xs = Inr ys \<longleftrightarrow> list_all2 (\<lambda>x y. f x = Inr y) xs ys"
  by (induction xs arbitrary: ys) (auto simp: res_iff list_all2_Cons1)

lemma mapm_length: "mapm f xs = Inr ys \<Longrightarrow> length ys = length xs"
  by (auto simp: mapm_Inr_iff dest: list_all2_lengthD)

lemma foldm_append: "foldm f s (xs @ ys) = bnd (foldm f s xs) (\<lambda>t. foldm f t ys)"
  by (induction xs arbitrary: s) (auto simp: bnd_assoc)

text \<open>The loop rule: an invariant that each normal iteration keeps holds after the loop.\<close>

lemma foldm_invariant:
  assumes "foldm f s xs = Inr t" and "P s"
    and "\<And>s x s'. x \<in> set xs \<Longrightarrow> P s \<Longrightarrow> f s x = Inr s' \<Longrightarrow> P s'"
  shows "P t"
  using assms
proof (induction xs arbitrary: s)
  case Nil
  then show ?case by simp
next
  case (Cons x xs)
  then obtain s' where s': "f s x = Inr s'" "foldm f s' xs = Inr t"
    by (auto simp: res_iff)
  moreover have "P s'" using Cons.prems s'(1) by auto
  ultimately show ?case using Cons.IH Cons.prems(3) by auto
qed


text \<open>\<open>raises c r\<close>: if \<open>r\<close> raises, the exception satisfies \<open>c\<close>. Its introduction rules follow the
  constructs of the models.\<close>

definition raises :: "('e \<Rightarrow> bool) \<Rightarrow> 'e + 'a \<Rightarrow> bool" where
  "raises c r \<longleftrightarrow> (\<forall>e. r = Inl e \<longrightarrow> c e)"

named_theorems errs \<open>introduction rules for \<^const>\<open>raises\<close>\<close>

lemma raisesD: "raises c r \<Longrightarrow> r = Inl e \<Longrightarrow> c e"
  by (simp add: raises_def)

lemma raises_weaken: "raises c r \<Longrightarrow> (\<And>e. c e \<Longrightarrow> d e) \<Longrightarrow> raises d r"
  by (simp add: raises_def)

lemma raises_Inr [errs]: "raises c (Inr x)"
  by (simp add: raises_def)

lemma raises_Inl [errs]: "c e \<Longrightarrow> raises c (Inl e)"
  by (simp add: raises_def)

lemma raises_bnd [errs]: "raises c m \<Longrightarrow> (\<And>x. raises c (f x)) \<Longrightarrow> raises c (bnd m f)"
  by (auto simp: raises_def bnd_Inl_iff)

lemma raises_bnd_dep: "raises c m \<Longrightarrow> (\<And>x. m = Inr x \<Longrightarrow> raises c (f x)) \<Longrightarrow> raises c (bnd m f)"
  by (auto simp: raises_def bnd_Inl_iff)

lemma raises_if [errs]: "(b \<Longrightarrow> raises c m) \<Longrightarrow> (\<not> b \<Longrightarrow> raises c n) \<Longrightarrow> raises c (if b then m else n)"
  by simp

lemma raises_each [errs]: "(\<And>x. raises c (f x)) \<Longrightarrow> raises c (each f xs)"
  by (induction xs) (auto intro: errs)

lemma raises_mapm [errs]: "(\<And>x. raises c (f x)) \<Longrightarrow> raises c (mapm f xs)"
  by (induction xs) (auto intro!: errs)

lemma raises_foldm [errs]: "(\<And>s x. raises c (f s x)) \<Longrightarrow> raises c (foldm f s xs)"
  by (induction xs arbitrary: s) (auto intro!: errs)

lemma raises_option [errs]:
  "raises c m \<Longrightarrow> (\<And>x. raises c (f x)) \<Longrightarrow> raises c (case q of None \<Rightarrow> m | Some x \<Rightarrow> f x)"
  by (cases q) simp_all

lemma raises_prod [errs]: "(\<And>a b. raises c (f a b)) \<Longrightarrow> raises c (case p of (a, b) \<Rightarrow> f a b)"
  by (cases p) simp

lemma raises_prod_dep:
  "(\<And>a b. p = (a, b) \<Longrightarrow> raises c (f a b)) \<Longrightarrow> raises c (case p of (a, b) \<Rightarrow> f a b)"
  by (cases p) simp

lemma raises_prod_fun [errs]:
  "(\<And>a b. raises c (f a b x)) \<Longrightarrow> raises c ((case p of (a, b) \<Rightarrow> f a b) x)"
  by (cases p) simp


section \<open>Insertion-ordered dictionaries\<close>

text \<open>
  \<open>AList.update\<close> is Python's item assignment: an existing key keeps its place, a new one goes to
  the end. \<open>dict_update\<close> is \<open>d.update(e)\<close>.
\<close>

type_synonym ('k, 'v) dict = "('k \<times> 'v) list"

definition dict_update :: "('k, 'v) dict \<Rightarrow> ('k, 'v) dict \<Rightarrow> ('k, 'v) dict" where
  "dict_update d e = foldl (\<lambda>d (k, v). AList.update k v d) d e"

lemma map_of_update [simp]: "map_of (AList.update k v d) = (map_of d)(k \<mapsto> v)"
  by (simp add: update_conv')

lemma map_of_dict_update:
  "map_of (dict_update d e) k = (case map_of (rev e) k of Some v \<Rightarrow> Some v | None \<Rightarrow> map_of d k)"
  unfolding dict_update_def
  by (induction e arbitrary: d) (auto simp: map_add_def split: option.splits)

lemma map_of_rev_distinct: "distinct (map fst e) \<Longrightarrow> map_of (rev e) = map_of e"
  by (rule map_of_inject_set [THEN iffD2]) (simp_all add: rev_map [symmetric])

lemma map_of_dict_update_distinct:
  "distinct (map fst e) \<Longrightarrow> map_of (dict_update d e) = map_of d ++ map_of e"
  by (rule ext) (simp add: map_of_dict_update map_add_def map_of_rev_distinct split: option.splits)


text \<open>A loop that fills a dictionary: \<open>for x in xs: d[key(x)] = g(x)\<close>.\<close>

lemma foldm_update_other:
  assumes "foldm (\<lambda>d x. bnd (g x) (\<lambda>v. Inr (AList.update (key x) v d))) acc xs = Inr d" "k \<notin> key ` set xs"
  shows "map_of d k = map_of acc k"
  using assms by (induction xs arbitrary: acc) (auto simp: res_iff)

lemma foldm_update_lookup:
  assumes "foldm (\<lambda>d x. bnd (g x) (\<lambda>v. Inr (AList.update (key x) v d))) acc xs = Inr d"
    "distinct (map key xs)" "x \<in> set xs"
  shows "\<exists>v. g x = Inr v \<and> map_of d (key x) = Some v"
  using assms
proof (induction xs arbitrary: acc)
  case (Cons y ys)
  then obtain v where v: "g y = Inr v"
    "foldm (\<lambda>d x. bnd (g x) (\<lambda>v. Inr (AList.update (key x) v d))) (AList.update (key y) v acc) ys = Inr d"
    by (auto simp: res_iff)
  show ?case
  proof (cases "x = y")
    case True
    then show ?thesis using v foldm_update_other [OF v(2), of "key y"] Cons.prems(2) by auto
  next
    case False
    then show ?thesis using Cons.IH [OF v(2)] Cons.prems by auto
  qed
qed simp

lemma foldm_update_defined:
  "\<forall>x \<in> set xs. \<exists>v. g x = Inr v \<Longrightarrow>
    \<exists>d. foldm (\<lambda>d x. bnd (g x) (\<lambda>v. Inr (AList.update (key x) v d))) acc xs = Inr d"
  by (induction xs arbitrary: acc) auto


section \<open>Strings\<close>

definition startswith :: "'a list \<Rightarrow> 'a list \<Rightarrow> bool" where
  "startswith s p = (take (length p) s = p)"

definition removeprefix :: "string \<Rightarrow> string \<Rightarrow> string" where
  "removeprefix s p = (if startswith s p then drop (length p) s else s)"

text \<open>\<open>needle in s\<close> and \<open>sep.join(xs)\<close>, on texts of characters and of code points.\<close>

fun contains :: "'a list \<Rightarrow> 'a list \<Rightarrow> bool" where
  "contains needle [] = (needle = [])"
| "contains needle (c # cs) = (startswith (c # cs) needle \<or> contains needle cs)"

fun joined :: "'a list \<Rightarrow> 'a list list \<Rightarrow> 'a list" where
  "joined sep [] = []"
| "joined sep [x] = x"
| "joined sep (x # y # ys) = x @ sep @ joined sep (y # ys)"

lemma startswith_append [simp]: "startswith (p @ s) p"
  by (simp add: startswith_def)

lemma startswith_iff: "startswith s p \<longleftrightarrow> (\<exists>t. s = p @ t)"
  by (auto simp: startswith_def) (metis append_take_drop_id)

lemma removeprefix_append [simp]: "removeprefix (p @ s) p = s"
  by (simp add: removeprefix_def startswith_def)

lemma contains_iff: "contains needle s \<longleftrightarrow> (\<exists>u v. s = u @ needle @ v)"
proof (induction s)
  case Nil
  then show ?case by auto
next
  case (Cons c cs)
  show ?case
  proof
    assume "contains needle (c # cs)"
    then consider "startswith (c # cs) needle" | "contains needle cs" by auto
    then show "\<exists>u v. c # cs = u @ needle @ v"
    proof cases
      case 1
      then show ?thesis by (metis startswith_iff append_Nil)
    next
      case 2
      then show ?thesis using Cons.IH by (metis append_Cons)
    qed
  next
    assume "\<exists>u v. c # cs = u @ needle @ v"
    then obtain u v where uv: "c # cs = u @ needle @ v" by blast
    show "contains needle (c # cs)"
    proof (cases u)
      case Nil
      with uv have "startswith (c # cs) needle" by simp
      then show ?thesis by simp
    next
      case (Cons a u')
      with uv have "cs = u' @ needle @ v" by simp
      with Cons.IH show ?thesis by auto
    qed
  qed
qed

text \<open>The decimal text of a number, \<open>str(n)\<close>, and the value of a text of digits.\<close>

fun str_nat :: "nat \<Rightarrow> string" where
  "str_nat n = (if n < 10 then [''0123456789'' ! n]
                else str_nat (n div 10) @ [''0123456789'' ! (n mod 10)])"

declare str_nat.simps [simp del]

definition str_int :: "int \<Rightarrow> string" where
  "str_int n = (if n < 0 then CHR ''-'' # str_nat (nat (- n)) else str_nat (nat n))"

definition is_digit :: "char \<Rightarrow> bool" where
  "is_digit c = (c \<in> set ''0123456789'')"

definition digit_val :: "char \<Rightarrow> nat" where
  "digit_val c = of_char c - 48"

definition digits_val :: "string \<Rightarrow> nat" where
  "digits_val s = foldl (\<lambda>n c. 10 * n + digit_val c) 0 s"

lemma digit_char [simp]:
  "d < 10 \<Longrightarrow> is_digit (''0123456789'' ! d)" "d < 10 \<Longrightarrow> digit_val (''0123456789'' ! d) = d"
proof -
  assume "d < 10"
  then have d: "d \<in> {0, 1, 2, 3, 4, 5, 6, 7, 8, 9}" by auto
  then show "is_digit (''0123456789'' ! d)" by (auto simp: is_digit_def)
  from d show "digit_val (''0123456789'' ! d) = d" by (auto simp: digit_val_def)
qed

lemma str_nat_digits: "\<forall>c \<in> set (str_nat n). is_digit c"
proof (induction n rule: str_nat.induct)
  case (1 n)
  then show ?case by (cases "n < 10") (auto simp: str_nat.simps [of n])
qed

lemma str_nat_nonempty [simp]: "str_nat n \<noteq> []"
  by (subst str_nat.simps) simp

lemma digits_val_str_nat [simp]: "digits_val (str_nat n) = n"
proof (induction n rule: str_nat.induct)
  case (1 n)
  then show ?case by (cases "n < 10") (auto simp: str_nat.simps [of n] digits_val_def)
qed

lemma str_nat_inj: "str_nat m = str_nat n \<longleftrightarrow> m = n"
  by (metis digits_val_str_nat)

end
