(* ===== verification/PyFloat.thy ===== *)
theory PyFloat
  imports Prelude Complex_Main
begin

text \<open>
  Python's \<open>float\<close>: IEEE-754 binary64. A finite double is represented by the rational it denotes,
  with \<open>-0.0\<close>, the infinities and NaN as further values; every arithmetic result is the exact
  rational result rounded to nearest, ties to even, by \<open>round_double\<close>. The scripts use addition,
  subtraction, division, comparison, conversion from and to \<open>int\<close>, and fixed-point formatting
  (\<open>f"{x:.3f}"\<close>), and these are what is modelled here.
\<close>

section \<open>Values and rounding\<close>

datatype pyfloat = Fin rat | NegZero | PInf | NInf | NaN

definition pow2 :: "int \<Rightarrow> rat" where
  "pow2 e = (if 0 \<le> e then 2 ^ nat e else 1 / 2 ^ nat (- e))"

fun nbits :: "nat \<Rightarrow> nat" where
  "nbits n = (if n = 0 then 0 else Suc (nbits (n div 2)))"

declare nbits.simps [simp del]

text \<open>The binary exponent of a positive rational: \<open>pow2 (ilog2 x) \<le> x < pow2 (ilog2 x + 1)\<close>.\<close>

definition ilog2 :: "rat \<Rightarrow> int" where
  "ilog2 x = (let (a, b) = quotient_of x; e = int (nbits (nat a)) - int (nbits (nat b))
              in if pow2 e \<le> x then e else e - 1)"

definition round_half_even :: "rat \<Rightarrow> int" where
  "round_half_even x = (let f = \<lfloor>x\<rfloor>; d = x - of_int f in
     if d < 1/2 then f else if d > 1/2 then f + 1 else if even f then f else f + 1)"

definition ulp_exp :: "rat \<Rightarrow> int" where
  "ulp_exp x = max (ilog2 x - 52) (-1074)"

definition round_mag :: "rat \<Rightarrow> rat" where
  "round_mag x = of_int (round_half_even (x / pow2 (ulp_exp x))) * pow2 (ulp_exp x)"

definition round_double :: "rat \<Rightarrow> pyfloat" where
  "round_double x =
     (if x = 0 then Fin 0
      else let y = round_mag \<bar>x\<bar> in
        if pow2 1024 \<le> y then (if x < 0 then NInf else PInf)
        else if y = 0 then (if x < 0 then NegZero else Fin 0)
        else Fin (if x < 0 then - y else y))"

text \<open>The rationals a finite double can denote.\<close>

definition representable :: "rat \<Rightarrow> bool" where
  "representable x \<longleftrightarrow> (\<exists>m e. x = of_int m * pow2 e \<and> \<bar>m\<bar> < 2 ^ 53 \<and> -1074 \<le> e \<and> e \<le> 971)"


section \<open>Arithmetic, comparison, conversion, formatting\<close>

fun fneg :: "pyfloat \<Rightarrow> pyfloat" where
  "fneg (Fin x) = (if x = 0 then NegZero else Fin (- x))"
| "fneg NegZero = Fin 0"
| "fneg PInf = NInf"
| "fneg NInf = PInf"
| "fneg NaN = NaN"

fun fadd :: "pyfloat \<Rightarrow> pyfloat \<Rightarrow> pyfloat" where
  "fadd NaN b = NaN"
| "fadd a NaN = NaN"
| "fadd PInf b = (if b = NInf then NaN else PInf)"
| "fadd NInf b = (if b = PInf then NaN else NInf)"
| "fadd a PInf = PInf"
| "fadd a NInf = NInf"
| "fadd NegZero b = b"
| "fadd a NegZero = a"
| "fadd (Fin a) (Fin b) = round_double (a + b)"

definition fsub :: "pyfloat \<Rightarrow> pyfloat \<Rightarrow> pyfloat" where
  "fsub a b = fadd a (fneg b)"

text \<open>Whether a float carries a minus sign, and its magnitude (\<open>None\<close> for an infinity).\<close>

fun fneg_sign :: "pyfloat \<Rightarrow> bool" where
  "fneg_sign (Fin x) = (x < 0)"
| "fneg_sign NegZero = True"
| "fneg_sign PInf = False"
| "fneg_sign NInf = True"
| "fneg_sign NaN = False"

fun fmag :: "pyfloat \<Rightarrow> rat option" where
  "fmag (Fin x) = Some \<bar>x\<bar>"
| "fmag NegZero = Some 0"
| "fmag PInf = None"
| "fmag NInf = None"
| "fmag NaN = None"

text \<open>
  Division by a divisor that does not compare equal to zero (Python raises
  \<open>ZeroDivisionError\<close> otherwise, so no result is given for those).
\<close>

definition fdiv :: "pyfloat \<Rightarrow> pyfloat \<Rightarrow> pyfloat" where
  "fdiv a b =
     (if a = NaN \<or> b = NaN then NaN
      else let s = (fneg_sign a \<noteq> fneg_sign b) in
        (case (fmag a, fmag b) of
           (None, None) \<Rightarrow> NaN
         | (None, Some _) \<Rightarrow> (if s then NInf else PInf)
         | (Some _, None) \<Rightarrow> (if s then NegZero else Fin 0)
         | (Some x, Some y) \<Rightarrow> (if s then fneg (round_double (x / y)) else round_double (x / y))))"

fun fval :: "pyfloat \<Rightarrow> rat option" where
  "fval (Fin x) = Some x"
| "fval NegZero = Some 0"
| "fval PInf = None"
| "fval NInf = None"
| "fval NaN = None"

fun feq :: "pyfloat \<Rightarrow> pyfloat \<Rightarrow> bool" where
  "feq NaN b = False"
| "feq a NaN = False"
| "feq PInf b = (b = PInf)"
| "feq NInf b = (b = NInf)"
| "feq a PInf = False"
| "feq a NInf = False"
| "feq a b = (fval a = fval b)"

fun flt :: "pyfloat \<Rightarrow> pyfloat \<Rightarrow> bool" where
  "flt NaN b = False"
| "flt a NaN = False"
| "flt PInf b = False"
| "flt NInf b = (b \<noteq> NInf)"
| "flt a PInf = True"
| "flt a NInf = False"
| "flt a b = (the (fval a) < the (fval b))"

text \<open>\<open>float(n)\<close> of an int: \<open>None\<close> is the \<open>OverflowError\<close> of an int too large for a double.\<close>

definition float_of_int :: "int \<Rightarrow> pyfloat option" where
  "float_of_int n = (case round_double (of_int n) of Fin x \<Rightarrow> Some (Fin x) | _ \<Rightarrow> None)"

definition trunc_rat :: "rat \<Rightarrow> int" where
  "trunc_rat x = (if x < 0 then - \<lfloor>- x\<rfloor> else \<lfloor>x\<rfloor>)"

text \<open>\<open>f"{x:.df}"\<close>: the exact value correctly rounded to \<open>d\<close> decimals, ties to even.\<close>

definition pad_zeros :: "nat \<Rightarrow> string \<Rightarrow> string" where
  "pad_zeros n s = replicate (n - length s) (CHR ''0'') @ s"

definition fixed_digits :: "nat \<Rightarrow> nat \<Rightarrow> string" where
  "fixed_digits d n = (if d = 0 then str_nat n
     else let s = pad_zeros (Suc d) (str_nat n); k = length s - d
          in take k s @ ''.'' @ drop k s)"

definition fmt_mag :: "nat \<Rightarrow> rat \<Rightarrow> string" where
  "fmt_mag d x = fixed_digits d (nat (round_half_even (x * 10 ^ d)))"

fun fmt_fixed :: "nat \<Rightarrow> pyfloat \<Rightarrow> string" where
  "fmt_fixed d (Fin x) = (if x < 0 then ''-'' @ fmt_mag d (- x) else fmt_mag d x)"
| "fmt_fixed d NegZero = ''-'' @ fmt_mag d 0"
| "fmt_fixed d PInf = ''inf''"
| "fmt_fixed d NInf = ''-inf''"
| "fmt_fixed d NaN = ''nan''"


section \<open>Rounding lemmas\<close>

lemma pow2_pos [simp]: "0 < pow2 e" and pow2_nonneg [simp]: "0 \<le> pow2 e"
  and pow2_nonzero [simp]: "pow2 e \<noteq> 0"
  by (auto simp: pow2_def)

lemma pow2_powr: "pow2 e = 2 powi e"
  by (simp add: pow2_def power_int_def power_one_over inverse_eq_divide)

lemma pow2_add: "pow2 (a + b) = pow2 a * pow2 b"
  by (simp add: pow2_powr power_int_add)

lemma pow2_diff: "pow2 (a - b) = pow2 a / pow2 b"
  by (simp add: pow2_powr power_int_diff)

lemma pow2_mono: "a \<le> b \<Longrightarrow> pow2 a \<le> pow2 b"
  by (simp add: pow2_powr power_int_increasing)

lemma pow2_strict_mono: "a < b \<Longrightarrow> pow2 a < pow2 b"
  by (simp add: pow2_powr power_int_strict_increasing)

lemma pow2_less_iff: "pow2 a < pow2 b \<longleftrightarrow> a < b"
  by (meson linorder_not_le pow2_mono pow2_strict_mono)

lemma pow2_of_nat: "pow2 (int n) = of_int (2 ^ n)"
  by (simp add: pow2_def)

lemma nbits_bounds: "0 < n \<Longrightarrow> 2 ^ (nbits n - 1) \<le> n \<and> n < 2 ^ nbits n \<and> 0 < nbits n"
proof (induction n rule: nbits.induct)
  case (1 n)
  have eq: "nbits n = Suc (nbits (n div 2))" using "1.prems" by (simp add: nbits.simps)
  show ?case
  proof (cases "n div 2 = 0")
    case True
    with "1.prems" have "n = 1" by auto
    with True eq show ?thesis by (simp add: nbits.simps)
  next
    case False
    with "1.IH" "1.prems" have IH: "2 ^ (nbits (n div 2) - 1) \<le> n div 2"
      "n div 2 < 2 ^ nbits (n div 2)" "0 < nbits (n div 2)" by auto
    then obtain k where k: "nbits (n div 2) = Suc k" using gr0_conv_Suc by blast
    from IH(1) k have "2 * 2 ^ k \<le> n" by auto
    moreover from IH(2) k have "n < 2 * (2 * 2 ^ k)" by auto
    ultimately show ?thesis using eq k by simp
  qed
qed

lemma quotient_of_pos:
  assumes "0 < x" "quotient_of x = (a, b)"
  shows "0 < a" "0 < b" "x = of_int a / of_int b"
proof -
  show b: "0 < b" using assms(2) by (rule quotient_of_denom_pos)
  show x: "x = of_int a / of_int b" using assms(2) by (rule quotient_of_div)
  with assms(1) b show "0 < a" by (simp add: zero_less_divide_iff)
qed

lemma ilog2_bounds:
  assumes "0 < x"
  shows "pow2 (ilog2 x) \<le> x" and "x < pow2 (ilog2 x + 1)"
proof -
  obtain a b where q: "quotient_of x = (a, b)" by fastforce
  note p = quotient_of_pos [OF assms q]
  define na nb where "na = nbits (nat a)" and "nb = nbits (nat b)"
  have A: "2 ^ (na - 1) \<le> nat a" "nat a < 2 ^ na" "0 < na"
    using nbits_bounds [of "nat a"] p(1) by (auto simp: na_def)
  have B: "2 ^ (nb - 1) \<le> nat b" "nat b < 2 ^ nb" "0 < nb"
    using nbits_bounds [of "nat b"] p(2) by (auto simp: nb_def)
  have a1: "pow2 (int na - 1) \<le> of_int a" "of_int a < pow2 (int na)"
  proof -
    have "(of_nat (2 ^ (na - 1)) :: rat) \<le> of_nat (nat a)" using A(1) by (simp only: of_nat_le_iff)
    then show "pow2 (int na - 1) \<le> of_int a"
      using A(3) p(1) by (simp add: pow2_def nat_diff_distrib of_nat_nat)
    have "(of_nat (nat a) :: rat) < of_nat (2 ^ na)" using A(2) by (simp only: of_nat_less_iff)
    then show "of_int a < pow2 (int na)" using p(1) by (simp add: pow2_def)
  qed
  have b1: "pow2 (int nb - 1) \<le> of_int b" "of_int b < pow2 (int nb)"
  proof -
    have "(of_nat (2 ^ (nb - 1)) :: rat) \<le> of_nat (nat b)" using B(1) by (simp only: of_nat_le_iff)
    then show "pow2 (int nb - 1) \<le> of_int b"
      using B(3) p(2) by (simp add: pow2_def nat_diff_distrib of_nat_nat)
    have "(of_nat (nat b) :: rat) < of_nat (2 ^ nb)" using B(2) by (simp only: of_nat_less_iff)
    then show "of_int b < pow2 (int nb)" using p(2) by (simp add: pow2_def)
  qed
  have bpos: "0 < (of_int b :: rat)" using p(2) by simp
  have lo: "pow2 (int na - int nb - 1) < x"
  proof -
    have "pow2 (int na - int nb - 1) = pow2 (int na - 1) / pow2 (int nb)"
      by (simp add: pow2_diff)
    also have "\<dots> \<le> of_int a / pow2 (int nb)" using a1(1) by (simp add: divide_right_mono)
    also have "\<dots> < of_int a / of_int b"
      using b1(2) bpos p(1) by (intro divide_strict_left_mono) auto
    finally show ?thesis using p(3) by simp
  qed
  have hi: "x < pow2 (int na - int nb + 1)"
  proof -
    have "x = of_int a / of_int b" by (rule p(3))
    also have "\<dots> < pow2 (int na) / of_int b" using a1(2) bpos by (simp add: divide_strict_right_mono)
    also have "\<dots> \<le> pow2 (int na) / pow2 (int nb - 1)"
      using b1(1) bpos by (intro divide_left_mono) auto
    also have "\<dots> = pow2 (int na - int nb + 1)" by (simp add: pow2_diff pow2_add)
    finally show ?thesis .
  qed
  have e: "ilog2 x = (if pow2 (int na - int nb) \<le> x then int na - int nb else int na - int nb - 1)"
    by (simp add: ilog2_def q na_def nb_def)
  show "pow2 (ilog2 x) \<le> x" using e lo by (auto split: if_splits)
  show "x < pow2 (ilog2 x + 1)" using e hi by (auto split: if_splits)
qed

lemma ilog2_unique:
  assumes "0 < x" "pow2 e \<le> x" "x < pow2 (e + 1)"
  shows "ilog2 x = e"
proof -
  have "pow2 (ilog2 x) < pow2 (e + 1)" and "pow2 e < pow2 (ilog2 x + 1)"
    using ilog2_bounds [OF assms(1)] assms(2,3) by auto
  then show ?thesis by (simp add: pow2_less_iff)
qed

lemma round_half_even_of_int [simp]: "round_half_even (of_int n) = n"
  by (simp add: round_half_even_def)

lemma round_half_even_error: "\<bar>of_int (round_half_even x) - x\<bar> \<le> 1 / 2"
proof -
  have "of_int \<lfloor>x\<rfloor> \<le> x" "x < of_int \<lfloor>x\<rfloor> + 1" using floor_correct [of x] by simp_all
  then show ?thesis unfolding round_half_even_def Let_def abs_le_iff
    by (simp only: of_int_add of_int_1 split: if_split) linarith
qed

lemma representable_grid:
  assumes "representable x" "0 < x"
  obtains n where "x = of_int n * pow2 (ulp_exp x)"
proof -
  obtain m e where me: "x = of_int m * pow2 e" "\<bar>m\<bar> < 2 ^ 53" "-1074 \<le> e" "e \<le> 971"
    using assms(1) by (auto simp: representable_def)
  have "x < pow2 (53 + e)"
  proof -
    have "m < 2 ^ 53" using me(2) by linarith
    then have "(of_int m :: rat) < of_int (2 ^ 53)" by (simp only: of_int_less_iff)
    then have "of_int m * pow2 e < of_int (2 ^ 53) * pow2 e" by (simp add: mult_strict_right_mono)
    also have "of_int (2 ^ 53) = pow2 53" by (simp add: pow2_def)
    finally show ?thesis by (simp add: me(1) pow2_add)
  qed
  moreover have "pow2 (ilog2 x) \<le> x" using ilog2_bounds(1) [OF assms(2)] .
  ultimately have "pow2 (ilog2 x) < pow2 (53 + e)" by simp
  then have "ilog2 x \<le> 52 + e" by (simp add: pow2_less_iff)
  then have u: "ulp_exp x \<le> e" using me(3) by (simp add: ulp_exp_def)
  have "pow2 e = of_int (2 ^ nat (e - ulp_exp x)) * pow2 (ulp_exp x)"
    using u pow2_add [of "e - ulp_exp x" "ulp_exp x"] by (simp add: pow2_def [of "e - ulp_exp x"])
  then have "x = of_int (m * 2 ^ nat (e - ulp_exp x)) * pow2 (ulp_exp x)"
    using me(1) by simp
  then show ?thesis by (rule that)
qed

lemma round_mag_exact:
  assumes "representable x" "0 < x"
  shows "round_mag x = x"
proof -
  obtain n where n: "x = of_int n * pow2 (ulp_exp x)" using representable_grid [OF assms] by blast
  have "x / pow2 (ulp_exp x) = of_int n" using arg_cong [OF n, of "\<lambda>y. y / pow2 (ulp_exp x)"] by simp
  then show ?thesis using n by (simp add: round_mag_def)
qed

lemma representable_bound: "representable x \<Longrightarrow> \<bar>x\<bar> < pow2 1024"
proof -
  assume "representable x"
  then obtain m e where me: "x = of_int m * pow2 e" "\<bar>m\<bar> < 2 ^ 53" "e \<le> 971"
    by (auto simp: representable_def)
  have "of_int \<bar>m\<bar> < (of_int (2 ^ 53) :: rat)" using me(2) by (simp only: of_int_less_iff)
  then have "\<bar>x\<bar> < of_int (2 ^ 53) * pow2 e"
    using me(1) by (simp add: abs_mult mult_strict_right_mono)
  also have "\<dots> = pow2 (53 + e)" by (simp add: pow2_add) (simp add: pow2_def)
  also have "\<dots> \<le> pow2 1024" using me(3) by (intro pow2_mono) simp
  finally show ?thesis .
qed

lemma representable_minus [simp]: "representable (- x) = representable x"
proof -
  have "representable (- y)" if r: "representable y" for y
  proof -
    obtain m e where "y = of_int m * pow2 e" "\<bar>m\<bar> < 2 ^ 53" "-1074 \<le> e" "e \<le> 971"
      using r unfolding representable_def by blast
    then show ?thesis unfolding representable_def by (intro exI [of _ "- m"] exI [of _ e]) simp
  qed
  from this [of x] this [of "- x"] show ?thesis by auto
qed

text \<open>Rounding changes nothing that is already a double.\<close>

lemma round_double_exact: "representable x \<Longrightarrow> round_double x = Fin x"
proof (cases "x = 0")
  case False
  assume r: "representable x"
  have "representable \<bar>x\<bar>" "0 < \<bar>x\<bar>" using r False by (auto simp: abs_if)
  then have "round_mag \<bar>x\<bar> = \<bar>x\<bar>" by (rule round_mag_exact)
  with representable_bound [OF r] False show ?thesis
    by (auto simp: round_double_def Let_def)
qed (simp add: round_double_def)

lemma representable_int: "\<bar>n\<bar> \<le> 2 ^ 53 \<Longrightarrow> representable (of_int n)"
proof (cases "\<bar>n\<bar> = 2 ^ 53")
  case False
  assume "\<bar>n\<bar> \<le> 2 ^ 53"
  with False show ?thesis
    unfolding representable_def by (intro exI [of _ n] exI [of _ 0]) (simp add: pow2_def)
next
  case True
  then have "n = 2 ^ 53 \<or> n = - (2 ^ 53)" by linarith
  then have "of_int n = of_int (n div 2) * pow2 1" and "\<bar>n div 2\<bar> < 2 ^ 53"
    by (auto simp: pow2_def)
  then show ?thesis unfolding representable_def by (intro exI [of _ "n div 2"] exI [of _ 1]) simp
qed

lemma float_of_int_exact: "\<bar>n\<bar> \<le> 2 ^ 53 \<Longrightarrow> float_of_int n = Some (Fin (of_int n))"
  by (simp add: float_of_int_def round_double_exact representable_int)

lemma fadd_ints_exact:
  "\<bar>a + b\<bar> \<le> 2 ^ 53 \<Longrightarrow> fadd (Fin (of_int a)) (Fin (of_int b)) = Fin (of_int (a + b))"
  using round_double_exact [OF representable_int, of "a + b"] by simp

lemma feq_zero_iff: "feq x (Fin 0) \<longleftrightarrow> x = Fin 0 \<or> x = NegZero"
  by (cases x) auto

lemma feq_refl: "x \<noteq> NaN \<Longrightarrow> feq x x"
  by (cases x) auto

lemma feq_sym: "feq x y = feq y x"
  by (cases x; cases y) auto

lemma round_half_even_nonneg: "0 \<le> x \<Longrightarrow> 0 \<le> round_half_even x"
  by (auto simp: round_half_even_def Let_def)

text \<open>
  The printed digits denote the printed number: dropping the point from a rendering with \<open>d\<close>
  decimals gives an integer, and that integer over \<open>10 ^ d\<close> is within half a unit of the last
  place of the rendered value.
\<close>

lemma digits_val_append: "digits_val (s @ t) = digits_val s * 10 ^ length t + digits_val t"
proof (induction t rule: rev_induct)
  case (snoc c t)
  have "digits_val (s @ t @ [c]) = 10 * digits_val (s @ t) + digit_val c"
    by (simp add: digits_val_def)
  also have "\<dots> = digits_val s * 10 ^ length (t @ [c]) + (10 * digits_val t + digit_val c)"
    using snoc.IH by simp
  also have "10 * digits_val t + digit_val c = digits_val (t @ [c])"
    by (simp add: digits_val_def)
  finally show ?case .
qed (simp add: digits_val_def)

lemma digits_val_zeros: "digits_val (replicate k (CHR ''0'')) = 0"
proof (induction k)
  case (Suc k)
  have "digits_val (replicate (Suc k) (CHR ''0'')) = digits_val ([CHR ''0''] @ replicate k (CHR ''0''))"
    by simp
  also have "\<dots> = 0" unfolding digits_val_append using Suc by (simp add: digits_val_def digit_val_def)
  finally show ?case .
qed (simp add: digits_val_def)

lemma digits_val_pad [simp]: "digits_val (pad_zeros k (str_nat n)) = n"
  by (simp add: pad_zeros_def digits_val_append digits_val_zeros)

lemma pad_zeros_no_point: "CHR ''.'' \<notin> set (pad_zeros k (str_nat n))"
proof -
  have "\<not> is_digit (CHR ''.'')" by (simp add: is_digit_def)
  then have "CHR ''.'' \<notin> set (str_nat n)" using str_nat_digits by blast
  then show ?thesis by (simp add: pad_zeros_def)
qed

lemma filter_no_point: "CHR ''.'' \<notin> set t \<Longrightarrow> filter (\<lambda>c. c \<noteq> CHR ''.'') t = t"
  by (induction t) auto

lemma fixed_digits_val: "digits_val (filter (\<lambda>c. c \<noteq> CHR ''.'') (fixed_digits d n)) = n"
proof (cases "d = 0")
  case True
  have "CHR ''.'' \<notin> set (str_nat n)" using pad_zeros_no_point [of 0 n] by (simp add: pad_zeros_def)
  with True show ?thesis by (simp add: fixed_digits_def filter_no_point)
next
  case False
  define s where "s = pad_zeros (Suc d) (str_nat n)"
  have ns: "CHR ''.'' \<notin> set s" by (simp add: s_def pad_zeros_no_point)
  have "filter (\<lambda>c. c \<noteq> CHR ''.'') (take k s @ ''.'' @ drop k s) = s" for k
  proof -
    have "CHR ''.'' \<notin> set (take k s)" "CHR ''.'' \<notin> set (drop k s)"
      using ns set_take_subset [of k s] set_drop_subset [of k s] by auto
    then show ?thesis by (simp add: filter_no_point)
  qed
  with False show ?thesis by (simp add: fixed_digits_def Let_def s_def)
qed

lemma fmt_mag_error:
  assumes "0 \<le> x"
  shows "\<bar>of_nat (digits_val (filter (\<lambda>c. c \<noteq> CHR ''.'') (fmt_mag d x))) / 10 ^ d - x\<bar>
         \<le> 1 / (2 * 10 ^ d)"
proof -
  define r where "r = round_half_even (x * 10 ^ d)"
  have r0: "0 \<le> r" using assms by (simp add: r_def round_half_even_nonneg)
  have e: "\<bar>of_int r - x * 10 ^ d\<bar> \<le> 1 / 2"
    unfolding r_def by (rule round_half_even_error)
  have "\<bar>of_int r / 10 ^ d - x\<bar> = \<bar>of_int r - x * 10 ^ d\<bar> / 10 ^ d"
  proof -
    have "of_int r / 10 ^ d - x = (of_int r - x * 10 ^ d) / 10 ^ d"
      by (simp add: diff_divide_distrib)
    then show ?thesis by (simp add: abs_divide)
  qed
  also have "\<dots> \<le> (1 / 2) / 10 ^ d" using e by (rule divide_right_mono) simp
  finally have "\<bar>of_int r / 10 ^ d - x\<bar> \<le> 1 / (2 * 10 ^ d)" by simp
  with r0 show ?thesis by (simp add: fmt_mag_def fixed_digits_val r_def)
qed

end
