(* ===== verification/PyValue.thy ===== *)
theory PyValue
  imports PyFloat
begin

text \<open>
  The Python values the scripts handle: what \<open>json.loads\<close> returns (with dictionaries in insertion
  order), the exceptions that can be raised, and the built-in operations the scripts apply to such
  values: \<open>isinstance\<close> tests, truth values, \<open>==\<close>, \<open>int(...)\<close>, \<open>str(...)\<close>, \<open>d.get(k)\<close>, \<open>d[k]\<close>.

  An exception carries its f-string as a list of fragments: literal text (\<open>Txt\<close>) and values
  interpolated with their \<open>repr\<close> (\<open>Rep\<close>), so nothing of a message is lost; \<open>Err\<close> stands for the
  interpreter's own text of a built-in exception of the named class.
\<close>

section \<open>Values and exceptions\<close>

datatype json =
    JNull
  | JBool bool
  | JInt int
  | JFloat pyfloat
  | JStr string
  | JArr "json list"
  | JObj "(string \<times> json) list"

type_synonym obj = "(string, json) dict"

datatype frag = Txt string | Rep json | Err string

type_synonym msg = "frag list"

datatype exn =
    ManifestError msg
  | RunError msg
  | SummaryError msg
  | ExportError msg
  | KeyError json
  | TypeError
  | ValueError
  | OverflowError
  | AttributeError
  | TimeoutExpired
  | FileNotFoundError string
  | OSError string
  | JSONDecodeError string
  | OtherError string

type_synonym 'a res = "exn + 'a"

text \<open>\<open>except OSError\<close> also catches its subclass \<open>FileNotFoundError\<close>; this is the text of \<open>{err}\<close>.\<close>

fun os_error_text :: "exn \<Rightarrow> string option" where
  "os_error_text (OSError t) = Some t"
| "os_error_text (FileNotFoundError t) = Some t"
| "os_error_text _ = None"

fun json_error_text :: "exn \<Rightarrow> string option" where
  "json_error_text (JSONDecodeError t) = Some t"
| "json_error_text _ = None"

text \<open>\<open>str(err)\<close>; and \<open>{v}\<close> of a value in an f-string, which is \<open>repr(v)\<close> except for a string.\<close>

fun exn_msg :: "exn \<Rightarrow> msg" where
  "exn_msg (ManifestError m) = m"
| "exn_msg (RunError m) = m"
| "exn_msg (SummaryError m) = m"
| "exn_msg (ExportError m) = m"
| "exn_msg (KeyError k) = [Rep k]"
| "exn_msg (FileNotFoundError t) = [Txt t]"
| "exn_msg (OSError t) = [Txt t]"
| "exn_msg (JSONDecodeError t) = [Txt t]"
| "exn_msg (OtherError t) = [Txt t]"
| "exn_msg TypeError = [Err ''TypeError'']"
| "exn_msg ValueError = [Err ''ValueError'']"
| "exn_msg OverflowError = [Err ''OverflowError'']"
| "exn_msg AttributeError = [Err ''AttributeError'']"
| "exn_msg TimeoutExpired = [Err ''TimeoutExpired'']"

fun str_frag :: "json \<Rightarrow> frag" where
  "str_frag (JStr t) = Txt t"
| "str_frag v = Rep v"

text \<open>\<open>try: m / except C as err: raise h(err)\<close>, where \<open>c\<close> recognises the class and gives \<open>{err}\<close>.\<close>

definition except_as :: "'a res \<Rightarrow> (exn \<Rightarrow> string option) \<Rightarrow> (string \<Rightarrow> exn) \<Rightarrow> 'a res" where
  "except_as m c h = (case m of Inr x \<Rightarrow> Inr x
     | Inl e \<Rightarrow> (case c e of Some t \<Rightarrow> Inl (h t) | None \<Rightarrow> Inl e))"


section \<open>Built-in operations\<close>

text \<open>\<open>obj.get(key)\<close>, \<open>obj[key]\<close>, and the same on a value not known to be a dictionary.\<close>

definition dget :: "obj \<Rightarrow> string \<Rightarrow> json" where
  "dget d k = (case map_of d k of Some v \<Rightarrow> v | None \<Rightarrow> JNull)"

definition item :: "obj \<Rightarrow> string \<Rightarrow> json res" where
  "item d k = (case map_of d k of Some v \<Rightarrow> Inr v | None \<Rightarrow> Inl (KeyError (JStr k)))"

definition has_key :: "obj \<Rightarrow> string \<Rightarrow> bool" where
  "has_key d k = (map_of d k \<noteq> None)"

fun subscr :: "json \<Rightarrow> string \<Rightarrow> json res" where
  "subscr (JObj d) k = item d k"
| "subscr _ k = Inl TypeError"

fun get_method :: "json \<Rightarrow> string \<Rightarrow> json \<Rightarrow> json res" where
  "get_method (JObj d) k dflt = Inr (case map_of d k of Some v \<Rightarrow> v | None \<Rightarrow> dflt)"
| "get_method _ k dflt = Inl AttributeError"

text \<open>A value used where a string is required, as in \<open>path / v\<close>.\<close>

fun as_str :: "json \<Rightarrow> string res" where
  "as_str (JStr t) = Inr t"
| "as_str _ = Inl TypeError"

text \<open>Truth value testing.\<close>

fun truthy :: "json \<Rightarrow> bool" where
  "truthy JNull = False"
| "truthy (JBool b) = b"
| "truthy (JInt n) = (n \<noteq> 0)"
| "truthy (JFloat f) = (\<not> feq f (Fin 0))"
| "truthy (JStr s) = (s \<noteq> [])"
| "truthy (JArr xs) = (xs \<noteq> [])"
| "truthy (JObj d) = (d \<noteq> [])"

text \<open>\<open>isinstance(v, int)\<close> holds of booleans too; \<open>as_int\<close> gives the number they stand for.\<close>

fun as_int :: "json \<Rightarrow> int option" where
  "as_int (JInt n) = Some n"
| "as_int (JBool b) = Some (if b then 1 else 0)"
| "as_int _ = None"

definition positive_int :: "json \<Rightarrow> bool" where
  "positive_int v = (case as_int v of Some n \<Rightarrow> 0 < n | None \<Rightarrow> False)"

definition nonneg_int :: "json \<Rightarrow> bool" where
  "nonneg_int v = (case as_int v of Some n \<Rightarrow> 0 \<le> n | None \<Rightarrow> False)"

fun nonempty_str :: "json \<Rightarrow> bool" where
  "nonempty_str (JStr s) = (s \<noteq> [])"
| "nonempty_str _ = False"

fun nonempty_arr :: "json \<Rightarrow> bool" where
  "nonempty_arr (JArr xs) = (xs \<noteq> [])"
| "nonempty_arr _ = False"

fun is_obj :: "json \<Rightarrow> bool" where
  "is_obj (JObj d) = True"
| "is_obj _ = False"

text \<open>Numbers of all three types compare by value.\<close>

fun num_val :: "json \<Rightarrow> pyfloat option" where
  "num_val (JBool b) = Some (Fin (if b then 1 else 0))"
| "num_val (JInt n) = Some (Fin (of_int n))"
| "num_val (JFloat f) = Some f"
| "num_val _ = None"

lemma size_arr_elem: "x \<in> set xs \<Longrightarrow> size x < size (JArr xs)"
  by (induction xs) auto

lemma size_obj_elem: "(k, x) \<in> set d \<Longrightarrow> size x < size (JObj d)"
  by (induction d) auto

function py_eq :: "json \<Rightarrow> json \<Rightarrow> bool" where
  "py_eq v w = (case (v, w) of
     (JNull, JNull) \<Rightarrow> True
   | (JStr s, JStr t) \<Rightarrow> s = t
   | (JArr xs, JArr ys) \<Rightarrow> length xs = length ys \<and> (\<forall>(x, y) \<in> set (zip xs ys). py_eq x y)
   | (JObj d, JObj e) \<Rightarrow> length d = length e \<and>
       (\<forall>(k, x) \<in> set d. case map_of e k of None \<Rightarrow> False | Some y \<Rightarrow> py_eq x y)
   | _ \<Rightarrow> (case (num_val v, num_val w) of (Some a, Some b) \<Rightarrow> feq a b | _ \<Rightarrow> False))"
  by pat_completeness auto
termination
  by (relation "measure (\<lambda>(v, w). size v)")
    (auto dest: set_zip_leftD size_arr_elem size_obj_elem)

declare py_eq.simps [simp del]

text \<open>\<open>str.strip()\<close> and \<open>int(s)\<close> of a string: surrounding white space, a sign, digits that single
  underscores may separate.\<close>

definition is_space :: "char \<Rightarrow> bool" where
  "is_space c = (let n = of_char c :: nat in
     (9 \<le> n \<and> n \<le> 13) \<or> (28 \<le> n \<and> n \<le> 32) \<or> n = 133 \<or> n = 160)"

definition strip :: "string \<Rightarrow> string" where
  "strip s = rev (dropWhile is_space (rev (dropWhile is_space s)))"

fun digit_groups :: "string \<Rightarrow> string option" where
  "digit_groups [] = None"
| "digit_groups [c] = (if is_digit c then Some [c] else None)"
| "digit_groups (c # d # cs) = (if \<not> is_digit c then None
     else map_option (Cons c) (if d = CHR ''_'' then digit_groups cs else digit_groups (d # cs)))"

definition parse_int :: "string \<Rightarrow> int option" where
  "parse_int s = (case strip s of
       c # cs \<Rightarrow>
         (if c = CHR ''-'' then map_option (\<lambda>t. - int (digits_val t)) (digit_groups cs)
          else if c = CHR ''+'' then map_option (\<lambda>t. int (digits_val t)) (digit_groups cs)
          else map_option (\<lambda>t. int (digits_val t)) (digit_groups (c # cs)))
     | [] \<Rightarrow> None)"

fun py_int :: "json \<Rightarrow> int res" where
  "py_int (JInt n) = Inr n"
| "py_int (JBool b) = Inr (if b then 1 else 0)"
| "py_int (JFloat (Fin x)) = Inr (trunc_rat x)"
| "py_int (JFloat NegZero) = Inr 0"
| "py_int (JFloat PInf) = Inl OverflowError"
| "py_int (JFloat NInf) = Inl OverflowError"
| "py_int (JFloat NaN) = Inl ValueError"
| "py_int (JStr s) = (case parse_int s of Some n \<Rightarrow> Inr n | None \<Rightarrow> Inl ValueError)"
| "py_int JNull = Inl TypeError"
| "py_int (JArr xs) = Inl TypeError"
| "py_int (JObj d) = Inl TypeError"

text \<open>\<open>isinstance(v, (int, float))\<close>, and \<open>float(v)\<close> of such a value.\<close>

fun is_number :: "json \<Rightarrow> bool" where
  "is_number (JInt n) = True"
| "is_number (JBool b) = True"
| "is_number (JFloat f) = True"
| "is_number _ = False"

fun num_float :: "json \<Rightarrow> pyfloat res" where
  "num_float (JInt n) = (case float_of_int n of Some f \<Rightarrow> Inr f | None \<Rightarrow> Inl OverflowError)"
| "num_float (JBool b) = Inr (Fin (if b then 1 else 0))"
| "num_float (JFloat f) = Inr f"
| "num_float _ = Inl TypeError"

text \<open>The order of \<open>json.dumps(..., sort_keys=True)\<close>: every object with its keys sorted.\<close>

fun sort_keys :: "json \<Rightarrow> json" where
  "sort_keys (JObj d) = JObj (sort_key fst (map (\<lambda>(k, v). (k, sort_keys v)) d))"
| "sort_keys (JArr xs) = JArr (map sort_keys xs)"
| "sort_keys v = v"

text \<open>\<open>str(v)\<close> for the values \<open>isinstance(v, int)\<close> admits.\<close>

fun py_str_int :: "json \<Rightarrow> string" where
  "py_str_int (JInt n) = str_int n"
| "py_str_int (JBool b) = (if b then ''True'' else ''False'')"
| "py_str_int _ = []"


section \<open>Lemmas\<close>

lemma except_as_Inr_iff [res_iff]: "except_as m c h = Inr x \<longleftrightarrow> m = Inr x"
  by (auto simp: except_as_def split: sum.splits option.splits)

lemma raises_json [errs]:
  assumes "raises c n" "\<And>b. raises c (fb b)" "\<And>i. raises c (fi i)" "\<And>x. raises c (ff x)"
    "\<And>s. raises c (fs s)" "\<And>xs. raises c (fa xs)" "\<And>d. raises c (fo d)"
  shows "raises c (case v of JNull \<Rightarrow> n | JBool b \<Rightarrow> fb b | JInt i \<Rightarrow> fi i | JFloat x \<Rightarrow> ff x
     | JStr s \<Rightarrow> fs s | JArr xs \<Rightarrow> fa xs | JObj d \<Rightarrow> fo d)"
  using assms by (cases v) simp_all

lemma case_obj_iff [res_iff]:
  "(case v of JObj d \<Rightarrow> f d | _ \<Rightarrow> Inl e) = Inr y \<longleftrightarrow> (\<exists>d. v = JObj d \<and> f d = Inr y)"
  by (cases v) auto

lemma case_arr_iff [res_iff]:
  "(case v of JArr xs \<Rightarrow> f xs | _ \<Rightarrow> Inl e) = Inr y \<longleftrightarrow> (\<exists>xs. v = JArr xs \<and> f xs = Inr y)"
  by (cases v) auto

lemma case_str_iff [res_iff]:
  "(case v of JStr t \<Rightarrow> f t | _ \<Rightarrow> Inl e) = Inr y \<longleftrightarrow> (\<exists>t. v = JStr t \<and> f t = Inr y)"
  by (cases v) auto

lemma case_bool_iff [res_iff]:
  "(case v of JBool b \<Rightarrow> f b | _ \<Rightarrow> Inl e) = Inr y \<longleftrightarrow> (\<exists>b. v = JBool b \<and> f b = Inr y)"
  by (cases v) auto

fun is_manifest_error :: "exn \<Rightarrow> bool" where
  "is_manifest_error (ManifestError _) = True"
| "is_manifest_error _ = False"

lemma is_manifest_error_iff: "is_manifest_error e \<longleftrightarrow> (\<exists>m. e = ManifestError m)"
  by (cases e) auto

fun is_script_error :: "exn \<Rightarrow> bool" where
  "is_script_error (ManifestError _) = True"
| "is_script_error (RunError _) = True"
| "is_script_error _ = False"

fun is_run_error :: "exn \<Rightarrow> bool" where
  "is_run_error (RunError _) = True"
| "is_run_error _ = False"

lemma item_Inr_iff [res_iff]: "item d k = Inr v \<longleftrightarrow> map_of d k = Some v"
  by (auto simp: item_def split: option.splits)

lemma subscr_Inr_iff [res_iff]: "subscr v k = Inr w \<longleftrightarrow> (\<exists>d. v = JObj d \<and> map_of d k = Some w)"
  by (cases v) (auto simp: res_iff)

lemma dget_Some [simp]: "map_of d k = Some v \<Longrightarrow> dget d k = v"
  by (simp add: dget_def)

lemma dget_eq_iff: "v \<noteq> JNull \<Longrightarrow> dget d k = v \<longleftrightarrow> map_of d k = Some v"
  by (auto simp: dget_def split: option.splits)

lemma dget_not_null: "dget d k \<noteq> JNull \<Longrightarrow> map_of d k = Some (dget d k)"
  by (auto simp: dget_def split: option.splits)

lemma nonempty_str_iff: "nonempty_str v \<longleftrightarrow> (\<exists>s. v = JStr s \<and> s \<noteq> [])"
  by (cases v) auto

lemma nonempty_arr_iff: "nonempty_arr v \<longleftrightarrow> (\<exists>xs. v = JArr xs \<and> xs \<noteq> [])"
  by (cases v) auto

lemma is_obj_iff: "is_obj v \<longleftrightarrow> (\<exists>d. v = JObj d)"
  by (cases v) auto

lemma positive_int_iff: "positive_int v \<longleftrightarrow> (\<exists>n. v = JInt n \<and> 0 < n) \<or> v = JBool True"
  by (cases v) (auto simp: positive_int_def)

lemma nonneg_int_iff: "nonneg_int v \<longleftrightarrow> (\<exists>n. v = JInt n \<and> 0 \<le> n) \<or> (\<exists>b. v = JBool b)"
  by (cases v) (auto simp: nonneg_int_def)

lemma positive_nonneg_int: "positive_int v \<Longrightarrow> nonneg_int v"
  by (auto simp: positive_int_def nonneg_int_def split: option.splits)

lemma py_eq_JStr [simp]: "py_eq v (JStr s) \<longleftrightarrow> v = JStr s" "py_eq (JStr s) v \<longleftrightarrow> v = JStr s"
  by (cases v; auto simp: py_eq.simps)+

lemma py_eq_JInt: "py_eq v (JInt n) \<longleftrightarrow> (\<exists>a. num_val v = Some a \<and> feq a (Fin (of_int n)))"
  by (cases v) (auto simp: py_eq.simps)

lemma is_digit_not_space: "is_digit c \<Longrightarrow> \<not> is_space c"
  by (auto simp: is_digit_def is_space_def)

lemma is_digit_not_sign:
  assumes "is_digit c"
  shows "c \<noteq> CHR ''-''" "c \<noteq> CHR ''+''" "c \<noteq> CHR ''_''"
  using assms by (auto simp: is_digit_def)

lemma digit_groups_digits: "s \<noteq> [] \<Longrightarrow> \<forall>c \<in> set s. is_digit c \<Longrightarrow> digit_groups s = Some s"
proof (induction s rule: digit_groups.induct)
  case (3 c d cs)
  then have "is_digit c" and d: "is_digit d" by simp_all
  moreover have "d \<noteq> CHR ''_''" using is_digit_not_sign(3) [OF d] .
  ultimately show ?case using 3 by simp
qed simp_all

lemma strip_no_space: "\<forall>c \<in> set s. \<not> is_space c \<Longrightarrow> strip s = s"
proof -
  assume a: "\<forall>c \<in> set s. \<not> is_space c"
  then have d: "dropWhile is_space s = s" by (cases s) auto
  have "dropWhile is_space (rev s) = rev s"
    using a by (cases "s = []") (simp_all add: dropWhile_eq_self_iff hd_rev)
  with d show ?thesis by (simp add: strip_def)
qed

text \<open>\<open>int(str(n)) == n\<close>.\<close>

lemma parse_str_int: "parse_int (str_int n) = Some n"
proof (cases "n < 0")
  case True
  define t where "t = str_nat (nat (- n))"
  have dig: "\<forall>c \<in> set t. is_digit c" and ne: "t \<noteq> []" by (simp_all add: t_def str_nat_digits)
  have "\<not> is_space (CHR ''-'')" by (simp add: is_space_def)
  then have "strip (CHR ''-'' # t) = CHR ''-'' # t"
    using dig is_digit_not_space by (intro strip_no_space) auto
  then show ?thesis using True dig ne
    by (simp add: parse_int_def str_int_def t_def digit_groups_digits)
next
  case False
  define t where "t = str_nat (nat n)"
  have dig: "\<forall>c \<in> set t. is_digit c" and ne: "t \<noteq> []" by (simp_all add: t_def str_nat_digits)
  have st: "strip t = t" using dig is_digit_not_space by (intro strip_no_space) auto
  obtain c cs where t: "t = c # cs" using ne by (cases t) auto
  have "c \<noteq> CHR ''-''" "c \<noteq> CHR ''+''" using dig t is_digit_not_sign by auto
  then have "parse_int t = map_option (\<lambda>t. int (digits_val t)) (digit_groups t)"
    using st t by (simp add: parse_int_def)
  also have "\<dots> = Some n" using False dig ne by (simp add: digit_groups_digits t_def)
  finally show ?thesis using False by (simp add: str_int_def t_def)
qed

lemma map_of_sort_key: "distinct (map fst d) \<Longrightarrow> map_of (sort_key fst d) = map_of d"
  for d :: "(string \<times> 'v) list"
  by (rule map_of_inject_set [THEN iffD2]) (simp_all add: distinct_map)

lemma map_of_sort_keys:
  assumes "distinct (map fst d)" "sort_keys (JObj d) = JObj e"
  shows "map_of e k = map_option sort_keys (map_of d k)"
proof -
  have e: "e = sort_key fst (map (\<lambda>(k, v). (k, sort_keys v)) d)" using assms(2) by simp
  have "distinct (map fst (map (\<lambda>(k, v). (k, sort_keys v)) d))"
    using assms(1) by (simp add: comp_def case_prod_unfold)
  then show ?thesis by (simp add: e map_of_sort_key map_of_map)
qed

end
