(* ===== verification/PyPath.thy ===== *)
theory PyPath
  imports Prelude
begin

text \<open>
  The pure-path part of \<open>pathlib.Path\<close> on POSIX that the scripts use: parsing a string, joining with
  \<open>/\<close>, \<open>name\<close>, \<open>parent\<close>, \<open>is_absolute\<close> and \<open>str\<close>. Empty and \<open>.\<close> components are dropped when a
  path is parsed, \<open>..\<close> is kept; joining with an absolute path yields that path.
\<close>

record path =
  path_root :: string
  path_parts :: "string list"

fun split_slash :: "string \<Rightarrow> string list" where
  "split_slash [] = [[]]"
| "split_slash (c # cs) = (if c = CHR ''/'' then [] # split_slash cs
     else (case split_slash cs of [] \<Rightarrow> [[c]] | w # ws \<Rightarrow> (c # w) # ws))"

definition root_of :: "string \<Rightarrow> string" where
  "root_of s = (if \<not> startswith s ''/'' then ''''
     else if startswith s ''//'' \<and> \<not> startswith s ''///'' then ''//'' else ''/'')"

definition path_of :: "string \<Rightarrow> path" where
  "path_of s = \<lparr>path_root = root_of s,
     path_parts = filter (\<lambda>w. w \<noteq> '''' \<and> w \<noteq> ''.'') (split_slash s)\<rparr>"

definition is_absolute :: "path \<Rightarrow> bool" where
  "is_absolute p = (path_root p \<noteq> '''')"

text \<open>\<open>p / q\<close>\<close>

definition path_join :: "path \<Rightarrow> path \<Rightarrow> path" where
  "path_join p q = (if is_absolute q then q else p\<lparr>path_parts := path_parts p @ path_parts q\<rparr>)"

abbreviation path_div :: "path \<Rightarrow> string \<Rightarrow> path" where
  "path_div p s \<equiv> path_join p (path_of s)"

definition path_name :: "path \<Rightarrow> string" where
  "path_name p = (if path_parts p = [] then '''' else last (path_parts p))"

definition path_parent :: "path \<Rightarrow> path" where
  "path_parent p = p\<lparr>path_parts := butlast (path_parts p)\<rparr>"

definition path_str :: "path \<Rightarrow> string" where
  "path_str p = (let s = path_root p @ joined ''/'' (path_parts p) in if s = '''' then ''.'' else s)"

text \<open>The paths that parsing produces: a POSIX root, no slash inside and no empty or dot component.\<close>

definition wf_path :: "path \<Rightarrow> bool" where
  "wf_path p \<longleftrightarrow> path_root p \<in> {'''', ''/'', ''//''} \<and>
     (\<forall>w \<in> set (path_parts p). w \<noteq> '''' \<and> w \<noteq> ''.'' \<and> CHR ''/'' \<notin> set w)"


section \<open>Lemmas\<close>

lemma split_slash_nonempty [simp]: "split_slash s \<noteq> []"
  by (cases s) (auto split: list.splits)

lemma split_slash_no_slash: "w \<in> set (split_slash s) \<Longrightarrow> CHR ''/'' \<notin> set w"
  by (induction s arbitrary: w) (auto split: list.splits if_splits)

lemma split_slash_word: "CHR ''/'' \<notin> set w \<Longrightarrow> split_slash w = [w]"
  by (induction w) auto

lemma split_slash_append:
  "CHR ''/'' \<notin> set w \<Longrightarrow> split_slash (w @ ''/'' @ s) = w # split_slash s"
  by (induction w) auto

lemma split_slash_joined:
  "ws \<noteq> [] \<Longrightarrow> \<forall>w \<in> set ws. CHR ''/'' \<notin> set w \<Longrightarrow> split_slash (joined ''/'' ws) = ws"
proof (induction "''/''" ws rule: joined.induct)
  case (3 x y ys)
  then show ?case using split_slash_append [of x "joined ''/'' (y # ys)"] by simp
qed (auto simp: split_slash_word)

lemma wf_path_of [simp]: "wf_path (path_of s)"
  by (auto simp: wf_path_def path_of_def root_of_def dest: split_slash_no_slash)

lemma wf_path_join [simp]: "wf_path p \<Longrightarrow> wf_path q \<Longrightarrow> wf_path (path_join p q)"
  by (auto simp: wf_path_def path_join_def)

lemma path_name_no_slash: "wf_path p \<Longrightarrow> CHR ''/'' \<notin> set (path_name p)"
  by (auto simp: path_name_def wf_path_def)

text \<open>The last component survives joining.\<close>

lemma path_name_join: "path_parts q \<noteq> [] \<Longrightarrow> path_name (path_join p q) = path_name q"
  by (simp add: path_name_def path_join_def)

lemma joined_first_char:
  assumes "ws \<noteq> []" "\<forall>w \<in> set ws. w \<noteq> '''' \<and> CHR ''/'' \<notin> set w"
  shows "\<exists>c cs. joined ''/'' ws = c # cs \<and> c \<noteq> CHR ''/''"
proof (cases ws)
  case (Cons w ws')
  with assms(2) obtain c cs where "w = c # cs" "c \<noteq> CHR ''/''" by (cases w) auto
  then show ?thesis using Cons by (cases ws') auto
qed (use assms(1) in simp)

text \<open>Printing a path and parsing it again gives the path back.\<close>

lemma path_of_str:
  assumes "wf_path p"
  shows "path_of (path_str p) = p"
proof -
  let ?f = "filter (\<lambda>w. w \<noteq> '''' \<and> w \<noteq> ''.'')"
  define ws where "ws = path_parts p"
  have root: "path_root p \<in> {'''', ''/'', ''//''}"
    and parts: "\<forall>w \<in> set ws. w \<noteq> '''' \<and> w \<noteq> ''.'' \<and> CHR ''/'' \<notin> set w"
    using assms by (auto simp: wf_path_def ws_def)
  have f: "?f ws = ws" using parts by (simp add: filter_id_conv)
  have split: "?f (split_slash (path_root p @ joined ''/'' ws)) = ws"
  proof (cases "ws = []")
    case True
    with root show ?thesis by auto
  next
    case False
    then have "split_slash (joined ''/'' ws) = ws" using parts by (simp add: split_slash_joined)
    with root f show ?thesis by auto
  qed
  have rt: "root_of (path_root p @ joined ''/'' ws) = path_root p"
  proof (cases "ws = []")
    case True
    with root show ?thesis by (auto simp: root_of_def startswith_def)
  next
    case False
    then obtain c cs where "joined ''/'' ws = c # cs" "c \<noteq> CHR ''/''"
      using joined_first_char parts by blast
    with root show ?thesis by (auto simp: root_of_def startswith_def)
  qed
  show ?thesis
  proof (cases "path_root p @ joined ''/'' ws = ''''")
    case True
    then have "ws = []" using joined_first_char [of ws] parts by (cases "ws = []") auto
    with True have "p = \<lparr>path_root = '''', path_parts = []\<rparr>" by (cases p) (simp add: ws_def)
    then show ?thesis by (simp add: path_str_def path_of_def root_of_def startswith_def)
  next
    case False
    then have "path_str p = path_root p @ joined ''/'' ws" by (simp add: path_str_def ws_def)
    then show ?thesis using split rt by (cases p) (simp add: path_of_def ws_def)
  qed
qed

end
