(* ===== verification/Host.thy ===== *)
theory Host
  imports PyValue PyPath
begin

text \<open>
  The machine the scripts run on. \<open>mach\<close> is the state a script changes: the files it sees, what it
  has printed, the processes it has started with the return codes it has observed, and the list of
  external calls it made. \<open>host\<close> answers those calls: each external call takes the answer that the
  host gives at the current tick and moves to the next tick, where \<open>h_drift\<close> says how the files
  have changed meanwhile (the started programs write their reports). Nothing is assumed of a host,
  so a theorem about a script holds whatever its child processes, clock and sockets do.

  An effectful function is a map from states to \<open>option\<close>: \<open>None\<close> is a call that never returns,
  \<open>Some (Inl e, s)\<close> one that raises \<open>e\<close> in state \<open>s\<close>, \<open>Some (Inr x, s)\<close> one that returns \<open>x\<close>.
\<close>

named_theorems io_iff \<open>when an effectful computation returns normally\<close>

record world =
  fs_exists :: "path \<Rightarrow> bool"
  fs_read :: "path \<Rightarrow> string res"
  fs_resolve :: "path \<Rightarrow> path"
  json_loads :: "string \<Rightarrow> json res"
  fs_size :: "path \<Rightarrow> nat"
  fs_list :: "path \<Rightarrow> string list"
  fs_is_dir :: "path \<Rightarrow> bool"

text \<open>
  An element of an argument vector: a value passed as it is, or \<open>str(v)\<close> of a value. \<open>arg_text\<close> is
  the text it denotes where the value is a string, an integer or a boolean, as it is on every
  command line built from a manifest that the scripts have accepted.
\<close>

datatype arg = Val json | StrOf json

abbreviation lit :: "string \<Rightarrow> arg" where
  "lit t \<equiv> Val (JStr t)"

fun arg_text :: "arg \<Rightarrow> string option" where
  "arg_text (Val (JStr t)) = Some t"
| "arg_text (StrOf (JStr t)) = Some t"
| "arg_text (StrOf (JInt n)) = Some (str_int n)"
| "arg_text (StrOf (JBool b)) = Some (if b then ''True'' else ''False'')"
| "arg_text _ = None"

datatype event =
    Mkdir path
  | Clock
  | Bind
  | Spawn nat "arg list"
  | Poll nat
  | Wait nat
  | Communicate nat
  | Sigterm nat
  | Sigkill nat
  | Connect string int
  | Sleep
  | RunCmd "arg list" pyfloat
  | RunEnv "(string, string) dict" "string list" "int option"
  | Write path

record mach =
  files :: world
  tick :: nat
  out_log :: "msg list"
  err_log :: "msg list"
  events :: "event list"
  codes :: "nat \<Rightarrow> int option"
  next_pid :: nat

record host =
  h_mono :: "nat \<Rightarrow> pyfloat"
  h_exit :: "nat \<Rightarrow> nat \<Rightarrow> int option"
  h_comm :: "nat \<Rightarrow> nat \<Rightarrow> (int \<times> string \<times> string) option"
  h_conn :: "string \<Rightarrow> int \<Rightarrow> nat \<Rightarrow> int"
  h_run :: "arg list \<Rightarrow> nat \<Rightarrow> (int \<times> string \<times> string) res"
  h_spawn :: "arg list \<Rightarrow> nat \<Rightarrow> string option"
  h_mkdir :: "path \<Rightarrow> nat \<Rightarrow> string option"
  h_addr :: "nat \<Rightarrow> string \<times> int"
  h_now_us :: "nat \<Rightarrow> int"
  h_hash :: "string list \<Rightarrow> int"
  h_drift :: "nat \<Rightarrow> world \<Rightarrow> world"
  h_write :: "path \<Rightarrow> nat \<Rightarrow> string option"
  h_partial :: "nat \<Rightarrow> string \<times> string"
  h_utc :: "nat \<Rightarrow> string"
  h_dumps :: "json \<Rightarrow> string"

type_synonym 'a io = "mach \<Rightarrow> ('a res \<times> mach) option"


section \<open>Sequencing, exceptions and output\<close>

definition ret :: "'a \<Rightarrow> 'a io" where
  "ret x s = Some (Inr x, s)"

definition raise_io :: "exn \<Rightarrow> 'a io" where
  "raise_io e s = Some (Inl e, s)"

definition lift :: "'a res \<Rightarrow> 'a io" where
  "lift r s = Some (r, s)"

definition iobnd :: "'a io \<Rightarrow> ('a \<Rightarrow> 'b io) \<Rightarrow> 'b io" where
  "iobnd m f s = (case m s of None \<Rightarrow> None
     | Some (Inl e, t) \<Rightarrow> Some (Inl e, t)
     | Some (Inr x, t) \<Rightarrow> f x t)"

text \<open>\<open>try: m / except C: raise ...\<close>, where \<open>c\<close> recognises the exceptions of class \<open>C\<close>, and
  \<open>try: m / finally: f\<close>, where an exception of \<open>f\<close> replaces the outcome of \<open>m\<close>.\<close>

definition try_except :: "'a io \<Rightarrow> (exn \<Rightarrow> bool) \<Rightarrow> (exn \<Rightarrow> 'a io) \<Rightarrow> 'a io" where
  "try_except m c h s = (case m s of
       Some (Inl e, t) \<Rightarrow> (if c e then h e t else Some (Inl e, t))
     | r \<Rightarrow> r)"

definition try_finally :: "'a io \<Rightarrow> unit io \<Rightarrow> 'a io" where
  "try_finally m f s = (case m s of None \<Rightarrow> None
     | Some (r, t) \<Rightarrow> (case f t of None \<Rightarrow> None
         | Some (Inl e, u) \<Rightarrow> Some (Inl e, u)
         | Some (Inr _, u) \<Rightarrow> Some (r, u)))"

fun ioeach :: "('a \<Rightarrow> unit io) \<Rightarrow> 'a list \<Rightarrow> unit io" where
  "ioeach f [] = ret ()"
| "ioeach f (x # xs) = iobnd (f x) (\<lambda>_. ioeach f xs)"

fun iofold :: "('s \<Rightarrow> 'a \<Rightarrow> 's io) \<Rightarrow> 's \<Rightarrow> 'a list \<Rightarrow> 's io" where
  "iofold f a [] = ret a"
| "iofold f a (x # xs) = iobnd (f a x) (\<lambda>b. iofold f b xs)"

text \<open>\<open>print(line)\<close>, \<open>print(line, file=sys.stderr)\<close> and a look at the files.\<close>

definition say :: "msg \<Rightarrow> unit io" where
  "say m s = Some (Inr (), s\<lparr>out_log := out_log s @ [m]\<rparr>)"

definition complain :: "msg \<Rightarrow> unit io" where
  "complain m s = Some (Inr (), s\<lparr>err_log := err_log s @ [m]\<rparr>)"

definition look :: "(world \<Rightarrow> 'a res) \<Rightarrow> 'a io" where
  "look f s = Some (f (files s), s)"


section \<open>External calls\<close>

definition ext :: "host \<Rightarrow> event \<Rightarrow> mach \<Rightarrow> mach" where
  "ext h ev s = s\<lparr>files := h_drift h (tick s) (files s), tick := Suc (tick s),
                  events := events s @ [ev]\<rparr>"

definition monotonic :: "host \<Rightarrow> pyfloat io" where
  "monotonic h s = Some (Inr (h_mono h (tick s)), ext h Clock s)"

text \<open>\<open>int(time.time() * 1000000)\<close>\<close>

definition time_us :: "host \<Rightarrow> int io" where
  "time_us h s = Some (Inr (h_now_us h (tick s)), s)"

definition mkdir_p :: "host \<Rightarrow> path \<Rightarrow> unit io" where
  "mkdir_p h p s = Some (case h_mkdir h p (tick s) of
       None \<Rightarrow> Inr () | Some t \<Rightarrow> Inl (OSError t), ext h (Mkdir p) s)"

definition sleep :: "host \<Rightarrow> unit io" where
  "sleep h s = Some (Inr (), ext h Sleep s)"

definition connect_ex :: "host \<Rightarrow> string \<Rightarrow> int \<Rightarrow> int io" where
  "connect_ex h a p s = Some (Inr (h_conn h a p (tick s)), ext h (Connect a p) s)"

text \<open>\<open>subprocess.Popen\<close>: a fresh process without a return code yet, or an \<open>OSError\<close>.\<close>

definition popen :: "host \<Rightarrow> arg list \<Rightarrow> nat io" where
  "popen h cmd s = (case h_spawn h cmd (tick s) of
       Some t \<Rightarrow> Some (Inl (OSError t), ext h (Spawn (next_pid s) cmd) s)
     | None \<Rightarrow> Some (Inr (next_pid s), (ext h (Spawn (next_pid s) cmd) s)
         \<lparr>codes := (codes s)(next_pid s := None), next_pid := Suc (next_pid s)\<rparr>))"

text \<open>\<open>Popen.poll\<close> and \<open>Popen.wait\<close> remember the return code once they have seen it.\<close>

definition poll :: "host \<Rightarrow> nat \<Rightarrow> int option io" where
  "poll h pid s = (case codes s pid of
       Some c \<Rightarrow> Some (Inr (Some c), s)
     | None \<Rightarrow> (let r = h_exit h pid (tick s) in
         Some (Inr r, (ext h (Poll pid) s)\<lparr>codes := (codes s)(pid := r)\<rparr>)))"

definition wait_proc :: "host \<Rightarrow> nat \<Rightarrow> int io" where
  "wait_proc h pid s = (case codes s pid of
       Some c \<Rightarrow> Some (Inr c, s)
     | None \<Rightarrow> (case h_exit h pid (tick s) of
         Some c \<Rightarrow> Some (Inr c, (ext h (Wait pid) s)\<lparr>codes := (codes s)(pid := Some c)\<rparr>)
       | None \<Rightarrow> Some (Inl TimeoutExpired, ext h (Wait pid) s)))"

definition communicate :: "host \<Rightarrow> nat \<Rightarrow> (string \<times> string) io" where
  "communicate h pid s = (case h_comm h pid (tick s) of
       None \<Rightarrow> Some (Inl TimeoutExpired, ext h (Communicate pid) s)
     | Some (c, so, se) \<Rightarrow> Some (Inr (so, se), (ext h (Communicate pid) s)
         \<lparr>codes := (codes s)(pid := Some (case codes s pid of Some c' \<Rightarrow> c' | None \<Rightarrow> c))\<rparr>))"

text \<open>\<open>Popen.terminate\<close> and \<open>Popen.kill\<close> poll first and signal only a process still running.\<close>

definition signal_proc :: "host \<Rightarrow> event \<Rightarrow> nat \<Rightarrow> unit io" where
  "signal_proc h ev pid = iobnd (poll h pid) (\<lambda>r s. case r of
       Some _ \<Rightarrow> Some (Inr (), s) | None \<Rightarrow> Some (Inr (), ext h ev s))"

definition terminate :: "host \<Rightarrow> nat \<Rightarrow> unit io" where
  "terminate h pid = signal_proc h (Sigterm pid) pid"

definition kill :: "host \<Rightarrow> nat \<Rightarrow> unit io" where
  "kill h pid = signal_proc h (Sigkill pid) pid"

definition returncode :: "nat \<Rightarrow> int option io" where
  "returncode pid s = Some (Inr (codes s pid), s)"

text \<open>\<open>subprocess.run(cmd, timeout=...)\<close>: return code and output, or an exception.\<close>

definition run_cmd :: "host \<Rightarrow> arg list \<Rightarrow> pyfloat \<Rightarrow> (int \<times> string \<times> string) io" where
  "run_cmd h cmd t s = Some (h_run h cmd (tick s), ext h (RunCmd cmd t) s)"

text \<open>The same with an environment; \<open>h_partial\<close> is what a \<open>TimeoutExpired\<close> carries as its output.\<close>

definition run_env ::
    "host \<Rightarrow> (string, string) dict \<Rightarrow> string list \<Rightarrow> int option \<Rightarrow> (int \<times> string \<times> string) io" where
  "run_env h env cmd timeout s = Some (h_run h (map lit cmd) (tick s), ext h (RunEnv env cmd timeout) s)"

definition partial_output :: "host \<Rightarrow> (string \<times> string) io" where
  "partial_output h s = Some (Inr (h_partial h (tick s)), s)"

text \<open>\<open>datetime.now(timezone.utc).isoformat()\<close>\<close>

definition utc_now :: "host \<Rightarrow> string io" where
  "utc_now h s = Some (Inr (h_utc h (tick s)), s)"

text \<open>\<open>p.write_text(t, encoding="utf-8")\<close> and \<open>shutil.copy2(p, q)\<close>: the files change as said, unless
  the host refuses the write. A missing source is a \<open>FileNotFoundError\<close>, and copying a file onto
  itself a \<open>SameFileError\<close>, which is an \<open>OSError\<close>.\<close>

definition utf8_size :: "string \<Rightarrow> nat" where
  "utf8_size t = sum_list (map (\<lambda>c. if of_char c < (128 :: nat) then 1 else 2) t)"

definition put_text :: "path \<Rightarrow> string \<Rightarrow> world \<Rightarrow> world" where
  "put_text p t w = w\<lparr>fs_exists := (fs_exists w)(p := True), fs_read := (fs_read w)(p := Inr t),
     fs_size := (fs_size w)(p := utf8_size t)\<rparr>"

definition put_copy :: "path \<Rightarrow> path \<Rightarrow> world \<Rightarrow> world" where
  "put_copy p q w = w\<lparr>fs_exists := (fs_exists w)(q := True), fs_read := (fs_read w)(q := fs_read w p),
     fs_size := (fs_size w)(q := fs_size w p)\<rparr>"

definition write_with :: "host \<Rightarrow> path \<Rightarrow> (world \<Rightarrow> world) \<Rightarrow> unit io" where
  "write_with h p f s = (case h_write h p (tick s) of
       Some t \<Rightarrow> Some (Inl (OSError t), ext h (Write p) s)
     | None \<Rightarrow> Some (Inr (), (ext h (Write p) s)\<lparr>files := f (files (ext h (Write p) s))\<rparr>))"

definition write_text :: "host \<Rightarrow> path \<Rightarrow> string \<Rightarrow> unit io" where
  "write_text h p t = write_with h p (put_text p t)"

definition copy_file :: "host \<Rightarrow> path \<Rightarrow> path \<Rightarrow> unit io" where
  "copy_file h p q = iobnd (look (\<lambda>w.
       if \<not> fs_exists w p then Inl (FileNotFoundError (path_str p))
       else if fs_exists w q \<and> fs_resolve w p = fs_resolve w q then Inl (OSError ''same file'')
       else Inr ()))
     (\<lambda>_. write_with h q (put_copy p q))"


section \<open>Lemmas\<close>

lemma ret_iff [io_iff]: "ret x s = Some (Inr y, t) \<longleftrightarrow> y = x \<and> t = s"
  by (auto simp: ret_def)

lemma raise_iff [io_iff]: "raise_io e s = Some (Inr y, t) \<longleftrightarrow> False"
  by (simp add: raise_io_def)

lemma lift_iff [io_iff]: "lift r s = Some (Inr y, t) \<longleftrightarrow> r = Inr y \<and> t = s"
  by (auto simp: lift_def)

lemma look_iff [io_iff]: "look f s = Some (Inr y, t) \<longleftrightarrow> f (files s) = Inr y \<and> t = s"
  by (auto simp: look_def)

lemma say_iff [io_iff]: "say m s = Some (Inr y, t) \<longleftrightarrow> t = s\<lparr>out_log := out_log s @ [m]\<rparr>"
  by (auto simp: say_def)

lemma iobnd_iff [io_iff]:
  "iobnd m f s = Some (Inr y, t) \<longleftrightarrow> (\<exists>x u. m s = Some (Inr x, u) \<and> f x u = Some (Inr y, t))"
  by (auto simp: iobnd_def split: option.splits sum.splits)

lemma iobnd_Inl_iff:
  "iobnd m f s = Some (Inl e, t) \<longleftrightarrow>
     m s = Some (Inl e, t) \<or> (\<exists>x u. m s = Some (Inr x, u) \<and> f x u = Some (Inl e, t))"
  by (auto simp: iobnd_def split: option.splits sum.splits)

lemma if_raise_io_iff [io_iff]:
  "(if b then raise_io e else m) s = Some (Inr y, t) \<longleftrightarrow> \<not> b \<and> m s = Some (Inr y, t)"
  by (simp add: raise_io_def)

lemma try_finally_iff:
  "try_finally m f s = Some (r, u) \<longleftrightarrow>
     (\<exists>r' t r2. m s = Some (r', t) \<and> f t = Some (r2, u) \<and>
        r = (case r2 of Inl e \<Rightarrow> Inl e | Inr _ \<Rightarrow> r'))"
  by (auto simp: try_finally_def split: option.splits sum.splits prod.splits)

lemma try_finally_Inr_iff [io_iff]:
  "try_finally m f s = Some (Inr x, u) \<longleftrightarrow> (\<exists>t. m s = Some (Inr x, t) \<and> f t = Some (Inr (), u))"
  by (auto simp: try_finally_def split: option.splits sum.splits prod.splits)

lemma try_except_raise_iff [io_iff]:
  "try_except m c (\<lambda>e. raise_io (f e)) s = Some (Inr x, t) \<longleftrightarrow> m s = Some (Inr x, t)"
  by (auto simp: try_except_def raise_io_def split: option.splits sum.splits)

text \<open>Loop rules: what one iteration keeps, the loop keeps.\<close>

lemma iobnd_cases:
  assumes "iobnd m f s = Some (r, t)"
  obtains e where "m s = Some (Inl e, t)" "r = Inl e"
  | x u where "m s = Some (Inr x, u)" "f x u = Some (r, t)"
  using assms by (auto simp: iobnd_def split: option.splits sum.splits)

lemma ioeach_keeps:
  assumes "ioeach f xs s = Some (r, t)" and "P s"
    and "\<And>x s r t. x \<in> set xs \<Longrightarrow> P s \<Longrightarrow> f x s = Some (r, t) \<Longrightarrow> P t"
  shows "P t"
  using assms
proof (induction xs arbitrary: s)
  case (Cons x xs)
  from Cons.prems(1) have "iobnd (f x) (\<lambda>_. ioeach f xs) s = Some (r, t)" by simp
  then show ?case
  proof (cases rule: iobnd_cases)
    case (1 e)
    then show ?thesis using Cons.prems(2,3) by (meson list.set_intros(1))
  next
    case (2 y u)
    then have "P u" using Cons.prems(2,3) by (meson list.set_intros(1))
    with 2 Cons.prems(3) show ?thesis by (meson Cons.IH list.set_intros(2))
  qed
qed (simp add: ret_def)

lemma iofold_keeps:
  assumes "iofold f a xs s = Some (r, t)" and "P s"
    and "\<And>x a s r t. x \<in> set xs \<Longrightarrow> P s \<Longrightarrow> f a x s = Some (r, t) \<Longrightarrow> P t"
  shows "P t"
  using assms
proof (induction xs arbitrary: s a)
  case (Cons x xs)
  from Cons.prems(1) have "iobnd (f a x) (\<lambda>b. iofold f b xs) s = Some (r, t)" by simp
  then show ?case
  proof (cases rule: iobnd_cases)
    case (1 e)
    then show ?thesis using Cons.prems(2,3) by (meson list.set_intros(1))
  next
    case (2 y u)
    then have "P u" using Cons.prems(2,3) by (meson list.set_intros(1))
    with 2 Cons.prems(3) show ?thesis by (meson Cons.IH list.set_intros(2))
  qed
qed (simp add: ret_def)

text \<open>A loop whose body looks at the files and prints.\<close>

lemma ioeach_printing:
  assumes "\<And>x s y t. x \<in> set xs \<Longrightarrow> f x s = Some (Inr y, t) \<longleftrightarrow>
      ok (files s) x \<and> t = s\<lparr>out_log := out_log s @ line x\<rparr>"
  shows "ioeach f xs s = Some (Inr y, t) \<longleftrightarrow>
      (\<forall>x \<in> set xs. ok (files s) x) \<and> t = s\<lparr>out_log := out_log s @ concat (map line xs)\<rparr>"
  using assms by (induction xs arbitrary: s) (auto simp: io_iff)

lemma iofold_printing:
  assumes "\<And>x a s b t. x \<in> set xs \<Longrightarrow> f a x s = Some (Inr b, t) \<longleftrightarrow>
      ok (files s) x \<and> b = upd (files s) a x \<and> t = s\<lparr>out_log := out_log s @ line x\<rparr>"
  shows "iofold f a xs s = Some (Inr b, t) \<longleftrightarrow> (\<forall>x \<in> set xs. ok (files s) x) \<and>
      b = foldl (upd (files s)) a xs \<and> t = s\<lparr>out_log := out_log s @ concat (map line xs)\<rparr>"
  using assms by (induction xs arbitrary: s a) (auto simp: io_iff)

lemma iobnd_mono [partial_function_mono]:
  assumes "\<And>x t. mono_option (\<lambda>f. g f x t)"
  shows "mono_option (\<lambda>f. iobnd m (g f) s)"
proof (cases "m s")
  case None
  then show ?thesis by (simp add: iobnd_def option.const_mono)
next
  case (Some rt)
  then obtain r t where "m s = Some (r, t)" by (cases rt) auto
  then show ?thesis using assms by (cases r) (simp_all add: iobnd_def option.const_mono)
qed

lemma ext_simps [simp]:
  "codes (ext h ev s) = codes s" "events (ext h ev s) = events s @ [ev]"
  "tick (ext h ev s) = Suc (tick s)" "next_pid (ext h ev s) = next_pid s"
  "out_log (ext h ev s) = out_log s" "err_log (ext h ev s) = err_log s"
  by (simp_all add: ext_def)


section \<open>Well-behaved computations\<close>

text \<open>
  \<open>later s t\<close>: the machine can have moved from \<open>s\<close> to \<open>t\<close> without starting a process. Return codes
  once observed stay, and the record of external calls only grows. A computation is \<open>tame\<close> when it
  always moves the machine this way, and \<open>total\<close> when it always returns.
\<close>

definition later :: "mach \<Rightarrow> mach \<Rightarrow> bool" where
  "later s t \<longleftrightarrow> next_pid t = next_pid s \<and> (\<forall>p c. codes s p = Some c \<longrightarrow> codes t p = Some c) \<and>
     (\<exists>evs. events t = events s @ evs) \<and> tick s \<le> tick t"

definition tame :: "'a io \<Rightarrow> bool" where
  "tame m \<longleftrightarrow> (\<forall>s r t. m s = Some (r, t) \<longrightarrow> later s t)"

definition total :: "'a io \<Rightarrow> bool" where
  "total m \<longleftrightarrow> (\<forall>s. \<exists>r t. m s = Some (r, t))"

named_theorems calm \<open>introduction rules for \<^const>\<open>tame\<close> and \<^const>\<open>total\<close>\<close>

lemma later_refl [simp]: "later s s"
  by (simp add: later_def)

lemma later_trans: "later s t \<Longrightarrow> later t u \<Longrightarrow> later s u"
  by (force simp: later_def)

lemma later_code: "later s t \<Longrightarrow> codes s p = Some c \<Longrightarrow> codes t p = Some c"
  by (simp add: later_def)

lemma later_known: "later s t \<Longrightarrow> codes s p \<noteq> None \<Longrightarrow> codes t p \<noteq> None"
  by (auto simp: later_def)

lemma later_event: "later s t \<Longrightarrow> ev \<in> set (events s) \<Longrightarrow> ev \<in> set (events t)"
  by (auto simp: later_def)

lemma tameD: "tame m \<Longrightarrow> m s = Some (r, t) \<Longrightarrow> later s t"
  by (auto simp: tame_def)

lemma totalE:
  assumes "total m"
  obtains r t where "m s = Some (r, t)"
  using assms by (meson total_def)

lemma iobnd_tame [calm]:
  assumes "tame m" "\<And>x. tame (f x)"
  shows "tame (iobnd m f)"
  unfolding tame_def
proof (intro allI impI)
  fix s r t
  assume "iobnd m f s = Some (r, t)"
  then show "later s t"
    by (cases rule: iobnd_cases) (meson assms tameD later_trans)+
qed

lemma iobnd_total [calm]: "total m \<Longrightarrow> (\<And>x. total (f x)) \<Longrightarrow> total (iobnd m f)"
  unfolding total_def iobnd_def by (fastforce split: sum.splits option.splits)

lemma try_except_tame [calm]:
  assumes "tame m" "\<And>e. tame (f e)"
  shows "tame (try_except m c f)"
  unfolding tame_def
proof (intro allI impI)
  fix s r t
  assume a: "try_except m c f s = Some (r, t)"
  then obtain r' u where m: "m s = Some (r', u)"
    by (auto simp: try_except_def split: option.splits)
  show "later s t"
  proof (cases "\<exists>e. r' = Inl e \<and> c e")
    case True
    then obtain e where e: "r' = Inl e" "c e" by blast
    with a m have "f e u = Some (r, t)" by (simp add: try_except_def)
    then show ?thesis using m assms by (meson later_trans tameD)
  next
    case False
    then have "u = t" using a m by (auto simp: try_except_def split: sum.splits if_splits)
    then show ?thesis using m assms(1) tameD by blast
  qed
qed

lemma try_except_total [calm]: "total m \<Longrightarrow> (\<And>e. total (f e)) \<Longrightarrow> total (try_except m c f)"
  unfolding total_def try_except_def by (fastforce split: sum.splits option.splits)

lemma try_finally_tame [calm]: "tame m \<Longrightarrow> tame f \<Longrightarrow> tame (try_finally m f)"
  unfolding tame_def try_finally_iff by (meson later_trans)

lemma try_finally_total [calm]: "total m \<Longrightarrow> total f \<Longrightarrow> total (try_finally m f)"
  unfolding total_def try_finally_iff by blast

lemma if_tame [calm]: "(b \<Longrightarrow> tame m) \<Longrightarrow> (\<not> b \<Longrightarrow> tame n) \<Longrightarrow> tame (if b then m else n)"
  by simp

lemma if_total [calm]: "(b \<Longrightarrow> total m) \<Longrightarrow> (\<not> b \<Longrightarrow> total n) \<Longrightarrow> total (if b then m else n)"
  by simp

lemma pair_tame [calm]: "(\<And>a b. tame (f a b)) \<Longrightarrow> tame (case p of (a, b) \<Rightarrow> f a b)"
  by (cases p) simp

lemma pair_total [calm]: "(\<And>a b. total (f a b)) \<Longrightarrow> total (case p of (a, b) \<Rightarrow> f a b)"
  by (cases p) simp

lemma basic_tame [calm]:
  "tame (ret x)" "tame (raise_io e)" "tame (lift q)" "tame (say l)" "tame (complain l)"
  "tame (look g)" "tame (returncode pid)"
  by (auto simp: tame_def later_def ret_def raise_io_def lift_def say_def complain_def look_def
      returncode_def)

lemma basic_total [calm]:
  "total (ret x)" "total (raise_io e)" "total (lift q)" "total (say l)" "total (complain l)"
  "total (look g)" "total (returncode pid)"
  by (auto simp: total_def ret_def raise_io_def lift_def say_def complain_def look_def
      returncode_def)

lemma call_tame [calm]:
  "tame (monotonic h)" "tame (mkdir_p h p)" "tame (sleep h)" "tame (connect_ex h a q)"
  "tame (run_cmd h cmd d)"
  by (auto simp: tame_def later_def monotonic_def mkdir_p_def sleep_def connect_ex_def run_cmd_def)

lemma write_tame [calm]:
  "tame (write_with h p f)" "tame (write_text h p u)" "tame (copy_file h p q)" "tame (run_env h env c d)"
  "tame (utc_now h)" "tame (partial_output h)"
  by (auto simp: tame_def later_def write_with_def write_text_def copy_file_def run_env_def utc_now_def
      partial_output_def iobnd_def look_def split: option.splits if_splits)

lemma write_total [calm]:
  "total (write_with h p f)" "total (write_text h p u)" "total (copy_file h p q)" "total (run_env h env c d)"
  "total (utc_now h)" "total (partial_output h)"
  by (auto simp: total_def write_with_def write_text_def copy_file_def run_env_def utc_now_def
      partial_output_def iobnd_def look_def split: option.splits if_splits)

lemma time_us_calm [calm]: "tame (time_us h)" "total (time_us h)"
  by (simp_all add: tame_def total_def time_us_def)

lemma proc_tame [calm]: "tame (poll h pid)" "tame (wait_proc h pid)" "tame (communicate h pid)"
  by (auto simp: tame_def later_def poll_def wait_proc_def communicate_def Let_def
      split: option.splits)

lemma call_total [calm]:
  "total (monotonic h)" "total (mkdir_p h p)" "total (sleep h)" "total (connect_ex h a q)"
  "total (run_cmd h cmd d)" "total (popen h cmd)"
  "total (poll h pid)" "total (wait_proc h pid)" "total (communicate h pid)"
  by (auto simp: total_def monotonic_def mkdir_p_def sleep_def connect_ex_def run_cmd_def popen_def
      poll_def wait_proc_def communicate_def Let_def split: option.splits)

lemma signal_tame [calm]: "tame (terminate h pid)" "tame (kill h pid)"
  by (auto simp: tame_def later_def terminate_def kill_def signal_proc_def iobnd_def poll_def Let_def
      split: option.splits)

lemma signal_total [calm]: "total (terminate h pid)" "total (kill h pid)"
  by (auto simp: total_def terminate_def kill_def signal_proc_def iobnd_def poll_def Let_def
      split: option.splits)

lemma ioeach_tame [calm]: "(\<And>x. tame (f x)) \<Longrightarrow> tame (ioeach f xs)"
  by (induction xs) (simp_all add: calm)

lemma ioeach_total [calm]: "(\<And>x. total (f x)) \<Longrightarrow> total (ioeach f xs)"
  by (induction xs) (simp_all add: calm)

lemma iofold_total [calm]: "(\<And>a x. total (f a x)) \<Longrightarrow> total (iofold f a xs)"
  by (induction xs arbitrary: a) (simp_all add: calm)

text \<open>\<open>kill\<close> leaves a process whose exit has been seen, or one that was sent the signal.\<close>

lemma kill_cases:
  assumes "kill h pid s = Some (r, t)"
  shows "r = Inr () \<and> (codes t pid \<noteq> None \<or> Sigkill pid \<in> set (events t))"
  using assms
  by (auto simp: kill_def signal_proc_def iobnd_def poll_def Let_def split: option.splits)

lemma wait_proc_cases:
  assumes "wait_proc h pid s = Some (r, t)"
  shows "(\<exists>c. r = Inr c \<and> codes t pid = Some c) \<or> r = Inl TimeoutExpired"
  using assms by (auto simp: wait_proc_def split: option.splits)

lemma poll_cases:
  assumes "poll h pid s = Some (r, t)"
  shows "r = Inr (codes t pid)"
  using assms by (auto simp: poll_def Let_def split: option.splits)

lemma popen_cases:
  assumes "popen h cmd s = Some (r, t)"
  obtains e where "r = Inl (OSError e)" "next_pid t = next_pid s" "codes t = codes s"
  | "r = Inr (next_pid s)" "next_pid t = Suc (next_pid s)" "codes t (next_pid s) = None"
  using assms by (auto simp: popen_def split: option.splits)


section \<open>Computations that leave no process behind\<close>

text \<open>
  \<open>clean m\<close>: every process that \<open>m\<close> starts has been collected when \<open>m\<close> is over, except that a
  \<open>TimeoutExpired\<close> may leave a process that was sent SIGKILL; and \<open>m\<close> does not touch older processes.
\<close>

definition settled :: "'a res \<Rightarrow> mach \<Rightarrow> nat \<Rightarrow> bool" where
  "settled r t pid \<longleftrightarrow> codes t pid \<noteq> None \<or> (r = Inl TimeoutExpired \<and> Sigkill pid \<in> set (events t))"

definition clean :: "'a io \<Rightarrow> bool" where
  "clean m \<longleftrightarrow> (\<forall>s r t. m s = Some (r, t) \<longrightarrow>
     next_pid s \<le> next_pid t \<and> (\<forall>pid < next_pid s. codes s pid \<noteq> None \<longrightarrow> codes t pid \<noteq> None) \<and>
     set (events s) \<subseteq> set (events t) \<and>
     (\<forall>pid. next_pid s \<le> pid \<and> pid < next_pid t \<longrightarrow> settled r t pid))"

lemma cleanD:
  assumes "clean m" "m s = Some (r, t)"
  shows "next_pid s \<le> next_pid t" "pid < next_pid s \<Longrightarrow> codes s pid \<noteq> None \<Longrightarrow> codes t pid \<noteq> None"
    "set (events s) \<subseteq> set (events t)"
    "next_pid s \<le> pid \<Longrightarrow> pid < next_pid t \<Longrightarrow> settled r t pid"
  using assms unfolding clean_def by blast+

lemma cleanI:
  assumes "\<And>s r t. m s = Some (r, t) \<Longrightarrow> next_pid s \<le> next_pid t"
    and "\<And>s r t pid. m s = Some (r, t) \<Longrightarrow> pid < next_pid s \<Longrightarrow> codes s pid \<noteq> None \<Longrightarrow> codes t pid \<noteq> None"
    and "\<And>s r t. m s = Some (r, t) \<Longrightarrow> set (events s) \<subseteq> set (events t)"
    and "\<And>s r t pid. m s = Some (r, t) \<Longrightarrow> next_pid s \<le> pid \<Longrightarrow> pid < next_pid t \<Longrightarrow> settled r t pid"
  shows "clean m"
  unfolding clean_def using assms by blast

lemma tame_clean: "tame m \<Longrightarrow> clean m"
  unfolding clean_def tame_def later_def by fastforce

lemma lift_clean [calm]: "clean (lift r)"
  by (rule tame_clean [OF basic_tame(3)])

lemma iobnd_clean [calm]:
  assumes m: "clean m" and f: "\<And>x. clean (f x)"
  shows "clean (iobnd m f)"
proof (rule cleanI)
  fix s r t
  assume "iobnd m f s = Some (r, t)"
  then have "next_pid s \<le> next_pid t \<and> set (events s) \<subseteq> set (events t) \<and>
    (\<forall>pid < next_pid s. codes s pid \<noteq> None \<longrightarrow> codes t pid \<noteq> None) \<and>
    (\<forall>pid. next_pid s \<le> pid \<and> pid < next_pid t \<longrightarrow> settled r t pid)"
  proof (cases rule: iobnd_cases)
    case (1 e)
    note c = cleanD [OF m 1(1)]
    have "settled r t pid" if "settled (Inl e :: 'a res) t pid" for pid
      using that 1(2) by (auto simp: settled_def)
    then show ?thesis using c by blast
  next
    case (2 x u)
    note c = cleanD [OF m 2(1)] and d = cleanD [OF f 2(2)]
    have "settled r t pid" if "next_pid s \<le> pid" "pid < next_pid t" for pid
    proof (cases "pid < next_pid u")
      case True
      then have "codes u pid \<noteq> None" using c(4) that(1) by (auto simp: settled_def)
      then show ?thesis using d(2) True by (auto simp: settled_def)
    next
      case False
      then show ?thesis using d(4) that(2) by simp
    qed
    moreover have "codes t pid \<noteq> None" if "pid < next_pid s" "codes s pid \<noteq> None" for pid
      using c(1) c(2) [OF that] d(2) [of pid] that(1) by simp
    ultimately show ?thesis using c(1,3) d(1,3) by auto
  qed
  then show "next_pid s \<le> next_pid t" "set (events s) \<subseteq> set (events t)"
    "\<And>pid. pid < next_pid s \<Longrightarrow> codes s pid \<noteq> None \<Longrightarrow> codes t pid \<noteq> None"
    "\<And>pid. next_pid s \<le> pid \<Longrightarrow> pid < next_pid t \<Longrightarrow> settled r t pid"
    by blast+
qed

lemma ioeach_clean [calm]: "(\<And>x. clean (f x)) \<Longrightarrow> clean (ioeach f xs)"
  by (induction xs) (simp_all add: calm tame_clean)

lemma if_clean [calm]: "(b \<Longrightarrow> clean m) \<Longrightarrow> (\<not> b \<Longrightarrow> clean n) \<Longrightarrow> clean (if b then m else n)"
  by simp

text \<open>Starting a process and guarding the rest with a cleanup that settles it is clean.\<close>

lemma popen_guarded_clean:
  assumes tame: "\<And>pid. tame (g pid)"
    and settles: "\<And>pid s r t. g pid s = Some (r, t) \<Longrightarrow> settled r t pid"
    and start: "\<And>s r t. start s = Some (r, t) \<Longrightarrow>
      (\<exists>e. r = Inl e \<and> later s t) \<or> (r = Inr (next_pid s) \<and> next_pid t = Suc (next_pid s) \<and>
         set (events s) \<subseteq> set (events t) \<and> (\<forall>pid < next_pid s. codes s pid \<noteq> None \<longrightarrow> codes t pid \<noteq> None))"
  shows "clean (iobnd start g)"
proof (rule cleanI)
  fix s r t
  assume "iobnd start g s = Some (r, t)"
  then have "next_pid s \<le> next_pid t \<and> set (events s) \<subseteq> set (events t) \<and>
    (\<forall>pid < next_pid s. codes s pid \<noteq> None \<longrightarrow> codes t pid \<noteq> None) \<and>
    (\<forall>pid. next_pid s \<le> pid \<and> pid < next_pid t \<longrightarrow> settled r t pid)"
  proof (cases rule: iobnd_cases)
    case (1 e)
    then have "later s t" using start by blast
    then show ?thesis by (auto simp: later_def)
  next
    case (2 pid u)
    then have u: "pid = next_pid s" "next_pid u = Suc (next_pid s)"
      "set (events s) \<subseteq> set (events u)"
      "\<forall>pid < next_pid s. codes s pid \<noteq> None \<longrightarrow> codes u pid \<noteq> None"
      using start by blast+
    have l: "later u t" using tameD [OF tame 2(2)] .
    have "settled r t pid" using settles [OF 2(2)] .
    then show ?thesis using u l by (auto simp: later_def less_Suc_eq)
  qed
  then show "next_pid s \<le> next_pid t" "set (events s) \<subseteq> set (events t)"
    "\<And>pid. pid < next_pid s \<Longrightarrow> codes s pid \<noteq> None \<Longrightarrow> codes t pid \<noteq> None"
    "\<And>pid. next_pid s \<le> pid \<Longrightarrow> pid < next_pid t \<Longrightarrow> settled r t pid"
    by blast+
qed

section \<open>A concrete machine\<close>

text \<open>A machine on which everything succeeds, for the examples: the clock stands at zero until the
  tenth tick and then shows a minute; a process asked at a tick ending in 5 or 7 is still running,
  at any other it has exited with status 0.\<close>

definition demo_world :: world where
  "demo_world = \<lparr>fs_exists = (\<lambda>_. True), fs_read = (\<lambda>_. Inr []), fs_resolve = (\<lambda>p. p),
     json_loads = (\<lambda>_. Inr JNull), fs_size = (\<lambda>_. 0), fs_list = (\<lambda>_. []), fs_is_dir = (\<lambda>_. False)\<rparr>"

text \<open>A file system of JSON documents, for the examples.\<close>

definition table_world :: "(string \<times> json) list \<Rightarrow> world" where
  "table_world docs = \<lparr>fs_exists = (\<lambda>p. has_key docs (path_str p)), fs_read = (\<lambda>p. Inr (path_str p)),
     fs_resolve = (\<lambda>p. p), json_loads = (\<lambda>t. Inr (dget docs t)), fs_size = (\<lambda>_. 0),
     fs_list = (\<lambda>_. []), fs_is_dir = (\<lambda>_. False)\<rparr>"

lemma table_world_simps [simp]: "fs_resolve (table_world docs) p = p"
  "fs_exists (table_world docs) p \<longleftrightarrow> has_key docs (path_str p)"
  "fs_read (table_world docs) p = Inr (path_str p)" "json_loads (table_world docs) t = Inr (dget docs t)"
  by (simp_all add: table_world_def)

definition demo_host :: host where
  "demo_host = \<lparr>h_mono = (\<lambda>n. if n < 10 then Fin 0 else Fin 60), h_exit = (\<lambda>_ n. if n mod 10 = 5 \<or> n mod 10 = 7 then None else Some 0),
     h_comm = (\<lambda>_ _. None), h_conn = (\<lambda>_ _ _. 0), h_run = (\<lambda>_ _. Inr (0, [], [])),
     h_spawn = (\<lambda>_ _. None), h_mkdir = (\<lambda>_ _. None), h_addr = (\<lambda>_. (''127.0.0.1'', 4000)),
     h_now_us = (\<lambda>_. 0), h_hash = (\<lambda>_. 0), h_drift = (\<lambda>_ w. w), h_write = (\<lambda>_ _. None),
     h_partial = (\<lambda>_. ([], [])), h_utc = (\<lambda>_. ''2026-01-01T00:00:00+00:00''), h_dumps = (\<lambda>_. ''{}'')\<rparr>"

definition demo_mach :: mach where
  "demo_mach = \<lparr>files = demo_world, tick = 0, out_log = [], err_log = [], events = [],
     codes = (\<lambda>_. None), next_pid = 0\<rparr>"

lemma demo_host_simps [simp]:
  "h_mono demo_host n = (if n < 10 then Fin 0 else Fin 60)" "h_exit demo_host pid n = (if n mod 10 = 5 \<or> n mod 10 = 7 then None else Some 0)"
  "h_conn demo_host a port n = 0" "h_run demo_host cmd n = Inr (0, [], [])"
  "h_spawn demo_host cmd n = None" "h_mkdir demo_host p n = None" "h_drift demo_host n w = w"
  "h_write demo_host p n = None"
  by (simp_all add: demo_host_def)

end
