(* ===== verification/RunnerCommon.thy ===== *)
theory RunnerCommon
  imports Host
begin

text \<open>
  The helpers the evidence runners share (accel-rpc/tonic-profile/scripts/proof_runner_common.py):
  field checks, the command line of a workload, the server/client run with its waiting loop and its
  cleanup, and the placeholder test on stage counters. Each function takes the exception class to
  raise as \<open>error_cls\<close>, as the Python does. \<open>extras\<close> dictionaries hold texts.
\<close>

section \<open>Field checks\<close>

definition REQUIRED_STAGE_NAMES :: "string list" where
  "REQUIRED_STAGE_NAMES = [''encode'', ''decode'', ''compress'', ''decompress'', ''buffer_reserve'',
     ''body_accum'', ''frame_header'']"

definition REQUIRED_STAGE_COUNTER_FIELDS :: "string list" where
  "REQUIRED_STAGE_COUNTER_FIELDS = [''count'', ''nanos'', ''millis'', ''bytes'', ''avg_nanos'']"

definition EXPECTED_ENDPOINT_ROLES :: "string list" where
  "EXPECTED_ENDPOINT_ROLES = [''client'', ''server'']"

definition fail :: "msg \<Rightarrow> unit io" where
  "fail m = complain m"

definition required_str :: "obj \<Rightarrow> string \<Rightarrow> msg \<Rightarrow> (msg \<Rightarrow> exn) \<Rightarrow> string res" where
  "required_str d key scope error_cls = (case dget d key of
       JStr v \<Rightarrow> (if v = [] then Inl (error_cls (scope @ [Txt ('' missing '' @ key)])) else Inr v)
     | _ \<Rightarrow> Inl (error_cls (scope @ [Txt ('' missing '' @ key)])))"

definition required_bool :: "obj \<Rightarrow> string \<Rightarrow> msg \<Rightarrow> (msg \<Rightarrow> exn) \<Rightarrow> bool res" where
  "required_bool d key scope error_cls = (case dget d key of
       JBool b \<Rightarrow> Inr b
     | _ \<Rightarrow> Inl (error_cls (scope @ [Txt ('' field '' @ key @ '' must be a boolean'')])))"

definition required_positive_int :: "obj \<Rightarrow> string \<Rightarrow> msg \<Rightarrow> (msg \<Rightarrow> exn) \<Rightarrow> json res" where
  "required_positive_int d key scope error_cls = (let value = dget d key in
     if positive_int value then Inr value
     else Inl (error_cls (scope @ [Txt ('' field '' @ key @ '' must be a positive integer'')])))"

definition locate_binary ::
    "world \<Rightarrow> string option \<Rightarrow> path \<Rightarrow> (msg \<Rightarrow> exn) \<Rightarrow> (path \<Rightarrow> msg) \<Rightarrow> path res" where
  "locate_binary w explicit default_path error_cls missing_message =
    (let p = (case explicit of Some e \<Rightarrow> if e = [] then default_path else path_of e
                             | None \<Rightarrow> default_path) in
     if \<not> fs_exists w p then Inl (error_cls (missing_message p)) else Inr (fs_resolve w p))"


section \<open>Addresses and commands\<close>

definition reserve_addr :: "host \<Rightarrow> string io" where
  "reserve_addr h s = (case h_addr h (tick s) of (a, port) \<Rightarrow>
     Some (Inr (a @ '':'' @ str_int port), ext h Bind s))"

text \<open>\<open>addr.rsplit(":", 1)\<close> unpacked into two names, and \<open>int(port_str)\<close>.\<close>

definition rsplit_colon :: "string \<Rightarrow> (string \<times> string) res" where
  "rsplit_colon a = (let t = takeWhile (\<lambda>c. c \<noteq> CHR '':'') (rev a) in
     if length t = length a then Inl ValueError
     else Inr (rev (drop (Suc (length t)) (rev a)), rev t))"

definition split_addr :: "string \<Rightarrow> (string \<times> int) res" where
  "split_addr a = bnd (rsplit_colon a) (\<lambda>(host, port_str).
     bnd (py_int (JStr port_str)) (\<lambda>port. Inr (host, port)))"

definition build_rpc_args :: "obj \<Rightarrow> string \<Rightarrow> arg list res" where
  "build_rpc_args entry addr =
    bnd (item entry ''rpc'') (\<lambda>rpc.
    bnd (item entry ''warmup_ms'') (\<lambda>warmup_ms.
    bnd (item entry ''measure_ms'') (\<lambda>measure_ms.
    bnd (item entry ''requests'') (\<lambda>requests.
    bnd (item entry ''concurrency'') (\<lambda>concurrency.
    bnd (item entry ''runtime'') (\<lambda>runtime.
    bnd (item entry ''compression'') (\<lambda>compression.
    bnd (item entry ''buffer_policy'') (\<lambda>buffer_policy.
    let args = [lit ''--rpc'', Val rpc, lit ''--bind'', lit addr, lit ''--target'', lit addr,
                lit ''--warmup-ms'', StrOf warmup_ms, lit ''--measure-ms'', StrOf measure_ms,
                lit ''--requests'', StrOf requests, lit ''--concurrency'', StrOf concurrency,
                lit ''--runtime'', Val runtime, lit ''--compression'', Val compression,
                lit ''--buffer-policy'', Val buffer_policy] in
    if rpc = JStr ''unary-bytes'' then
      bnd (item entry ''payload_size'') (\<lambda>payload_size.
      bnd (item entry ''payload_kind'') (\<lambda>payload_kind.
      Inr (args @ [lit ''--payload-size'', StrOf payload_size,
                   lit ''--payload-kind'', Val payload_kind])))
    else
      bnd (item entry ''proto_shape'') (\<lambda>proto_shape.
      bnd (item entry ''response_shape'') (\<lambda>response_shape.
      Inr (args @ [lit ''--proto-shape'', Val proto_shape,
                   lit ''--response-shape'', Val response_shape])))))))))))"


section \<open>Running a server and a client\<close>

fun is_timeout :: "exn \<Rightarrow> bool" where
  "is_timeout TimeoutExpired = True"
| "is_timeout _ = False"

definition drain_process_output :: "host \<Rightarrow> nat \<Rightarrow> (string \<times> string) io" where
  "drain_process_output h pid = try_except (communicate h pid) is_timeout
     (\<lambda>_. iobnd (kill h pid) (\<lambda>_. communicate h pid))"

definition context_line :: "string \<Rightarrow> string \<Rightarrow> string \<Rightarrow> path \<Rightarrow> (string, string) dict \<Rightarrow> string" where
  "context_line label phase endpoint_role artifact_path extras = joined '' ''
     ([''label='' @ label, ''phase='' @ phase, ''endpoint_role='' @ endpoint_role,
       ''artifact='' @ path_str artifact_path] @ map (\<lambda>(k, v). k @ ''='' @ v) extras)"

definition rc_text :: "int option \<Rightarrow> string" where
  "rc_text r = (case r of Some c \<Rightarrow> str_int c | None \<Rightarrow> ''None'')"

text \<open>The escalation all the runners use: nothing if the process has exited, else SIGTERM, two
  seconds, a warning, SIGKILL, two more seconds.\<close>

definition stop_process :: "host \<Rightarrow> nat \<Rightarrow> msg \<Rightarrow> unit io" where
  "stop_process h pid warning =
    iobnd (poll h pid) (\<lambda>r. if r \<noteq> None then ret () else
    iobnd (terminate h pid) (\<lambda>_.
    try_except (iobnd (wait_proc h pid) (\<lambda>_. ret ())) is_timeout (\<lambda>_.
      iobnd (fail warning) (\<lambda>_.
      iobnd (kill h pid) (\<lambda>_.
      iobnd (wait_proc h pid) (\<lambda>_. ret ()))))))"

definition terminate_process ::
    "host \<Rightarrow> nat \<Rightarrow> string \<Rightarrow> string \<Rightarrow> path \<Rightarrow> (string, string) dict \<Rightarrow> unit io" where
  "terminate_process h pid label phase artifact_path extras = stop_process h pid
     [Txt (context_line label phase ''server'' artifact_path
        (AList.update ''warning'' ''sigkill-after-sigterm'' extras))]"

definition output_msg :: "string \<Rightarrow> string \<Rightarrow> string \<Rightarrow> msg" where
  "output_msg line so se = [Txt (joined [CHR 0x0A]
     [line, ''stdout:'' @ [CHR 0x0A] @ so, ''stderr:'' @ [CHR 0x0A] @ se])]"

text \<open>The waiting loop: it ends when the clock passes the deadline, the server has exited or the
  port accepts a connection.\<close>

partial_function (option) wait_loop ::
    "host \<Rightarrow> nat \<Rightarrow> string \<Rightarrow> int \<Rightarrow> pyfloat \<Rightarrow> unit io \<Rightarrow> exn \<Rightarrow> mach \<Rightarrow> (unit res \<times> mach) option"
where
  "wait_loop h pid a port deadline exited expired s =
    iobnd (monotonic h) (\<lambda>now t. if \<not> flt now deadline then raise_io expired t else
    iobnd (poll h pid) (\<lambda>r u. if r \<noteq> None then exited u else
    iobnd (connect_ex h a port) (\<lambda>c v. if c = 0 then ret () v else
    iobnd (sleep h) (\<lambda>_ w. wait_loop h pid a port deadline exited expired w) v) u) t) s"

definition wait_for_port ::
    "host \<Rightarrow> nat \<Rightarrow> string \<Rightarrow> pyfloat \<Rightarrow> string \<Rightarrow> path \<Rightarrow> (msg \<Rightarrow> exn) \<Rightarrow> (string, string) dict \<Rightarrow>
      unit io" where
  "wait_for_port h pid addr timeout_s label artifact_path error_cls extras =
    iobnd (lift (split_addr addr)) (\<lambda>(a, port).
    iobnd (monotonic h) (\<lambda>now.
    wait_loop h pid a port (fadd now timeout_s)
      (iobnd (drain_process_output h pid) (\<lambda>(so, se).
       iobnd (returncode pid) (\<lambda>rc.
       raise_io (error_cls (output_msg (context_line label ''server-startup'' ''server''
         artifact_path (AList.update ''exit'' (rc_text rc) extras)) so se)))))
      (error_cls [Txt (context_line label ''server-startup'' ''server'' artifact_path
         (AList.update ''timeout_s'' (fmt_fixed 1 timeout_s) extras))])))"

text \<open>The keyword arguments of \<open>run_server_client_pair\<close>; the working directory and environment of
  the children travel inside the host.\<close>

record pair_args =
  pa_label :: string
  pa_server_cmd :: "arg list"
  pa_client_cmd :: "arg list"
  pa_server_artifact :: path
  pa_client_artifact :: path
  pa_bind_addr :: string
  pa_target_addr :: string
  pa_server_start_timeout :: pyfloat
  pa_client_timeout :: pyfloat
  pa_server_flush_timeout :: pyfloat
  pa_error_cls :: "msg \<Rightarrow> exn"
  pa_context :: "(string, string) dict"
  pa_cleanup_phase :: string

text \<open>The body of the \<open>try\<close> after the server process exists.\<close>

definition pair_body :: "host \<Rightarrow> pair_args \<Rightarrow> nat \<Rightarrow> unit io" where
  "pair_body h p server =
    (let line = (\<lambda>phase role art k v. context_line (pa_label p) phase role art
                   (AList.update k v (pa_context p))) in
    iobnd (wait_for_port h server (pa_bind_addr p) (pa_server_start_timeout p) (pa_label p)
             (pa_server_artifact p) (pa_error_cls p) (pa_context p)) (\<lambda>_.
    iobnd (say [Txt (line ''client-execution'' ''client'' (pa_client_artifact p)
                       ''target'' (pa_target_addr p))]) (\<lambda>_.
    iobnd (run_cmd h (pa_client_cmd p) (pa_client_timeout p)) (\<lambda>(rc, so, se).
    if rc \<noteq> 0 then raise_io (pa_error_cls p (output_msg
        (line ''client-execution'' ''client'' (pa_client_artifact p) ''exit'' (str_int rc)) so se)) else
    iobnd (try_except (wait_proc h server) is_timeout (\<lambda>_. raise_io (pa_error_cls p
        [Txt (line ''server-flush'' ''server'' (pa_server_artifact p)
                ''timeout_s'' (fmt_fixed 1 (pa_server_flush_timeout p)))]))) (\<lambda>_.
    iobnd (returncode server) (\<lambda>code.
    if code \<noteq> Some 0 then
      iobnd (drain_process_output h server) (\<lambda>(so, se).
      raise_io (pa_error_cls p (output_msg
        (line ''server-flush'' ''server'' (pa_server_artifact p) ''exit'' (rc_text code)) so se)))
    else
      say [Txt (line ''server-flush'' ''server'' (pa_server_artifact p) ''verdict'' ''pass'')]))))))"

text \<open>The two directories, the first line and the server process; then the guarded part. A line
  that is printed and a process that fails to start raise no \<open>TimeoutExpired\<close>, so nothing is lost
  by starting the \<open>try\<close> after them, where \<open>server\<close> is known not to be \<open>None\<close>.\<close>

definition pair_start :: "host \<Rightarrow> pair_args \<Rightarrow> nat io" where
  "pair_start h p =
    iobnd (mkdir_p h (path_parent (pa_server_artifact p))) (\<lambda>_.
    iobnd (mkdir_p h (path_parent (pa_client_artifact p))) (\<lambda>_.
    iobnd (say [Txt (context_line (pa_label p) ''server-startup'' ''server'' (pa_server_artifact p)
                       (AList.update ''bind'' (pa_bind_addr p) (pa_context p)))]) (\<lambda>_.
    popen h (pa_server_cmd p))))"

definition pair_timeout :: "pair_args \<Rightarrow> exn" where
  "pair_timeout p = pa_error_cls p
     [Txt (context_line (pa_label p) ''client-execution'' ''client'' (pa_client_artifact p)
        (AList.update ''timeout_s'' (fmt_fixed 1 (pa_client_timeout p)) (pa_context p)))]"

definition pair_guarded :: "host \<Rightarrow> pair_args \<Rightarrow> nat \<Rightarrow> unit io" where
  "pair_guarded h p server = try_finally
      (try_except (pair_body h p server) is_timeout (\<lambda>_. raise_io (pair_timeout p)))
      (terminate_process h server (pa_label p) (pa_cleanup_phase p) (pa_server_artifact p)
         (pa_context p))"

definition run_server_client_pair :: "host \<Rightarrow> pair_args \<Rightarrow> unit io" where
  "run_server_client_pair h p = iobnd (pair_start h p) (pair_guarded h p)"


section \<open>Stage counters\<close>

definition stage_triplet :: "obj \<Rightarrow> string \<Rightarrow> (int \<times> int \<times> int) res" where
  "stage_triplet report stage_name =
    bnd (item report ''stages'') (\<lambda>stages.
    bnd (subscr stages stage_name) (\<lambda>stage.
    bnd (bnd (get_method stage ''count'' (JInt 0)) py_int) (\<lambda>count.
    bnd (bnd (get_method stage ''nanos'' (JInt 0)) py_int) (\<lambda>nanos.
    bnd (bnd (get_method stage ''bytes'' (JInt 0)) py_int) (\<lambda>bytes.
    Inr (count, nanos, bytes))))))"

text \<open>\<open>all(...)\<close> over a generator stops at the first false element.\<close>

fun all_zero :: "obj \<Rightarrow> string list \<Rightarrow> bool res" where
  "all_zero report [] = Inr True"
| "all_zero report (n # ns) = bnd (stage_triplet report n) (\<lambda>t.
     if t = (0, 0, 0) then all_zero report ns else Inr False)"

definition placeholder_only :: "obj \<Rightarrow> bool res" where
  "placeholder_only report = all_zero report REQUIRED_STAGE_NAMES"


section \<open>Lemmas\<close>

lemma required_str_iff [res_iff]:
  "required_str d key scope c = Inr v \<longleftrightarrow> map_of d key = Some (JStr v) \<and> v \<noteq> []"
  by (auto simp: required_str_def dget_eq_iff [symmetric] split: json.splits)

lemma required_bool_iff [res_iff]:
  "required_bool d key scope c = Inr b \<longleftrightarrow> map_of d key = Some (JBool b)"
  by (auto simp: required_bool_def dget_eq_iff [symmetric] split: json.splits)

lemma required_positive_int_iff [res_iff]:
  "required_positive_int d key scope c = Inr v \<longleftrightarrow> map_of d key = Some v \<and> positive_int v"
proof (cases "map_of d key")
  case None
  then show ?thesis by (simp add: required_positive_int_def dget_def positive_int_def)
next
  case (Some w)
  then show ?thesis by (auto simp: required_positive_int_def)
qed

lemma required_raises [errs]:
  "c (error_cls (scope @ [Txt ('' missing '' @ key)])) \<Longrightarrow> raises c (required_str d key scope error_cls)"
  "c (error_cls (scope @ [Txt ('' field '' @ key @ '' must be a boolean'')])) \<Longrightarrow>
    raises c (required_bool d key scope error_cls)"
  "c (error_cls (scope @ [Txt ('' field '' @ key @ '' must be a positive integer'')])) \<Longrightarrow>
    raises c (required_positive_int d key scope error_cls)"
  unfolding required_str_def required_bool_def required_positive_int_def Let_def
  by (intro errs; simp)+

lemma str_int_no_colon: "CHR '':'' \<notin> set (str_int n)"
proof -
  have "\<not> is_digit (CHR '':'')" by (simp add: is_digit_def)
  then have "CHR '':'' \<notin> set (str_nat m)" for m using str_nat_digits by blast
  then show ?thesis by (simp add: str_int_def)
qed

lemma split_addr_reserved: "split_addr (a @ '':'' @ str_int n) = Inr (a, n)"
proof -
  have "takeWhile (\<lambda>c. c \<noteq> CHR '':'') (rev (str_int n) @ CHR '':'' # rev a) = rev (str_int n)"
    using str_int_no_colon [of n] by (subst takeWhile_append2) auto
  then show ?thesis
    by (simp add: split_addr_def rsplit_colon_def parse_str_int)
qed

text \<open>The waiting loop. Its rule: one step of a loop that has returned.\<close>

lemma wait_loop_induct [consumes 1, case_names expired exited connected again]:
  assumes "wait_loop h pid a port deadline exited expired s = Some (r, t)"
    and "\<And>s. \<not> flt (h_mono h (tick s)) deadline \<Longrightarrow> P s (Inl expired) (ext h Clock s)"
    and "\<And>s u c r t. flt (h_mono h (tick s)) deadline \<Longrightarrow>
           poll h pid (ext h Clock s) = Some (Inr (Some c), u) \<Longrightarrow> exited u = Some (r, t) \<Longrightarrow> P s r t"
    and "\<And>s u. flt (h_mono h (tick s)) deadline \<Longrightarrow>
           poll h pid (ext h Clock s) = Some (Inr None, u) \<Longrightarrow> h_conn h a port (tick u) = 0 \<Longrightarrow>
           P s (Inr ()) (ext h (Connect a port) u)"
    and "\<And>s u r t. flt (h_mono h (tick s)) deadline \<Longrightarrow>
           poll h pid (ext h Clock s) = Some (Inr None, u) \<Longrightarrow> h_conn h a port (tick u) \<noteq> 0 \<Longrightarrow>
           P (ext h Sleep (ext h (Connect a port) u)) r t \<Longrightarrow> P s r t"
  shows "P s r t"
proof -
  define Q where "Q h' pid' a' port' d' ex' ep' s y \<longleftrightarrow>
    (h', pid', a', port', d', ex', ep') = (h, pid, a, port, deadline, exited, expired) \<longrightarrow>
    P s (fst y) (snd y)" for h' pid' a' port' d' ex' ep' s and y :: "unit res \<times> mach"
  have "Q h pid a port deadline exited expired s (r, t)"
  proof (rule wait_loop.raw_induct [OF _ assms(1)])
    fix f h' pid' a' port' d' ex' ep' s y
    assume ih: "\<And>h pid a port d ex ep s y. f h pid a port d ex ep s = Some y \<Longrightarrow>
        Q h pid a port d ex ep s y"
      and step: "iobnd (monotonic h') (\<lambda>now t. if \<not> flt now d' then raise_io ep' t else
      iobnd (poll h' pid') (\<lambda>r u. if r \<noteq> None then ex' u else
      iobnd (connect_ex h' a' port') (\<lambda>c v. if c = 0 then ret () v else
      iobnd (sleep h') (\<lambda>_. f h' pid' a' port' d' ex' ep') v) u) t) s = Some y"
    obtain q u where p: "poll h pid (ext h Clock s) = Some (Inr q, u)"
      by (metis poll_cases call_total(7) totalE)
    have f: "f h pid a port deadline exited expired s = Some (r, t) \<Longrightarrow> P s r t" for s r t
      using ih [of h pid a port deadline exited expired s "(r, t)"] by (simp add: Q_def)
    show "Q h' pid' a' port' d' ex' ep' s y"
      unfolding Q_def
    proof (intro impI)
      assume eq: "(h', pid', a', port', d', ex', ep') = (h, pid, a, port, deadline, exited, expired)"
      obtain r t where y: "y = (r, t)" by (cases y)
      consider "\<not> flt (h_mono h (tick s)) deadline"
        | c where "flt (h_mono h (tick s)) deadline" "q = Some c"
        | "flt (h_mono h (tick s)) deadline" "q = None" "h_conn h a port (tick u) = 0"
        | "flt (h_mono h (tick s)) deadline" "q = None" "h_conn h a port (tick u) \<noteq> 0"
        by blast
      then have "P s r t"
      proof cases
        case 1
        then show ?thesis using step eq y assms(2) [of s]
          by (simp add: iobnd_def monotonic_def raise_io_def)
      next
        case 2
        then show ?thesis using step eq y p assms(3) [of s]
          by (simp add: iobnd_def monotonic_def)
      next
        case 3
        then show ?thesis using step eq y p assms(4) [of s]
          by (simp add: iobnd_def monotonic_def connect_ex_def ret_def)
      next
        case 4
        with step eq y p have "f h pid a port deadline exited expired
            (ext h Sleep (ext h (Connect a port) u)) = Some (r, t)"
          by (simp add: iobnd_def monotonic_def connect_ex_def sleep_def)
        then show ?thesis using 4 p assms(5) f by blast
      qed
      then show "P s (fst y) (snd y)" by (simp add: y)
    qed
  qed
  then show ?thesis by (simp add: Q_def)
qed

lemma later_ext [simp]: "later s (ext h ev s)"
  by (simp add: later_def)

lemma wait_loop_later:
  assumes "wait_loop h pid a port deadline exited expired s = Some (r, t)" and "tame exited"
  shows "later s t"
  using assms(1)
proof (induction rule: wait_loop_induct)
  case (exited s u c r t)
  then show ?case by (meson assms(2) tameD later_ext later_trans proc_tame(1))
next
  case (connected s u)
  then show ?case by (meson later_ext later_trans tameD proc_tame(1))
next
  case (again s u r t)
  then show ?case by (meson later_ext later_trans tameD proc_tame(1))
qed simp

text \<open>A loop that ends normally has just connected.\<close>

lemma wait_loop_connected:
  assumes "wait_loop h pid a port deadline exited expired s = Some (r, t)" and "r = Inr ()"
    and "\<And>u t. exited u \<noteq> Some (Inr (), t)"
  shows "\<exists>n. Suc n = tick t \<and> h_conn h a port n = 0 \<and> last (events t) = Connect a port"
  using assms(1,2)
proof (induction rule: wait_loop_induct)
  case (exited s u c r t)
  then show ?case using assms(3) by blast
qed auto

lemma wait_loop_returns:
  assumes late: "\<forall>n \<ge> N. \<not> flt (h_mono h n) deadline" and ex: "total exited"
  shows "\<exists>r t. wait_loop h pid a port deadline exited expired s = Some (r, t)"
proof (induction "N - tick s" arbitrary: s rule: less_induct)
  case less
  obtain q u where p: "poll h pid (ext h Clock s) = Some (Inr q, u)"
    by (metis poll_cases call_total(7) totalE)
  then have tu: "tick s < tick u"
    using tameD [OF proc_tame(1) p] by (simp add: later_def)
  show ?case
  proof (cases "flt (h_mono h (tick s)) deadline \<and> q = None \<and> h_conn h a port (tick u) \<noteq> 0")
    case True
    then have "N - tick (ext h Sleep (ext h (Connect a port) u)) < N - tick s"
      using late tu by (metis diff_less_mono2 ext_simps(3) le_less_linear less_Suc_eq)
    from less [OF this] show ?thesis using True p
      by (subst wait_loop.simps) (simp add: iobnd_def monotonic_def connect_ex_def sleep_def)
  next
    case False
    obtain r t where "exited u = Some (r, t)" using ex by (rule totalE)
    then show ?thesis using False p
      by (subst wait_loop.simps)
        (auto simp: iobnd_def monotonic_def connect_ex_def raise_io_def ret_def)
  qed
qed

text \<open>The \<open>except ... fail(str(err)); return k\<close> of the commands.\<close>

lemma exit_unless:
  "x \<noteq> k \<Longrightarrow> try_except m c (\<lambda>e. iobnd (fail (g e)) (\<lambda>_. ret k)) s = Some (Inr x, t) \<longleftrightarrow>
    m s = Some (Inr x, t)"
  by (auto simp: try_except_def fail_def complain_def iobnd_def ret_def split: option.splits sum.splits)

lemma drain_calm [calm]: "tame (drain_process_output h pid)" "total (drain_process_output h pid)"
  unfolding drain_process_output_def by (intro calm)+

lemma stop_process_calm [calm]: "tame (stop_process h pid warning)" "total (stop_process h pid warning)"
  unfolding stop_process_def fail_def by (intro calm)+

lemma terminate_process_calm [calm]:
  "tame (terminate_process h pid label phase art extras)"
  "total (terminate_process h pid label phase art extras)"
  unfolding terminate_process_def by (intro calm)+

lemma wait_loop_tame [calm]:
  "tame exited \<Longrightarrow> tame (wait_loop h pid a port deadline exited expired)"
  unfolding tame_def [of "wait_loop h pid a port deadline exited expired"]
  using wait_loop_later by blast

lemma wait_for_port_tame [calm]: "tame (wait_for_port h pid addr d label art cls extras)"
  unfolding wait_for_port_def by (intro calm)

lemma pair_body_tame [calm]: "tame (pair_body h p server)"
  unfolding pair_body_def Let_def by (intro calm)

text \<open>After the cleanup the server's exit has been observed, or it was sent SIGKILL and the second
  wait timed out.\<close>

lemma wait_proc_reaps:
  assumes "iobnd (wait_proc h pid) (\<lambda>_. ret ()) s = Some (r, t)"
  shows "r = Inr () \<and> codes t pid \<noteq> None \<or> r = Inl TimeoutExpired"
  using assms wait_proc_cases [of h pid s] by (cases rule: iobnd_cases) (auto simp: ret_def)

lemma kill_reaps:
  assumes "iobnd (kill h pid) (\<lambda>_. iobnd (wait_proc h pid) (\<lambda>_. ret ())) s = Some (r, t)"
  shows "r = Inr () \<and> codes t pid \<noteq> None \<or>
    r = Inl TimeoutExpired \<and> Sigkill pid \<in> set (events t)"
  using assms
proof (cases rule: iobnd_cases)
  case (1 e)
  then show ?thesis using kill_cases by fastforce
next
  case (2 x u)
  note k = kill_cases [OF 2(1)]
  have l: "later u t" using 2(2) by (rule tameD [rotated]) (intro calm)
  show ?thesis
  proof (cases "codes u pid")
    case None
    then show ?thesis using k l wait_proc_reaps [OF 2(2)] later_event by blast
  next
    case (Some c)
    then show ?thesis using 2(2) by (simp add: iobnd_def wait_proc_def ret_def)
  qed
qed

lemma stop_process_reaps:
  assumes "stop_process h pid warning s = Some (r, t)"
  shows "(r = Inr () \<and> codes t pid \<noteq> None) \<or>
    (r = Inl TimeoutExpired \<and> Sigkill pid \<in> set (events t))"
proof -
  obtain q u where p: "poll h pid s = Some (Inr q, u)" "q = codes u pid"
    by (metis poll_cases call_total(7) totalE)
  show ?thesis
  proof (cases q)
    case (Some c)
    then show ?thesis using p assms by (simp add: stop_process_def iobnd_def ret_def)
  next
    case None
    obtain r1 v where v: "terminate h pid u = Some (r1, v)"
      using signal_total(1) by (rule totalE)
    then have "r1 = Inr ()"
      by (auto simp: terminate_def signal_proc_def iobnd_def poll_def Let_def split: option.splits)
    obtain r2 w where w: "iobnd (wait_proc h pid) (\<lambda>_. ret ()) v = Some (r2, w)"
      using iobnd_total [OF call_total(8) basic_total(1)] by (rule totalE)
    note reap = wait_proc_reaps [OF w]
    show ?thesis
    proof (cases "r2 = Inl TimeoutExpired")
      case False
      then show ?thesis using reap assms p None v \<open>r1 = Inr ()\<close> w
        by (auto simp: stop_process_def iobnd_def [of "poll h pid"]
            iobnd_def [of "terminate h pid"] try_except_def)
    next
      case True
      with assms p None v \<open>r1 = Inr ()\<close> w
      have "iobnd (kill h pid) (\<lambda>_. iobnd (wait_proc h pid) (\<lambda>_. ret ()))
          (w\<lparr>err_log := err_log w @ [warning]\<rparr>) = Some (r, t)"
        by (simp add: stop_process_def iobnd_def [of "poll h pid"]
            iobnd_def [of "terminate h pid"] try_except_def fail_def
            iobnd_def [of "complain m" for m] complain_def)
      then show ?thesis by (rule kill_reaps)
    qed
  qed
qed


lemma pair_start_cases:
  assumes "pair_start h p s = Some (r, t)"
  shows "(\<exists>e. r = Inl (OSError e) \<and> next_pid t = next_pid s) \<or>
    (r = Inr (next_pid s) \<and> next_pid t = Suc (next_pid s) \<and>
     (\<exists>pre. events t = events s @ pre @ [Spawn (next_pid s) (pa_server_cmd p)]))"
  using assms
  by (auto simp: pair_start_def iobnd_def mkdir_p_def say_def popen_def split: option.splits)

lemma pair_guarded_tame [calm]: "tame (pair_guarded h p server)"
  unfolding pair_guarded_def by (intro calm)

lemma wait_for_port_connected:
  assumes "wait_for_port h pid addr d label art cls extras s = Some (Inr (), t)"
  obtains a port n where "split_addr addr = Inr (a, port)" "h_conn h a port n = 0"
    "last (events t) = Connect a port" "Suc n = tick t"
proof -
  from assms obtain a port u exited expired where
    "split_addr addr = Inr (a, port)"
    and "wait_loop h pid a port (fadd (h_mono h (tick s)) d)
      (iobnd (drain_process_output h pid) (\<lambda>(so, se). iobnd (returncode pid) (\<lambda>rc.
         raise_io (exited so se rc)))) expired u = Some (Inr (), t)"
    by (auto simp: wait_for_port_def io_iff monotonic_def)
  moreover have "iobnd (drain_process_output h pid) (\<lambda>(so, se). iobnd (returncode pid) (\<lambda>rc.
         raise_io (exited so se rc))) v \<noteq> Some (Inr (), w)" for exited v w
    by (auto simp: io_iff split: prod.splits)
  ultimately show ?thesis using wait_loop_connected that by blast
qed

lemma pair_body_success:
  assumes "pair_body h p pid s = Some (Inr (), t)"
  obtains a port so se n mid post where "codes t pid = Some 0"
    "split_addr (pa_bind_addr p) = Inr (a, port)" "h_conn h a port n = 0"
    "h_run h (pa_client_cmd p) (Suc n) = Inr (0, so, se)"
    "events t = events s @ mid @ [RunCmd (pa_client_cmd p) (pa_client_timeout p)] @ post"
    "last (events s @ mid) = Connect a port"
proof -
  define flush where "flush = try_except (wait_proc h pid) is_timeout (\<lambda>_. raise_io (pa_error_cls p
        [Txt (context_line (pa_label p) ''server-flush'' ''server'' (pa_server_artifact p)
           (AList.update ''timeout_s'' (fmt_fixed 1 (pa_server_flush_timeout p)) (pa_context p)))]))"
  have tf: "tame flush" unfolding flush_def by (intro calm)
  from assms obtain u l so se w c l' where
    u: "wait_for_port h pid (pa_bind_addr p) (pa_server_start_timeout p) (pa_label p)
             (pa_server_artifact p) (pa_error_cls p) (pa_context p) s = Some (Inr (), u)"
    and run: "h_run h (pa_client_cmd p) (tick u) = Inr (0, so, se)"
    and fl: "flush (ext h (RunCmd (pa_client_cmd p) (pa_client_timeout p))
          (u\<lparr>out_log := out_log u @ [l]\<rparr>)) = Some (Inr c, w)"
    and code: "codes w pid = Some 0" and t: "t = w\<lparr>out_log := out_log w @ [l']\<rparr>"
    unfolding pair_body_def Let_def flush_def [symmetric]
    by (auto simp: io_iff returncode_def run_cmd_def split: if_splits prod.splits)
  obtain a port n where n: "split_addr (pa_bind_addr p) = Inr (a, port)" "h_conn h a port n = 0"
    "last (events u) = Connect a port" "Suc n = tick u"
    using wait_for_port_connected [OF u] .
  obtain mid where mid: "events u = events s @ mid"
    using tameD [OF wait_for_port_tame u] by (auto simp: later_def)
  obtain post where "events w = events u @ [RunCmd (pa_client_cmd p) (pa_client_timeout p)] @ post"
    using tameD [OF tf fl] by (auto simp: later_def)
  with mid have "events t = events s @ mid @ [RunCmd (pa_client_cmd p) (pa_client_timeout p)] @ post"
    by (simp add: t)
  moreover have "codes t pid = Some 0" using code by (simp add: t)
  ultimately show ?thesis using that n run mid by simp
qed

lemma pair_start_total: "total (pair_start h p)"
  unfolding pair_start_def by (intro calm)

lemma wait_for_port_returns:
  assumes "\<exists>N. \<forall>n \<ge> N. \<not> flt (h_mono h n) (fadd (h_mono h (tick s)) d)"
  shows "\<exists>r t. wait_for_port h pid addr d label art cls extras s = Some (r, t)"
proof -
  obtain N where N: "\<forall>n \<ge> N. \<not> flt (h_mono h n) (fadd (h_mono h (tick s)) d)"
    using assms by blast
  have ex: "total (iobnd (drain_process_output h pid) (\<lambda>(so, se). iobnd (returncode pid) (\<lambda>rc.
         raise_io (exited so se rc))))" for exited :: "string \<Rightarrow> string \<Rightarrow> int option \<Rightarrow> exn"
    by (intro calm)
  show ?thesis using wait_loop_returns [OF N ex]
    by (cases "split_addr addr") (auto simp: wait_for_port_def iobnd_def [of "lift r" for r]
        iobnd_def [of "monotonic h"] lift_def monotonic_def)
qed

lemma iobnd_returns:
  "m s = Some (r, t) \<Longrightarrow> (\<And>x. r = Inr x \<Longrightarrow> \<exists>r' t'. f x t = Some (r', t')) \<Longrightarrow>
    \<exists>r' t'. iobnd m f s = Some (r', t')"
  by (cases r) (auto simp: iobnd_def)

lemma try_except_returns:
  "m s = Some (r, t) \<Longrightarrow> \<exists>r' t'. try_except m c (\<lambda>e. raise_io (g e)) s = Some (r', t')"
  by (cases r) (auto simp: try_except_def raise_io_def)

lemma pair_body_returns:
  assumes "\<exists>N. \<forall>n \<ge> N. \<not> flt (h_mono h n) (fadd (h_mono h (tick s)) (pa_server_start_timeout p))"
  shows "\<exists>r t. pair_body h p pid s = Some (r, t)"
proof -
  obtain r t where "wait_for_port h pid (pa_bind_addr p) (pa_server_start_timeout p) (pa_label p)
      (pa_server_artifact p) (pa_error_cls p) (pa_context p) s = Some (r, t)"
    using wait_for_port_returns [OF assms] by blast
  then show ?thesis unfolding pair_body_def Let_def
  proof (rule iobnd_returns)
  qed (rule total_def [THEN iffD1, rule_format], intro calm)
qed


text \<open>Whatever happens before it, a final \<open>stop_process\<close> settles the process.\<close>

lemma guarded_settled:
  assumes "try_finally m (stop_process h pid warning) s = Some (r, t)"
  shows "settled r t pid"
proof -
  obtain v r1 r2 where v: "stop_process h pid warning v = Some (r2, t)"
    and r: "r = (case r2 of Inl e \<Rightarrow> Inl e | Inr _ \<Rightarrow> r1)"
    using assms unfolding try_finally_iff by blast
  then show ?thesis using stop_process_reaps [OF v] by (auto simp: settled_def)
qed

lemma pair_start_effect:
  assumes "pair_start h p s = Some (r, t)"
  shows "(\<exists>e. r = Inl e \<and> later s t) \<or> (r = Inr (next_pid s) \<and> next_pid t = Suc (next_pid s) \<and>
    set (events s) \<subseteq> set (events t) \<and> (\<forall>pid < next_pid s. codes s pid \<noteq> None \<longrightarrow> codes t pid \<noteq> None))"
  using assms
  by (auto simp: pair_start_def iobnd_def mkdir_p_def say_def popen_def later_def
      split: option.splits)

lemma pair_clean [calm]: "clean (run_server_client_pair h p)"
  unfolding run_server_client_pair_def
  by (rule popen_guarded_clean [OF pair_guarded_tame _ pair_start_effect])
    (simp_all add: pair_guarded_def terminate_process_def guarded_settled)


section \<open>An example run\<close>

definition demo_pair :: pair_args where
  "demo_pair = \<lparr>pa_label = ''a'', pa_server_cmd = [lit ''s''], pa_client_cmd = [lit ''c''],
     pa_server_artifact = path_of ''o/s.json'', pa_client_artifact = path_of ''o/c.json'',
     pa_bind_addr = ''h:'' @ str_int 4000, pa_target_addr = ''h:'' @ str_int 4000, pa_server_start_timeout = Fin 10,
     pa_client_timeout = Fin 20, pa_server_flush_timeout = Fin 5, pa_error_cls = RunError,
     pa_context = [], pa_cleanup_phase = ''cleanup''\<rparr>"

lemma demo_deadline: "flt (Fin 0) (fadd (Fin 0) (Fin 10))"
  by code_simp

lemma demo_run: "\<exists>t. run_server_client_pair demo_host demo_pair demo_mach = Some (Inr (), t)"
proof -
  have a: "split_addr (CHR ''h'' # CHR '':'' # str_int 4000) = Inr (''h'', 4000)"
    using split_addr_reserved [of "''h''" 4000] by simp
  note defs = run_server_client_pair_def pair_start_def pair_guarded_def pair_body_def
    wait_for_port_def terminate_process_def stop_process_def wait_loop.simps iobnd_def try_except_def try_finally_def
    mkdir_p_def say_def popen_def monotonic_def poll_def connect_ex_def run_cmd_def wait_proc_def
    returncode_def ret_def lift_def
  show ?thesis
    by (simp add: defs a demo_mach_def demo_pair_def ext_def demo_deadline del: fadd.simps)
qed
section \<open>Properties\<close>

text \<open>C2. Whatever the child processes, the clock and the sockets do, a server/client run that is
  over leaves no server behind: either no process could be started (an \<open>OSError\<close>), or exactly one
  was started and its exit status has been collected, or, if even the wait after SIGKILL timed out,
  the signal was sent and \<open>TimeoutExpired\<close> is raised.\<close>

theorem server_reaped:
  assumes "run_server_client_pair h p s = Some (r, t)"
  shows "((\<exists>e. r = Inl (OSError e)) \<and> next_pid t = next_pid s) \<or>
    (next_pid t = Suc (next_pid s) \<and>
     (codes t (next_pid s) \<noteq> None \<or>
      r = Inl TimeoutExpired \<and> Sigkill (next_pid s) \<in> set (events t)))"
  using assms unfolding run_server_client_pair_def
proof (cases rule: iobnd_cases)
  case (1 e)
  then show ?thesis using pair_start_cases by blast
next
  case (2 pid u)
  then have pid: "pid = next_pid s" "next_pid u = Suc (next_pid s)"
    using pair_start_cases by blast+
  moreover have "next_pid t = next_pid u"
    using tameD [OF pair_guarded_tame 2(2)] by (simp add: later_def)
  moreover have "settled r t pid"
    using 2(2) unfolding pair_guarded_def terminate_process_def by (rule guarded_settled)
  ultimately show ?thesis by (simp add: settled_def)
qed

theorem server_reaped_witness:
  "\<exists>r t. run_server_client_pair demo_host demo_pair demo_mach = Some (r, t) \<and>
    next_pid t = 1 \<and> (codes t 0 \<noteq> None \<or> r = Inl TimeoutExpired \<and> Sigkill 0 \<in> set (events t))"
proof -
  obtain t where t: "run_server_client_pair demo_host demo_pair demo_mach = Some (Inr (), t)"
    using demo_run by blast
  then show ?thesis using server_reaped [OF t] by (simp add: demo_mach_def)
qed

text \<open>C10. A run that ends normally has started the server, connected to the address it was told to
  bind, only then run the client, and both programs have exited with status 0.\<close>

theorem pair_success:
  assumes "run_server_client_pair h p s = Some (Inr (), t)"
  shows "codes t (next_pid s) = Some 0 \<and>
    (\<exists>a port n so se pre mid post. split_addr (pa_bind_addr p) = Inr (a, port) \<and>
       h_conn h a port n = 0 \<and> h_run h (pa_client_cmd p) (Suc n) = Inr (0, so, se) \<and>
       events t = events s @ pre @ [Spawn (next_pid s) (pa_server_cmd p)] @ mid @
         [Connect a port, RunCmd (pa_client_cmd p) (pa_client_timeout p)] @ post)"
proof -
  from assms obtain pid u where u: "pair_start h p s = Some (Inr pid, u)"
    "pair_guarded h p pid u = Some (Inr (), t)"
    by (auto simp: run_server_client_pair_def io_iff)
  obtain pre where pid: "pid = next_pid s"
    and pre: "events u = events s @ pre @ [Spawn (next_pid s) (pa_server_cmd p)]"
    using pair_start_cases [OF u(1)] by blast
  obtain v where v: "pair_body h p pid u = Some (Inr (), v)"
    and fin: "terminate_process h pid (pa_label p) (pa_cleanup_phase p) (pa_server_artifact p)
      (pa_context p) v = Some (Inr (), t)"
    using u(2) unfolding pair_guarded_def try_finally_Inr_iff try_except_raise_iff by blast
  obtain a port so se n mid post where body: "codes v pid = Some 0"
    "split_addr (pa_bind_addr p) = Inr (a, port)" "h_conn h a port n = 0"
    "h_run h (pa_client_cmd p) (Suc n) = Inr (0, so, se)"
    "events v = events u @ mid @ [RunCmd (pa_client_cmd p) (pa_client_timeout p)] @ post"
    "last (events u @ mid) = Connect a port"
    using pair_body_success [OF v] .
  obtain m where mid: "mid = m @ [Connect a port]"
  proof (cases mid rule: rev_cases)
    case Nil
    then show ?thesis using body(6) pre by simp
  next
    case (snoc m ev)
    then show ?thesis using body(6) that by simp
  qed
  have l: "later v t" by (rule tameD [OF terminate_process_calm(1) fin])
  then obtain evs where "events t = events v @ evs" by (auto simp: later_def)
  then have evt: "events t = events s @ pre @ [Spawn (next_pid s) (pa_server_cmd p)] @ m @
      [Connect a port, RunCmd (pa_client_cmd p) (pa_client_timeout p)] @ (post @ evs)"
    using body(5) pre by (simp add: mid)
  have code: "codes t (next_pid s) = Some 0" using later_code [OF l body(1)] pid by simp
  show ?thesis by (intro conjI exI) (rule code body(2-4) evt)+
qed

theorem pair_success_witness:
  "\<exists>t. run_server_client_pair demo_host demo_pair demo_mach = Some (Inr (), t) \<and>
    codes t 0 = Some 0"
proof -
  obtain t where t: "run_server_client_pair demo_host demo_pair demo_mach = Some (Inr (), t)"
    using demo_run by blast
  then show ?thesis using pair_success [OF t] by (simp add: demo_mach_def)
qed

text \<open>C11. A run always comes to an end, provided the monotonic clock at some point stays past the
  start-up deadline: the client, the flush and the cleanup are bounded by their own timeouts, and
  the only loop is the one that waits for the port.\<close>

theorem pair_returns:
  assumes "\<exists>N. \<forall>n \<ge> N. \<not> flt (h_mono h n)
      (fadd (h_mono h (tick s + 3)) (pa_server_start_timeout p))"
  shows "\<exists>r t. run_server_client_pair h p s = Some (r, t)"
proof -
  obtain r u where u: "pair_start h p s = Some (r, u)"
    using pair_start_total by (rule totalE)
  show ?thesis unfolding run_server_client_pair_def
  proof (rule iobnd_returns [of "pair_start h p", OF u])
    fix pid
    assume "r = Inr pid"
    with u have "tick u = tick s + 3"
      by (auto simp: pair_start_def iobnd_def mkdir_p_def say_def popen_def split: option.splits)
    then obtain q v where "pair_body h p pid u = Some (q, v)"
      using assms pair_body_returns [of h u p pid] by auto
    then obtain q' v' where "try_except (pair_body h p pid) is_timeout (\<lambda>_. raise_io (pair_timeout p)) u
         = Some (q', v')"
      using try_except_returns [of "pair_body h p pid" u q v is_timeout "\<lambda>_. pair_timeout p"] by auto
    moreover obtain q2 t where "terminate_process h pid (pa_label p) (pa_cleanup_phase p)
        (pa_server_artifact p) (pa_context p) v' = Some (q2, t)"
      using terminate_process_calm(2) by (rule totalE)
    ultimately show "\<exists>r' t'. pair_guarded h p pid u = Some (r', t')"
      unfolding pair_guarded_def try_finally_iff by blast
  qed
qed

theorem pair_returns_witness:
  "\<exists>r t. run_server_client_pair demo_host demo_pair demo_mach = Some (r, t)"
proof -
  have "\<not> flt (Fin 60) (fadd (Fin 0) (Fin 10))" by code_simp
  then have "\<forall>n \<ge> 10. \<not> flt (h_mono demo_host n)
      (fadd (h_mono demo_host (tick demo_mach + 3)) (pa_server_start_timeout demo_pair))"
    by (simp add: demo_mach_def demo_pair_def del: fadd.simps)
  then show ?thesis using pair_returns [of demo_host demo_mach demo_pair] by blast
qed

end
