(* ===== verification/WorkloadSpec.thy ===== *)
theory WorkloadSpec
  imports RunnerCommon
begin

text \<open>
  What the three runners (S01, S02, S03) promise of a manifest they have loaded. A workload is
  \<open>rpc_ready\<close> when every field its command line is built from is present and well typed. The loop
  over \<open>manifest["workloads"]\<close> is \<open>check_entries\<close>; the locale \<open>workload_checker\<close> is the contract of
  a \<open>validate_workload\<close> function, and the facts about whole manifests are proved once inside it.
\<close>

section \<open>Well-formed workloads\<close>

definition str_field :: "obj \<Rightarrow> string \<Rightarrow> bool" where
  "str_field m k = nonempty_str (dget m k)"

definition posint_field :: "obj \<Rightarrow> string \<Rightarrow> bool" where
  "posint_field m k = positive_int (dget m k)"

definition nonneg_field :: "obj \<Rightarrow> string \<Rightarrow> bool" where
  "nonneg_field m k = nonneg_int (dget m k)"

definition shape_ready :: "obj \<Rightarrow> bool" where
  "shape_ready m \<longleftrightarrow>
     (dget m ''rpc'' = JStr ''unary-bytes'' \<and> posint_field m ''payload_size'' \<and>
        str_field m ''payload_kind'') \<or>
     (dget m ''rpc'' = JStr ''unary-proto-shape'' \<and> str_field m ''proto_shape'' \<and>
        str_field m ''response_shape'')"

definition rpc_ready :: "obj \<Rightarrow> bool" where
  "rpc_ready m \<longleftrightarrow> nonneg_field m ''warmup_ms'' \<and>
     list_all (posint_field m) [''measure_ms'', ''requests'', ''concurrency''] \<and>
     list_all (str_field m) [''runtime'', ''compression'', ''buffer_policy''] \<and> shape_ready m"

definition label_of :: "obj \<Rightarrow> string" where
  "label_of m = (case dget m ''label'' of JStr l \<Rightarrow> l | _ \<Rightarrow> [])"

definition text_of :: "obj \<Rightarrow> string \<Rightarrow> string" where
  "text_of m k = (case dget m k of JStr t \<Rightarrow> t | _ \<Rightarrow> [])"

text \<open>A field that is itself a dictionary.\<close>

definition obj_field :: "obj \<Rightarrow> string \<Rightarrow> bool" where
  "obj_field m k = is_obj (dget m k)"

definition sub :: "obj \<Rightarrow> string \<Rightarrow> obj" where
  "sub m k = (case dget m k of JObj d \<Rightarrow> d | _ \<Rightarrow> [])"

text \<open>The value that follows an option on a command line.\<close>

fun option_value :: "string \<Rightarrow> arg list \<Rightarrow> arg option" where
  "option_value k (a # b # r) = (if a = lit k then Some b else option_value k r)"
| "option_value k _ = None"


section \<open>Well-formed reports\<close>

text \<open>Parts of what the runners demand of a report: a stage has all its counters, and the request
  recorded in the metadata is the one of the workload.\<close>

definition stage_ok :: "obj \<Rightarrow> string \<Rightarrow> bool" where
  "stage_ok stages n \<longleftrightarrow> obj_field stages n \<and> list_all (has_key (sub stages n)) REQUIRED_STAGE_COUNTER_FIELDS"

definition fields_match :: "obj \<Rightarrow> (string \<times> json) list \<Rightarrow> bool" where
  "fields_match metadata = list_all (\<lambda>(k, v). dget metadata k = v)"

definition payload_matches :: "obj \<Rightarrow> obj \<Rightarrow> json \<Rightarrow> bool" where
  "payload_matches entry metadata response_shape \<longleftrightarrow>
     (if dget entry ''rpc'' = JStr ''unary-bytes''
      then py_eq (dget metadata ''payload_size'') (dget entry ''payload_size'') \<and>
           dget metadata ''payload_kind'' = dget entry ''payload_kind''
      else dget metadata ''request_shape'' = dget entry ''proto_shape'' \<and>
           dget metadata ''response_shape'' = response_shape)"


section \<open>The loop over the workloads\<close>

fun check_entries ::
    "(nat \<Rightarrow> json \<Rightarrow> string set \<Rightarrow> (obj \<times> string set) res) \<Rightarrow> nat \<Rightarrow> string set \<Rightarrow> json list \<Rightarrow>
      (obj list \<times> string set) res" where
  "check_entries validate index seen [] = Inr ([], seen)"
| "check_entries validate index seen (entry # entries) =
    bnd (validate index entry seen) (\<lambda>(m, seen').
    bnd (check_entries validate (Suc index) seen' entries) (\<lambda>(ms, seen'').
    Inr (m # ms, seen'')))"

locale workload_checker =
  fixes validate :: "nat \<Rightarrow> json \<Rightarrow> string set \<Rightarrow> (obj \<times> string set) res"
    and good :: "obj \<Rightarrow> bool"
  assumes accepts: "validate i v seen = Inr (m, seen') \<Longrightarrow>
      \<exists>l. map_of m ''label'' = Some (JStr l) \<and> l \<notin> seen \<and> seen' = insert l seen \<and> good m"
    and rejects: "raises is_manifest_error (validate i v seen)"
begin

lemma entries_accepted:
  assumes "check_entries validate i seen vs = Inr (ms, seen')"
  shows "length ms = length vs" "distinct (map label_of ms)" "set (map label_of ms) \<inter> seen = {}"
    "seen' = seen \<union> set (map label_of ms)" "\<forall>m \<in> set ms. good m"
proof -
  have "length ms = length vs \<and> distinct (map label_of ms) \<and> set (map label_of ms) \<inter> seen = {} \<and>
    seen' = seen \<union> set (map label_of ms) \<and> (\<forall>m \<in> set ms. good m)"
    using assms
  proof (induction vs arbitrary: i seen ms)
    case (Cons v vs)
    then obtain m seen1 ns where v: "validate i v seen = Inr (m, seen1)"
      and vs: "check_entries validate (Suc i) seen1 vs = Inr (ns, seen')" and ms: "ms = m # ns"
      by (auto simp: res_iff)
    obtain l where "map_of m ''label'' = Some (JStr l)" "l \<notin> seen" "seen1 = insert l seen" "good m"
      using accepts [OF v] by blast
    moreover from this have "label_of m = l" by (simp add: label_of_def)
    ultimately show ?case using Cons.IH [OF vs] by (auto simp: ms)
  qed simp
  then show "length ms = length vs" "distinct (map label_of ms)" "set (map label_of ms) \<inter> seen = {}"
    "seen' = seen \<union> set (map label_of ms)" "\<forall>m \<in> set ms. good m" by blast+
qed

lemma entries_rejected: "raises is_manifest_error (check_entries validate i seen vs)"
  by (induction vs arbitrary: i seen) (auto intro!: errs rejects)

text \<open>A manifest is refused as soon as two entries carry the same label.\<close>

lemma entries_labels_inj:
  assumes "check_entries validate i {} vs = Inr (ms, seen')" "m \<in> set ms" "m' \<in> set ms"
    "label_of m = label_of m'"
  shows "m = m'"
  using entries_accepted(2) [OF assms(1)] assms(2-4) by (metis distinct_map inj_onD)

end


section \<open>Lemmas on fields and commands\<close>

lemma str_field_iff: "str_field m k \<longleftrightarrow> (\<exists>v. map_of m k = Some (JStr v) \<and> v \<noteq> [])"
  by (auto simp: str_field_def nonempty_str_iff dget_eq_iff)

lemma str_field_text: "str_field m k \<longleftrightarrow> map_of m k = Some (JStr (text_of m k)) \<and> text_of m k \<noteq> []"
  by (auto simp: str_field_iff text_of_def)

lemma obj_field_iff: "obj_field m k \<longleftrightarrow> (\<exists>d. map_of m k = Some (JObj d))"
  by (auto simp: obj_field_def is_obj_iff dget_eq_iff)

lemma sub_JObj [simp]: "map_of m k = Some (JObj d) \<Longrightarrow> sub m k = d"
  by (simp add: sub_def)

lemma posint_field_iff: "posint_field m k \<longleftrightarrow> (\<exists>v. map_of m k = Some v \<and> positive_int v)"
  by (auto simp: posint_field_def dget_def positive_int_def split: option.splits)

lemma nonneg_field_iff: "nonneg_field m k \<longleftrightarrow> (\<exists>v. map_of m k = Some v \<and> nonneg_int v)"
  by (auto simp: nonneg_field_def dget_def nonneg_int_def split: option.splits)

lemma posint_nonneg_field: "posint_field m k \<Longrightarrow> nonneg_field m k"
  by (auto simp: posint_field_iff nonneg_field_iff positive_nonneg_int)

lemma posint_text: "positive_int v \<Longrightarrow> arg_text (StrOf v) \<noteq> None"
  by (auto simp: positive_int_iff)

lemma nonneg_text: "nonneg_int v \<Longrightarrow> arg_text (StrOf v) \<noteq> None"
  by (auto simp: nonneg_int_iff)

lemma shape_ready_rpc: "shape_ready m \<Longrightarrow>
    dget m ''rpc'' = JStr ''unary-bytes'' \<or> dget m ''rpc'' = JStr ''unary-proto-shape''"
  by (auto simp: shape_ready_def)

text \<open>The command line of a ready workload, written out.\<close>

definition ready_args :: "obj \<Rightarrow> string \<Rightarrow> arg list" where
  "ready_args m addr =
    [lit ''--rpc'', Val (dget m ''rpc''), lit ''--bind'', lit addr, lit ''--target'', lit addr,
     lit ''--warmup-ms'', StrOf (dget m ''warmup_ms''),
     lit ''--measure-ms'', StrOf (dget m ''measure_ms''),
     lit ''--requests'', StrOf (dget m ''requests''),
     lit ''--concurrency'', StrOf (dget m ''concurrency''),
     lit ''--runtime'', Val (dget m ''runtime''), lit ''--compression'', Val (dget m ''compression''),
     lit ''--buffer-policy'', Val (dget m ''buffer_policy'')] @
    (if dget m ''rpc'' = JStr ''unary-bytes''
     then [lit ''--payload-size'', StrOf (dget m ''payload_size''),
           lit ''--payload-kind'', Val (dget m ''payload_kind'')]
     else [lit ''--proto-shape'', Val (dget m ''proto_shape''),
           lit ''--response-shape'', Val (dget m ''response_shape'')])"

lemma item_field:
  "str_field m k \<Longrightarrow> item m k = Inr (dget m k)" "posint_field m k \<Longrightarrow> item m k = Inr (dget m k)"
  "nonneg_field m k \<Longrightarrow> item m k = Inr (dget m k)"
  by (auto simp: str_field_iff posint_field_iff nonneg_field_iff item_def)

lemma build_rpc_args_ready: "rpc_ready m \<Longrightarrow> build_rpc_args m addr = Inr (ready_args m addr)"
proof -
  assume r: "rpc_ready m"
  then have rpc: "item m ''rpc'' = Inr (dget m ''rpc'')"
    by (auto simp: rpc_ready_def shape_ready_def item_def dget_eq_iff)
  show ?thesis using r
    by (auto simp: rpc_ready_def shape_ready_def build_rpc_args_def ready_args_def rpc item_field)
qed

lemma option_value_append:
  "even (length xs) \<Longrightarrow> option_value k (xs @ ys) =
    (case option_value k xs of Some v \<Rightarrow> Some v | None \<Rightarrow> option_value k ys)"
  by (induction k xs rule: option_value.induct) auto

lemma even_ready_args [simp]: "even (length (ready_args m addr))"
  by (simp add: ready_args_def)

text \<open>The options of \<^const>\<open>ready_args\<close>, and some that the runners add themselves.\<close>

lemma ready_args_options:
  "option_value ''--bind'' (ready_args m addr) = Some (lit addr)"
  "option_value ''--target'' (ready_args m addr) = Some (lit addr)"
  "option_value ''--requests'' (ready_args m addr) = Some (StrOf (dget m ''requests''))"
  "option_value ''--run-id'' (ready_args m addr) = None"
  "option_value ''--shutdown-after-requests'' (ready_args m addr) = None"
  "option_value ''--json-out'' (ready_args m addr) = None"
  "option_value ''--server-json-out'' (ready_args m addr) = None"
  "option_value ''--instrumentation'' (ready_args m addr) = None"
  "option_value ''--accelerated-path'' (ready_args m addr) = None"
  "option_value ''--accelerator-device'' (ready_args m addr) = None"
  by (simp_all add: ready_args_def)

text \<open>The command line of a validated workload is built without an exception, whichever of the
  three runners accepted it; every element has a definite text, the server binds and the client
  targets the reserved address, and every option carries the manifest's own value.\<close>

theorem rpc_args_complete:
  assumes "rpc_ready m"
  shows "\<exists>args. build_rpc_args m addr = Inr args \<and> (\<forall>a \<in> set args. arg_text a \<noteq> None) \<and>
    option_value ''--bind'' args = Some (lit addr) \<and> option_value ''--target'' args = Some (lit addr) \<and>
    option_value ''--rpc'' args = Some (Val (dget m ''rpc'')) \<and>
    option_value ''--warmup-ms'' args = Some (StrOf (dget m ''warmup_ms'')) \<and>
    option_value ''--measure-ms'' args = Some (StrOf (dget m ''measure_ms'')) \<and>
    option_value ''--requests'' args = Some (StrOf (dget m ''requests'')) \<and>
    option_value ''--concurrency'' args = Some (StrOf (dget m ''concurrency'')) \<and>
    option_value ''--buffer-policy'' args = Some (Val (dget m ''buffer_policy'')) \<and>
    (dget m ''rpc'' = JStr ''unary-bytes'' \<longrightarrow>
       option_value ''--payload-size'' args = Some (StrOf (dget m ''payload_size'')) \<and>
       option_value ''--proto-shape'' args = None) \<and>
    (dget m ''rpc'' \<noteq> JStr ''unary-bytes'' \<longrightarrow>
       option_value ''--proto-shape'' args = Some (Val (dget m ''proto_shape'')) \<and>
       option_value ''--payload-size'' args = None)"
proof -
  have str: "str_field m k \<Longrightarrow> arg_text (Val (dget m k)) \<noteq> None" for k
    by (auto simp: str_field_iff)
  have num: "posint_field m k \<or> nonneg_field m k \<Longrightarrow> arg_text (StrOf (dget m k)) \<noteq> None" for k
    using posint_text nonneg_text by (auto simp: posint_field_def nonneg_field_def)
  have rpc: "arg_text (Val (dget m ''rpc'')) \<noteq> None"
    using assms by (auto simp: rpc_ready_def dest: shape_ready_rpc)
  have f: "nonneg_field m ''warmup_ms''" "posint_field m ''measure_ms''" "posint_field m ''requests''"
    "posint_field m ''concurrency''" "str_field m ''runtime''" "str_field m ''compression''"
    "str_field m ''buffer_policy''" and sh: "shape_ready m"
    using assms by (simp_all add: rpc_ready_def)
  have "\<forall>a \<in> set (ready_args m addr). arg_text a \<noteq> None"
  proof (cases "dget m ''rpc'' = JStr ''unary-bytes''")
    case True
    with sh have "posint_field m ''payload_size''" "str_field m ''payload_kind''"
      by (simp_all add: shape_ready_def)
    with True f str num rpc show ?thesis by (simp add: ready_args_def)
  next
    case False
    with sh have "str_field m ''proto_shape''" "str_field m ''response_shape''"
      by (simp_all add: shape_ready_def)
    with False f str num rpc show ?thesis by (simp add: ready_args_def)
  qed
  then show ?thesis using build_rpc_args_ready [OF assms]
    by (intro exI [of _ "ready_args m addr"]) (simp add: ready_args_def)
qed

definition demo_workload :: obj where
  "demo_workload = [(''label'', JStr ''a''), (''rpc'', JStr ''unary-bytes''),
     (''warmup_ms'', JInt 0), (''measure_ms'', JInt 10), (''requests'', JInt 5),
     (''concurrency'', JInt 1), (''runtime'', JStr ''single''), (''compression'', JStr ''off''),
     (''buffer_policy'', JStr ''default''), (''payload_size'', JInt 64),
     (''payload_kind'', JStr ''repeated'')]"

theorem rpc_args_complete_witness:
  "rpc_ready demo_workload \<and> (\<exists>args. build_rpc_args demo_workload ''h:1'' = Inr args \<and>
     option_value ''--requests'' args = Some (StrOf (JInt 5)))"
proof -
  have r: "rpc_ready demo_workload" by code_simp
  have d: "dget demo_workload ''requests'' = JInt 5" by code_simp
  show ?thesis using rpc_args_complete [OF r, of "''h:1''"] r d by auto
qed

end
