(* ===== verification/S01_Workloads.thy ===== *)
theory S01_Workloads
  imports WorkloadSpec
begin

text \<open>
  The S01 runner (accel-rpc/tonic-profile/scripts/run_s01_workloads.py): loading and checking the
  manifest, running each workload with instrumentation off and on, and checking the client reports.
\<close>

section \<open>The manifest\<close>

record s01_manifest =
  s01_version :: json
  s01_defaults :: obj
  s01_workloads :: "obj list"

definition s01_required_str :: "obj \<Rightarrow> nat \<Rightarrow> string \<Rightarrow> msg option \<Rightarrow> string res" where
  "s01_required_str d index key scope = (let
      label = (case scope of Some m \<Rightarrow> m | None \<Rightarrow> [Txt (''workloads['' @ str_nat index @ '']'')]) in
    case dget d key of
      JStr v \<Rightarrow> (if v = [] then Inl (ManifestError (label @ [Txt ('' missing '' @ key)])) else Inr v)
    | _ \<Rightarrow> Inl (ManifestError (label @ [Txt ('' missing '' @ key)])))"

text \<open>\<open>merged = dict(defaults); merged.update(entry); merged[...] = ...\<close>\<close>

definition s01_merged :: "obj \<Rightarrow> obj \<Rightarrow> string \<Rightarrow> string \<Rightarrow> string \<Rightarrow> string \<Rightarrow> obj" where
  "s01_merged defaults entry label rpc off on =
    AList.update ''artifact_pair'' (JObj [(''off'', JStr off), (''on'', JStr on)])
    (AList.update ''rpc'' (JStr rpc)
    (AList.update ''label'' (JStr label) (dict_update defaults entry)))"

text \<open>The error \<open>workloads[i] label='...' ...\<close> and the two field checks of the loops.\<close>

definition s01_bad :: "nat \<Rightarrow> string \<Rightarrow> string \<Rightarrow> exn" where
  "s01_bad index label t =
    ManifestError [Txt (''workloads['' @ str_nat index @ ''] label=''), Rep (JStr label), Txt t]"

definition s01_check_int :: "nat \<Rightarrow> string \<Rightarrow> obj \<Rightarrow> string \<Rightarrow> unit res" where
  "s01_check_int index label merged field = (case map_of merged field of
       None \<Rightarrow> Inl (s01_bad index label ('' missing '' @ field))
     | Some x \<Rightarrow> if positive_int x then Inr ()
         else Inl (s01_bad index label ('' field '' @ field @ '' must be a positive integer'')))"

definition s01_check_str :: "nat \<Rightarrow> string \<Rightarrow> obj \<Rightarrow> string \<Rightarrow> unit res" where
  "s01_check_str index label merged field = (case map_of merged field of
       None \<Rightarrow> Inl (s01_bad index label ('' missing '' @ field))
     | Some x \<Rightarrow> if nonempty_str x then Inr ()
         else Inl (s01_bad index label ('' field '' @ field @ '' must be a non-empty string'')))"

definition s01_check_rpc :: "nat \<Rightarrow> string \<Rightarrow> string \<Rightarrow> obj \<Rightarrow> unit res" where
  "s01_check_rpc index label rpc merged =
    (let bad = (\<lambda>t. Inl (s01_bad index label t)) in
     if rpc = ''unary-bytes'' then
       (if \<not> has_key merged ''payload_size'' then bad '' missing payload_size for rpc unary-bytes''
        else if \<not> has_key merged ''payload_kind'' then bad '' missing payload_kind for rpc unary-bytes''
        else bnd (s01_check_int index label merged ''payload_size'') (\<lambda>_.
             s01_check_str index label merged ''payload_kind''))
     else if rpc = ''unary-proto-shape'' then
       (if \<not> has_key merged ''proto_shape'' then bad '' missing proto_shape for rpc unary-proto-shape''
        else if \<not> has_key merged ''response_shape'' then
          bad '' missing response_shape for rpc unary-proto-shape''
        else bnd (s01_check_str index label merged ''proto_shape'') (\<lambda>_.
             s01_check_str index label merged ''response_shape''))
     else Inl (ManifestError [Txt (''workloads['' @ str_nat index @ ''] label=''), Rep (JStr label),
            Txt '' has unsupported rpc mode '', Rep (JStr rpc)]))"

definition s01_validate_workload ::
    "nat \<Rightarrow> json \<Rightarrow> obj \<Rightarrow> string set \<Rightarrow> (obj \<times> string set) res" where
  "s01_validate_workload index v defaults seen_labels = (case v of
     JObj entry \<Rightarrow>
      (let pair_scope = Some [Txt (''workloads['' @ str_nat index @ ''].artifact_pair'')] in
      bnd (s01_required_str entry index ''label'' None) (\<lambda>label.
      if label \<in> seen_labels then Inl (s01_bad index label '' is duplicated'') else
      bnd (s01_required_str entry index ''rpc'' None) (\<lambda>rpc.
      case dget entry ''artifact_pair'' of
        JObj pair \<Rightarrow>
         (bnd (s01_required_str pair index ''off'' pair_scope) (\<lambda>artifact_off.
          bnd (s01_required_str pair index ''on'' pair_scope) (\<lambda>artifact_on.
          let merged = s01_merged defaults entry label rpc artifact_off artifact_on in
          bnd (each (s01_check_int index label merged)
                 [''warmup_ms'', ''measure_ms'', ''requests'', ''concurrency'']) (\<lambda>_.
          bnd (each (s01_check_str index label merged)
                 [''runtime'', ''compression'', ''buffer_policy'']) (\<lambda>_.
          bnd (s01_check_rpc index label rpc merged) (\<lambda>_.
          Inr (merged, insert label seen_labels)))))))
      | _ \<Rightarrow> Inl (s01_bad index label '' missing artifact_pair object''))))
   | _ \<Rightarrow> Inl (ManifestError [Txt (''workloads['' @ str_nat index @ ''] must be an object'')]))"

definition s01_load_manifest :: "world \<Rightarrow> path \<Rightarrow> s01_manifest res" where
  "s01_load_manifest w p =
    bnd (except_as (fs_read w p) os_error_text (\<lambda>err.
           ManifestError [Txt (''manifest read failed ('' @ path_str p @ ''): '' @ err)])) (\<lambda>raw.
    bnd (except_as (json_loads w raw) json_error_text (\<lambda>err.
           ManifestError [Txt (''manifest parse failed ('' @ path_str p @ ''): '' @ err)])) (\<lambda>root.
    case root of
      JObj manifest \<Rightarrow>
        (case (case map_of manifest ''defaults'' of None \<Rightarrow> JObj [] | Some JNull \<Rightarrow> JObj []
               | Some v \<Rightarrow> v) of
           JObj defaults \<Rightarrow>
            (case dget manifest ''workloads'' of
               JArr workloads \<Rightarrow>
                 (if workloads = [] then
                    Inl (ManifestError [Txt ''manifest.workloads must be a non-empty array''])
                  else
                    bnd (check_entries (\<lambda>i v. s01_validate_workload i v defaults) 0 {} workloads)
                      (\<lambda>(validated, seen_labels).
                    Inr \<lparr>s01_version = dget manifest ''version'', s01_defaults = defaults,
                         s01_workloads = validated\<rparr>))
             | _ \<Rightarrow> Inl (ManifestError [Txt ''manifest.workloads must be a non-empty array'']))
         | _ \<Rightarrow> Inl (ManifestError [Txt ''manifest.defaults must be an object'']))
    | _ \<Rightarrow> Inl (ManifestError [Txt ''manifest root must be an object''])))"


section \<open>Running the workloads\<close>

definition s01_locate_binary :: "world \<Rightarrow> string option \<Rightarrow> path res" where
  "s01_locate_binary w explicit =
    (let p = (case explicit of
                Some e \<Rightarrow> if e = [] then path_of ''accel-rpc/target/release/tonic-profile''
                          else path_of e
              | None \<Rightarrow> path_of ''accel-rpc/target/release/tonic-profile'') in
     if \<not> fs_exists w p then
       Inl (RunError [Txt (''tonic-profile binary not found at '' @ path_str p @
         ''; build it first with cargo build --release -p tonic-profile --manifest-path accel-rpc/Cargo.toml'')])
     else Inr (fs_resolve w p))"

definition s01_reserve_addr :: "host \<Rightarrow> string io" where
  "s01_reserve_addr h s = (case h_addr h (tick s) of (a, port) \<Rightarrow>
     Some (Inr (a @ '':'' @ str_int port), ext h Bind s))"

partial_function (option) s01_wait_loop ::
    "host \<Rightarrow> string \<Rightarrow> int \<Rightarrow> pyfloat \<Rightarrow> exn \<Rightarrow> mach \<Rightarrow> (unit res \<times> mach) option"
where
  "s01_wait_loop h a port deadline expired s =
    iobnd (monotonic h) (\<lambda>now t. if \<not> flt now deadline then raise_io expired t else
    iobnd (connect_ex h a port) (\<lambda>c u. if c = 0 then ret () u else
    iobnd (sleep h) (\<lambda>_ v. s01_wait_loop h a port deadline expired v) u) t) s"

definition s01_wait_for_port :: "host \<Rightarrow> string \<Rightarrow> pyfloat \<Rightarrow> unit io" where
  "s01_wait_for_port h addr timeout_s =
    iobnd (lift (split_addr addr)) (\<lambda>(a, port).
    iobnd (monotonic h) (\<lambda>now.
    s01_wait_loop h a port (fadd now timeout_s)
      (RunError [Txt (''server startup timeout after '' @ fmt_fixed 1 timeout_s @ ''s for '' @ addr)])))"

definition s01_terminate_process :: "host \<Rightarrow> nat \<Rightarrow> msg \<Rightarrow> msg \<Rightarrow> unit io" where
  "s01_terminate_process h pid label phase = stop_process h pid
     ([Txt ''label=''] @ label @ [Txt '' phase=''] @ phase @
      [Txt '' process did not exit after SIGTERM; sending SIGKILL''])"

definition s01_build_common_args :: "obj \<Rightarrow> string \<Rightarrow> arg list res" where
  "s01_build_common_args entry addr =
    bnd (item entry ''rpc'') (\<lambda>rpc.
    bnd (item entry ''warmup_ms'') (\<lambda>warmup_ms.
    bnd (item entry ''measure_ms'') (\<lambda>measure_ms.
    bnd (item entry ''requests'') (\<lambda>requests.
    bnd (item entry ''concurrency'') (\<lambda>concurrency.
    bnd (item entry ''runtime'') (\<lambda>runtime.
    bnd (item entry ''compression'') (\<lambda>compression.
    bnd (item entry ''buffer_policy'') (\<lambda>buffer_policy.
    let args = [lit ''--rpc'', Val rpc, lit ''--bind'', lit addr, lit ''--target'', lit addr,
                lit ''--warmup-ms'', StrOf warmup_ms, lit ''--measure-ms'', StrOf measure_ms,
                lit ''--requests'', StrOf requests, lit ''--concurrency'', StrOf concurrency,
                lit ''--runtime'', Val runtime, lit ''--compression'', Val compression,
                lit ''--buffer-policy'', Val buffer_policy] in
    if rpc = JStr ''unary-bytes'' then
      bnd (item entry ''payload_size'') (\<lambda>payload_size.
      bnd (item entry ''payload_kind'') (\<lambda>payload_kind.
      Inr (args @ [lit ''--payload-size'', StrOf payload_size,
                   lit ''--payload-kind'', Val payload_kind])))
    else
      bnd (item entry ''proto_shape'') (\<lambda>proto_shape.
      bnd (item entry ''response_shape'') (\<lambda>response_shape.
      Inr (args @ [lit ''--proto-shape'', Val proto_shape,
                   lit ''--response-shape'', Val response_shape])))))))))))"

text \<open>\<open>except\<close> clauses of the run: a timeout is the client's, a \<open>RunError\<close> passes, anything else is
  reported as a start-up failure. The arguments are the f-string's \<open>{label}\<close> and \<open>{mode}\<close>.\<close>

definition s01_run_failure :: "frag \<Rightarrow> string \<Rightarrow> pyfloat \<Rightarrow> exn \<Rightarrow> exn" where
  "s01_run_failure label mode client_timeout err = (case err of
       TimeoutExpired \<Rightarrow> RunError [Txt ''label='', label, Txt ('' phase=client-execution instrumentation=''
         @ mode @ '' timeout after '' @ fmt_fixed 1 client_timeout @ ''s'')]
     | RunError m \<Rightarrow> RunError m
     | _ \<Rightarrow> RunError ([Txt ''label='', label, Txt ('' phase=server-startup instrumentation='' @ mode @ '' '')]
             @ exn_msg err))"

definition s01_run_body ::
    "host \<Rightarrow> arg list \<Rightarrow> frag \<Rightarrow> string \<Rightarrow> string \<Rightarrow> path \<Rightarrow> path \<Rightarrow> pyfloat \<Rightarrow> pyfloat \<Rightarrow> unit io" where
  "s01_run_body h common_args label mode addr binary artifact_path server_start_timeout client_timeout =
    iobnd (s01_wait_for_port h addr server_start_timeout) (\<lambda>_.
    iobnd (say [Txt ''label='', label, Txt ('' phase=client-execution instrumentation='' @ mode @
             '' artifact='' @ path_str artifact_path)]) (\<lambda>_.
    iobnd (run_cmd h ([lit (path_str binary), lit ''--mode'', lit ''client'', lit ''--instrumentation'',
             lit mode] @ common_args @ [lit ''--json-out'', lit (path_str artifact_path)])
             client_timeout) (\<lambda>(rc, so, se).
    if rc \<noteq> 0 then raise_io (RunError [Txt ''label='', label,
      Txt (joined [CHR 0x0A] ['' phase=client-execution instrumentation='' @ mode @ '' exit='' @ str_int rc,
        ''artifact='' @ path_str artifact_path, ''stdout:'' @ [CHR 0x0A] @ so,
        ''stderr:'' @ [CHR 0x0A] @ se])])
    else ret ())))"

definition s01_run_one ::
    "host \<Rightarrow> path \<Rightarrow> path \<Rightarrow> pyfloat \<Rightarrow> pyfloat \<Rightarrow> obj \<Rightarrow> string \<Rightarrow> unit io" where
  "s01_run_one h binary output_dir server_start_timeout client_timeout entry mode =
    iobnd (lift (item entry ''label'')) (\<lambda>label_value. let label = str_frag label_value in
    iobnd (s01_reserve_addr h) (\<lambda>addr.
    iobnd (lift (s01_build_common_args entry addr)) (\<lambda>common_args.
    iobnd (lift (bnd (item entry ''artifact_pair'') (\<lambda>pair. bnd (subscr pair mode) as_str)))
      (\<lambda>artifact_name.
    let artifact_path = path_div output_dir artifact_name;
        failure = s01_run_failure label mode client_timeout in
    iobnd (try_except
      (iobnd (say [Txt ''label='', label, Txt ('' phase=server-startup instrumentation='' @ mode @
                '' bind='' @ addr @ '' binary='' @ path_str binary)]) (\<lambda>_.
       popen h ([lit (path_str binary), lit ''--mode'', lit ''server'', lit ''--instrumentation'',
                 lit mode] @ common_args))) (\<lambda>_. True) (\<lambda>err. raise_io (failure err))) (\<lambda>server.
    try_finally
      (try_except (s01_run_body h common_args label mode addr binary artifact_path
         server_start_timeout client_timeout) (\<lambda>_. True) (\<lambda>err. raise_io (failure err)))
      (s01_terminate_process h server [label] [Txt (''server-shutdown instrumentation='' @ mode)]))))))"

definition s01_run_manifest ::
    "host \<Rightarrow> s01_manifest \<Rightarrow> path \<Rightarrow> path \<Rightarrow> pyfloat \<Rightarrow> pyfloat \<Rightarrow> unit io" where
  "s01_run_manifest h manifest binary output_dir server_start_timeout client_timeout =
    iobnd (mkdir_p h output_dir) (\<lambda>_.
    ioeach (\<lambda>entry. ioeach
        (s01_run_one h binary output_dir server_start_timeout client_timeout entry) [''off'', ''on''])
      (s01_workloads manifest))"


section \<open>Checking the reports\<close>

definition s01_parse_json :: "world \<Rightarrow> path \<Rightarrow> obj res" where
  "s01_parse_json w p =
    bnd (except_as (fs_read w p) os_error_text (\<lambda>err.
           RunError [Txt (''artifact read failed ('' @ path_str p @ ''): '' @ err)])) (\<lambda>raw.
    if strip raw = [] then
      Inl (RunError [Txt (''artifact validation failed path='' @ path_str p @ '': file is empty'')])
    else
    bnd (except_as (json_loads w raw) json_error_text (\<lambda>err.
           RunError [Txt (''artifact validation failed path='' @ path_str p @ '': invalid json: '' @ err)]))
      (\<lambda>value. case value of
         JObj d \<Rightarrow> Inr d
       | _ \<Rightarrow> Inl (RunError [Txt (''artifact validation failed path='' @ path_str p @
                '': root must be an object'')])))"

definition s01_require_key :: "obj \<Rightarrow> path \<Rightarrow> string \<Rightarrow> json res" where
  "s01_require_key d p key = (case map_of d key of
       None \<Rightarrow> Inl (RunError [Txt (''artifact validation failed path='' @ path_str p @ '': missing '' @ key)])
     | Some v \<Rightarrow> Inr v)"

text \<open>The prefix \<open>label=... phase=artifact-validation instrumentation=... artifact=... \<close> of its errors.\<close>

definition s01_report_error :: "json \<Rightarrow> string \<Rightarrow> path \<Rightarrow> msg \<Rightarrow> exn" where
  "s01_report_error label mode p m = RunError ([Txt ''label='', str_frag label,
     Txt ('' phase=artifact-validation instrumentation='' @ mode @ '' artifact='' @ path_str p @ '' '')] @ m)"

definition s01_assert_metadata :: "obj \<Rightarrow> string \<Rightarrow> path \<Rightarrow> obj \<Rightarrow> unit res" where
  "s01_assert_metadata entry mode p metadata =
    bnd (item entry ''label'') (\<lambda>label.
    bnd (item entry ''rpc'') (\<lambda>rpc.
    let bad = (\<lambda>m. Inl (s01_report_error label mode p m)) in
    bnd (each (\<lambda>(key, expected). let actual = dget metadata key in
           if \<not> py_eq actual expected then
             bad [Txt (''metadata.'' @ key @ ''=''), Rep actual, Txt '' expected '', Rep expected]
           else Inr ())
         [(''ordinary_path'', JStr ''software''), (''seam'', JStr ''codec_body''), (''rpc'', rpc),
          (''workload_label'', label), (''instrumentation'', JStr mode)]) (\<lambda>_.
    bnd (if rpc = JStr ''unary-bytes'' then
           bnd (item entry ''payload_size'') (\<lambda>payload_size.
           if \<not> py_eq (dget metadata ''payload_size'') payload_size then
             bad [Txt ''metadata.payload_size mismatch''] else
           bnd (item entry ''payload_kind'') (\<lambda>payload_kind.
           if \<not> py_eq (dget metadata ''payload_kind'') payload_kind then
             bad [Txt ''metadata.payload_kind mismatch''] else Inr ()))
         else
           bnd (item entry ''proto_shape'') (\<lambda>proto_shape.
           bnd (item entry ''response_shape'') (\<lambda>response_shape.
           let expected_response = (if response_shape = JStr ''same'' then proto_shape
                                    else response_shape) in
           if \<not> py_eq (dget metadata ''request_shape'') proto_shape then
             bad [Txt ''metadata.request_shape mismatch'']
           else if \<not> py_eq (dget metadata ''response_shape'') expected_response then
             bad [Txt ''metadata.response_shape mismatch''] else Inr ()))) (\<lambda>_.
    each (\<lambda>field. if \<not> positive_int (dget metadata field) then
            bad [Txt (''metadata.'' @ field @ '' must be a positive integer'')] else Inr ())
      [''request_serialized_size'', ''response_serialized_size'']))))"

text \<open>The checks on one report, in the loop body of \<open>validate_artifacts\<close>.\<close>

definition s01_check_stage :: "json \<Rightarrow> string \<Rightarrow> path \<Rightarrow> obj \<Rightarrow> string \<Rightarrow> unit res" where
  "s01_check_stage label mode p stages stage_name =
    bnd (s01_require_key stages p stage_name) (\<lambda>stage. case stage of
      JObj d \<Rightarrow> each (\<lambda>f. if \<not> has_key d f then
                 Inl (s01_report_error label mode p [Txt (''missing stages.'' @ stage_name @ ''.'' @ f)])
                 else Inr ()) REQUIRED_STAGE_COUNTER_FIELDS
    | _ \<Rightarrow> Inl (s01_report_error label mode p [Txt (''stages.'' @ stage_name @ '' must be an object'')]))"

definition s01_check_report :: "obj \<Rightarrow> string \<Rightarrow> path \<Rightarrow> obj \<Rightarrow> unit res" where
  "s01_check_report entry mode p report =
    bnd (item entry ''label'') (\<lambda>label.
    bnd (s01_require_key report p ''metadata'') (\<lambda>metadata_v.
    bnd (s01_require_key report p ''metrics'') (\<lambda>metrics_v.
    bnd (s01_require_key report p ''stages'') (\<lambda>stages_v.
    let bad = (\<lambda>t. Inl (RunError [Txt (''artifact validation failed path='' @ path_str p @ '': '' @ t)])) in
    case metadata_v of JObj metadata \<Rightarrow>
     (case metrics_v of JObj metrics \<Rightarrow>
       (case stages_v of JObj stages \<Rightarrow>
         bnd (s01_assert_metadata entry mode p metadata) (\<lambda>_.
         bnd (s01_require_key stages p ''enabled'') (\<lambda>enabled.
         let expected_enabled = (mode = ''on'') in
         if enabled \<noteq> JBool expected_enabled then Inl (s01_report_error label mode p
           [Txt ''stages.enabled='', Rep enabled, Txt '' expected '', Rep (JBool expected_enabled)]) else
         bnd (if mode = ''on'' then each (s01_check_stage label mode p stages) REQUIRED_STAGE_NAMES
              else Inr ()) (\<lambda>_.
         if as_int (dget metrics ''requests_completed'') = None then Inl (s01_report_error label mode p
           [Txt ''missing integer metrics.requests_completed'']) else Inr ())))
       | _ \<Rightarrow> bad ''stages must be an object'')
     | _ \<Rightarrow> bad ''metrics must be an object'')
    | _ \<Rightarrow> bad ''metadata must be an object''))))"

definition s01_validate_artifact :: "path \<Rightarrow> obj \<Rightarrow> string \<Rightarrow> unit io" where
  "s01_validate_artifact output_dir entry mode =
    iobnd (lift (item entry ''label'')) (\<lambda>label.
    iobnd (lift (bnd (item entry ''artifact_pair'') (\<lambda>pair. bnd (subscr pair mode) as_str)))
      (\<lambda>artifact_name. let artifact_path = path_div output_dir artifact_name in
    iobnd (look (\<lambda>w. if \<not> fs_exists w artifact_path then
             Inl (RunError [Txt ''label='', str_frag label, Txt ('' phase=artifact-validation instrumentation=''
               @ mode @ '' missing artifact='' @ path_str artifact_path)])
           else bnd (s01_parse_json w artifact_path) (s01_check_report entry mode artifact_path))) (\<lambda>_.
    say [Txt ''label='', str_frag label, Txt ('' phase=artifact-validation instrumentation='' @ mode @
           '' artifact='' @ path_str artifact_path)])))"

definition s01_validate_artifacts :: "s01_manifest \<Rightarrow> path \<Rightarrow> unit io" where
  "s01_validate_artifacts manifest output_dir =
    ioeach (\<lambda>entry. ioeach (s01_validate_artifact output_dir entry) [''off'', ''on''])
      (s01_workloads manifest)"


section \<open>The command\<close>

record s01_args =
  s01_arg_manifest :: string
  s01_arg_output_dir :: "string option"
  s01_arg_binary :: "string option"
  s01_arg_validate_only :: bool
  s01_arg_verify_only :: bool
  s01_arg_server_start_timeout :: pyfloat
  s01_arg_client_timeout :: pyfloat

definition s01_main :: "host \<Rightarrow> s01_args \<Rightarrow> int io" where
  "s01_main h args =
    (if s01_arg_validate_only args \<and> s01_arg_verify_only args then
       iobnd (fail [Txt ''--validate-only and --verify-only are mutually exclusive'']) (\<lambda>_. ret 2)
     else try_except
      (let mp = path_of (s01_arg_manifest args) in
       iobnd (look (\<lambda>w. s01_load_manifest w mp)) (\<lambda>manifest.
       iobnd (look (\<lambda>w. Inr (fs_resolve w mp))) (\<lambda>shown.
       iobnd (say [Txt (''phase=manifest-parse manifest='' @ path_str shown @ '' workloads='' @
                str_nat (length (s01_workloads manifest)))]) (\<lambda>_.
       if s01_arg_validate_only args then ret 0 else
       if s01_arg_output_dir args = None \<or> s01_arg_output_dir args = Some [] then
         raise_io (RunError [Txt ''--output-dir is required unless --validate-only is used'']) else
       iobnd (look (\<lambda>w. Inr (fs_resolve w (path_of (the (s01_arg_output_dir args)))))) (\<lambda>output_dir.
       if s01_arg_verify_only args then
         iobnd (s01_validate_artifacts manifest output_dir) (\<lambda>_.
         iobnd (say [Txt (''phase=artifact-validation-complete output_dir='' @ path_str output_dir)])
           (\<lambda>_. ret 0))
       else
         iobnd (look (\<lambda>w. s01_locate_binary w (s01_arg_binary args))) (\<lambda>binary.
         iobnd (s01_run_manifest h manifest binary output_dir (s01_arg_server_start_timeout args)
                  (s01_arg_client_timeout args)) (\<lambda>_.
         iobnd (say [Txt (''phase=run-complete output_dir='' @ path_str output_dir)]) (\<lambda>_.
         ret 0))))))))
      is_script_error (\<lambda>err. iobnd (fail (exn_msg err)) (\<lambda>_. ret 1)))"


section \<open>Lemmas: the manifest\<close>

lemma s01_required_str_iff [res_iff]:
  "s01_required_str d i key scope = Inr v \<longleftrightarrow> map_of d key = Some (JStr v) \<and> v \<noteq> []"
  by (auto simp: s01_required_str_def Let_def dget_eq_iff [symmetric] split: json.splits)

lemma s01_check_int_iff [res_iff]: "s01_check_int i l m k = Inr u \<longleftrightarrow> posint_field m k"
  by (auto simp: s01_check_int_def posint_field_iff split: option.splits)

lemma s01_check_str_iff [res_iff]: "s01_check_str i l m k = Inr u \<longleftrightarrow> str_field m k"
  by (auto simp: s01_check_str_def str_field_iff nonempty_str_iff split: option.splits)

lemma field_has_key: "posint_field m k \<Longrightarrow> has_key m k" "str_field m k \<Longrightarrow> has_key m k"
  by (auto simp: posint_field_iff str_field_iff has_key_def)

lemma s01_check_rpc_iff [res_iff]:
  assumes "dget m ''rpc'' = JStr rpc"
  shows "s01_check_rpc i l rpc m = Inr u \<longleftrightarrow> shape_ready m"
  using assms field_has_key
  by (auto simp: s01_check_rpc_def shape_ready_def res_iff)

lemma s01_merged_fields [simp]:
  "dget (s01_merged defaults entry label rpc off on) ''label'' = JStr label"
  "dget (s01_merged defaults entry label rpc off on) ''rpc'' = JStr rpc"
  "dget (s01_merged defaults entry label rpc off on) ''artifact_pair'' =
     JObj [(''off'', JStr off), (''on'', JStr on)]"
  by (simp_all add: s01_merged_def dget_def)

text \<open>What S01 demands of a workload, over the merged dictionary.\<close>

definition s01_good :: "obj \<Rightarrow> bool" where
  "s01_good m \<longleftrightarrow> str_field m ''label'' \<and> posint_field m ''warmup_ms'' \<and> rpc_ready m \<and>
     (\<exists>off on. dget m ''artifact_pair'' = JObj [(''off'', JStr off), (''on'', JStr on)] \<and>
        off \<noteq> [] \<and> on \<noteq> [])"

lemma s01_bad_manifest [simp]: "is_manifest_error (s01_bad i l t)"
  by (simp add: s01_bad_def)

lemma s01_raises [errs]:
  "raises is_manifest_error (s01_required_str d i k sc)"
  "raises is_manifest_error (s01_check_int i l m k)"
  "raises is_manifest_error (s01_check_str i l m k)"
  unfolding s01_required_str_def s01_check_int_def s01_check_str_def Let_def
  by (intro errs; simp)+

lemma s01_check_rpc_raises [errs]: "raises is_manifest_error (s01_check_rpc i l rpc m)"
  unfolding s01_check_rpc_def Let_def by (intro errs) simp_all

lemma s01_validate_raises [errs]: "raises is_manifest_error (s01_validate_workload i v defaults seen)"
  unfolding s01_validate_workload_def Let_def by (intro errs) simp_all

lemma s01_validate_Inr_iff:
  "s01_validate_workload i v defaults seen = Inr (m, seen') \<longleftrightarrow>
    (\<exists>entry label rpc pair off on. v = JObj entry \<and>
       map_of entry ''label'' = Some (JStr label) \<and> label \<noteq> [] \<and> label \<notin> seen \<and>
       map_of entry ''rpc'' = Some (JStr rpc) \<and> rpc \<noteq> [] \<and>
       map_of entry ''artifact_pair'' = Some (JObj pair) \<and>
       map_of pair ''off'' = Some (JStr off) \<and> off \<noteq> [] \<and>
       map_of pair ''on'' = Some (JStr on) \<and> on \<noteq> [] \<and>
       m = s01_merged defaults entry label rpc off on \<and> posint_field m ''warmup_ms'' \<and> rpc_ready m \<and>
       seen' = insert label seen)"
proof -
  have d: "dget entry ''artifact_pair'' = JObj pair \<longleftrightarrow> map_of entry ''artifact_pair'' = Some (JObj pair)"
    for entry pair by (simp add: dget_eq_iff)
  have pos: "posint_field m ''warmup_ms'' \<Longrightarrow> nonneg_field m ''warmup_ms''" for m
    by (rule posint_nonneg_field)
  show ?thesis
    unfolding s01_validate_workload_def
    apply (simp add: res_iff Let_def d rpc_ready_def)
    using pos by blast
qed

interpretation s01: workload_checker "\<lambda>i v. s01_validate_workload i v defaults" s01_good
  for defaults
proof
  fix i v seen m seen'
  assume "s01_validate_workload i v defaults seen = Inr (m, seen')"
  then show "\<exists>l. map_of m ''label'' = Some (JStr l) \<and> l \<notin> seen \<and> seen' = insert l seen \<and> s01_good m"
    unfolding s01_validate_Inr_iff
    by (auto simp: s01_good_def str_field_def) (simp add: s01_merged_def)
qed (rule s01_validate_raises)

text \<open>The same as one computable test on the entry, the defaults and the labels seen so far.\<close>

definition s01_result :: "obj \<Rightarrow> obj \<Rightarrow> obj" where
  "s01_result defaults entry = (case dget entry ''artifact_pair'' of
     JObj pair \<Rightarrow> s01_merged defaults entry (text_of entry ''label'') (text_of entry ''rpc'')
                    (text_of pair ''off'') (text_of pair ''on'')
   | _ \<Rightarrow> [])"

definition s01_accepts :: "obj \<Rightarrow> obj \<Rightarrow> string set \<Rightarrow> bool" where
  "s01_accepts defaults entry seen \<longleftrightarrow> str_field entry ''label'' \<and> text_of entry ''label'' \<notin> seen \<and>
     str_field entry ''rpc'' \<and>
     (case dget entry ''artifact_pair'' of JObj pair \<Rightarrow> str_field pair ''off'' \<and> str_field pair ''on''
      | _ \<Rightarrow> False) \<and>
     posint_field (s01_result defaults entry) ''warmup_ms'' \<and> rpc_ready (s01_result defaults entry)"

text \<open>S01's \<open>validate_workload\<close> accepts exactly the entries with a fresh non-empty label, a
  non-empty rpc, a pair of artifact names, and, after the defaults are merged in, positive counts, a
  runtime, a compression, a buffer policy and the payload fields of a supported rpc mode. It then
  returns the merged dictionary and records the label; any other entry is refused with a
  \<open>ManifestError\<close> and no other exception.\<close>

theorem s01_validate_workload_correct:
  "if s01_accepts defaults entry seen
   then s01_validate_workload i (JObj entry) defaults seen =
          Inr (s01_result defaults entry, insert (text_of entry ''label'') seen)
   else \<exists>m. s01_validate_workload i (JObj entry) defaults seen = Inl (ManifestError m)"
proof (cases "s01_accepts defaults entry seen")
  case True
  then obtain pair where "dget entry ''artifact_pair'' = JObj pair"
    by (auto simp: s01_accepts_def split: json.splits)
  with True show ?thesis unfolding s01_validate_Inr_iff
    by (simp add: s01_accepts_def s01_result_def str_field_text dget_eq_iff)
next
  case False
  have "s01_validate_workload i (JObj entry) defaults seen \<noteq> Inr y" for y
    using False by (cases y) (auto simp: s01_validate_Inr_iff s01_accepts_def s01_result_def
        str_field_iff text_of_def)
  then show ?thesis using False raisesD [OF s01_validate_raises]
    by (cases "s01_validate_workload i (JObj entry) defaults seen") (auto simp: is_manifest_error_iff)
qed

lemma s01_load_manifest_raises:
  "raises (\<lambda>e. is_manifest_error e \<or> fs_read w p = Inl e \<or>
      (\<exists>raw. fs_read w p = Inr raw \<and> json_loads w raw = Inl e)) (s01_load_manifest w p)"
  (is "raises ?c _")
proof -
  show ?thesis
  proof (cases "fs_read w p")
    case (Inl e)
    then show ?thesis
      by (auto simp: s01_load_manifest_def raises_def except_as_def split: option.splits)
  next
    case read: (Inr raw)
    show ?thesis
    proof (cases "json_loads w raw")
      case (Inl e)
      with read show ?thesis
        by (auto simp: s01_load_manifest_def raises_def except_as_def split: option.splits)
    next
      case (Inr root)
      show ?thesis unfolding s01_load_manifest_def read Inr except_as_def sum.case bnd_simps
        by (intro errs raises_weaken [OF s01.entries_rejected]) simp_all
    qed
  qed
qed

lemma s01_load_manifest_Inr:
  assumes "s01_load_manifest w p = Inr m"
  obtains raw root ws where "fs_read w p = Inr raw" "json_loads w raw = Inr (JObj root)"
    "dget root ''workloads'' = JArr ws" "length (s01_workloads m) = length ws"
    "s01_workloads m \<noteq> []" "distinct (map label_of (s01_workloads m))"
    "list_all s01_good (s01_workloads m)"
proof -
  from assms obtain raw root defaults ws seen where r: "fs_read w p = Inr raw"
    "json_loads w raw = Inr (JObj root)" "dget root ''workloads'' = JArr ws" "ws \<noteq> []"
    and c: "check_entries (\<lambda>i v. s01_validate_workload i v defaults) 0 {} ws = Inr (s01_workloads m, seen)"
    by (auto simp: s01_load_manifest_def res_iff)
  note e = s01.entries_accepted [OF c]
  have "s01_workloads m \<noteq> []" using e(1) r(4) by auto
  moreover have "list_all s01_good (s01_workloads m)" using e(5) by (simp add: list_all_iff)
  ultimately show ?thesis using that [OF r(1-3) e(1) _ e(2)] by blast
qed

text \<open>A manifest that \<open>load_manifest\<close> returns has at least one workload, as many as the file
  lists, with pairwise distinct labels, each of them complete and well typed. If it raises, then
  with a \<open>ManifestError\<close>, unless reading or decoding the file raised an exception other than the
  two kinds the function catches.\<close>

theorem s01_load_manifest_outcome:
  "case s01_load_manifest w p of
     Inr m \<Rightarrow> s01_workloads m \<noteq> [] \<and> distinct (map label_of (s01_workloads m)) \<and>
       list_all s01_good (s01_workloads m) \<and>
       (\<exists>raw root ws. fs_read w p = Inr raw \<and> json_loads w raw = Inr (JObj root) \<and>
          dget root ''workloads'' = JArr ws \<and> length (s01_workloads m) = length ws)
   | Inl e \<Rightarrow> is_manifest_error e \<or> fs_read w p = Inl e \<or>
       (\<exists>raw. fs_read w p = Inr raw \<and> json_loads w raw = Inl e)"
proof (cases "s01_load_manifest w p")
  case (Inl e)
  then show ?thesis using raisesD [OF s01_load_manifest_raises] by simp
next
  case (Inr m)
  show ?thesis using Inr by (rule s01_load_manifest_Inr) (use Inr in auto)
qed

section \<open>Lemmas: the reports\<close>

lemma s01_require_key_iff [res_iff]: "s01_require_key d p k = Inr v \<longleftrightarrow> map_of d k = Some v"
  by (auto simp: s01_require_key_def split: option.splits)

lemma s01_check_stage_iff [res_iff]: "s01_check_stage l mode p stages n = Inr u \<longleftrightarrow> stage_ok stages n"
  by (auto simp: s01_check_stage_def stage_ok_def obj_field_iff list_all_iff res_iff)

definition s01_expected_response :: "obj \<Rightarrow> json" where
  "s01_expected_response entry = (if dget entry ''response_shape'' = JStr ''same''
     then dget entry ''proto_shape'' else dget entry ''response_shape'')"

definition s01_metadata_ok :: "obj \<Rightarrow> string \<Rightarrow> obj \<Rightarrow> bool" where
  "s01_metadata_ok entry mode metadata \<longleftrightarrow>
     fields_match metadata [(''ordinary_path'', JStr ''software''), (''seam'', JStr ''codec_body''),
       (''rpc'', dget entry ''rpc''), (''workload_label'', dget entry ''label''),
       (''instrumentation'', JStr mode)] \<and>
     payload_matches entry metadata (s01_expected_response entry) \<and>
     list_all (posint_field metadata) [''request_serialized_size'', ''response_serialized_size'']"

lemma s01_good_fields:
  assumes "s01_good entry"
  shows "str_field entry ''label''" "shape_ready entry"
    "\<exists>d. map_of entry ''artifact_pair'' = Some (JObj d)"
    "mode \<in> {''off'', ''on''} \<Longrightarrow> str_field (sub entry ''artifact_pair'') mode"
proof -
  obtain off on where p: "map_of entry ''artifact_pair'' = Some (JObj [(''off'', JStr off), (''on'', JStr on)])"
    "off \<noteq> []" "on \<noteq> []"
    using assms by (auto simp: s01_good_def dget_eq_iff)
  then show "\<exists>d. map_of entry ''artifact_pair'' = Some (JObj d)"
    "mode \<in> {''off'', ''on''} \<Longrightarrow> str_field (sub entry ''artifact_pair'') mode"
    by (auto simp: str_field_iff)
qed (use assms in \<open>simp_all add: s01_good_def rpc_ready_def\<close>)

lemma s01_assert_metadata_iff:
  assumes "s01_good entry"
  shows "s01_assert_metadata entry mode p metadata = Inr u \<longleftrightarrow> s01_metadata_ok entry mode metadata"
proof -
  note g = s01_good_fields [OF assms]
  obtain l where l: "map_of entry ''label'' = Some (JStr l)"
    using g(1) by (auto simp: str_field_iff)
  show ?thesis
  proof (cases "dget entry ''rpc'' = JStr ''unary-bytes''")
    case True
    then have "map_of entry ''rpc'' = Some (JStr ''unary-bytes'')" by (simp add: dget_eq_iff)
    moreover obtain n k where "map_of entry ''payload_size'' = Some n"
      "map_of entry ''payload_kind'' = Some (JStr k)"
      using g(2) True by (auto simp: shape_ready_def posint_field_iff str_field_iff)
    ultimately show ?thesis using l
      by (auto simp: s01_assert_metadata_def s01_metadata_ok_def fields_match_def payload_matches_def
          posint_field_def res_iff Let_def)
  next
    case False
    then have rpc: "map_of entry ''rpc'' = Some (JStr ''unary-proto-shape'')"
      using g(2) by (auto simp: shape_ready_def dget_eq_iff)
    moreover obtain q r where "map_of entry ''proto_shape'' = Some (JStr q)"
      "map_of entry ''response_shape'' = Some (JStr r)"
      using g(2) False by (auto simp: shape_ready_def str_field_iff)
    ultimately show ?thesis using l
      by (auto simp: s01_assert_metadata_def s01_metadata_ok_def fields_match_def payload_matches_def
          posint_field_def s01_expected_response_def res_iff Let_def)
  qed
qed

definition s01_report_ok :: "obj \<Rightarrow> string \<Rightarrow> obj \<Rightarrow> bool" where
  "s01_report_ok entry mode report \<longleftrightarrow>
     list_all (obj_field report) [''metadata'', ''metrics'', ''stages''] \<and>
     s01_metadata_ok entry mode (sub report ''metadata'') \<and>
     dget (sub report ''stages'') ''enabled'' = JBool (mode = ''on'') \<and>
     (mode = ''on'' \<longrightarrow> list_all (stage_ok (sub report ''stages'')) REQUIRED_STAGE_NAMES) \<and>
     as_int (dget (sub report ''metrics'') ''requests_completed'') \<noteq> None"

lemma s01_check_report_iff:
  assumes "s01_good entry"
  shows "s01_check_report entry mode p report = Inr u \<longleftrightarrow> s01_report_ok entry mode report"
proof -
  note g = s01_good_fields [OF assms]
  obtain l where l: "item entry ''label'' = Inr (JStr l)"
    using g(1) by (auto simp: str_field_iff item_def)
  show ?thesis
  proof (cases "list_all (obj_field report) [''metadata'', ''metrics'', ''stages'']")
    case False
    have "s01_check_report entry mode p report \<noteq> Inr u"
      using False by (auto simp: s01_check_report_def res_iff obj_field_iff)
    with False show ?thesis by (auto simp: s01_report_ok_def)
  next
    case True
    then obtain md ms st where m: "map_of report ''metadata'' = Some (JObj md)"
      "map_of report ''metrics'' = Some (JObj ms)" "map_of report ''stages'' = Some (JObj st)"
      by (auto simp: obj_field_iff)
    then have s: "sub report ''metadata'' = md" "sub report ''metrics'' = ms" "sub report ''stages'' = st"
      by simp_all
    have e: "map_of st ''enabled'' = Some (JBool b) \<longleftrightarrow> dget st ''enabled'' = JBool b" for b
      by (simp add: dget_eq_iff)
    show ?thesis using True
      unfolding s01_check_report_def s01_report_ok_def l s
      by (simp add: res_iff m s01_assert_metadata_iff [OF assms] e list_all_iff Let_def
          split: if_split)
  qed
qed

text \<open>The file a workload's report is in, and whether the file on disk passes.\<close>

definition s01_artifact_path :: "path \<Rightarrow> obj \<Rightarrow> string \<Rightarrow> path" where
  "s01_artifact_path output_dir entry mode =
    path_div output_dir (text_of (sub entry ''artifact_pair'') mode)"

definition s01_artifact_ok :: "world \<Rightarrow> path \<Rightarrow> obj \<Rightarrow> string \<Rightarrow> bool" where
  "s01_artifact_ok w output_dir entry mode \<longleftrightarrow>
    (let p = s01_artifact_path output_dir entry mode in
     fs_exists w p \<and> (case s01_parse_json w p of Inr report \<Rightarrow> s01_report_ok entry mode report
                       | Inl _ \<Rightarrow> False))"

definition s01_artifact_line :: "path \<Rightarrow> obj \<Rightarrow> string \<Rightarrow> msg" where
  "s01_artifact_line output_dir entry mode = [Txt ''label='', Txt (label_of entry),
     Txt ('' phase=artifact-validation instrumentation='' @ mode @ '' artifact='' @
       path_str (s01_artifact_path output_dir entry mode))]"

lemma s01_validate_artifact_iff:
  assumes "s01_good entry" and "mode \<in> {''off'', ''on''}"
  shows "s01_validate_artifact output_dir entry mode s = Some (Inr y, t) \<longleftrightarrow>
    s01_artifact_ok (files s) output_dir entry mode \<and>
    t = s\<lparr>out_log := out_log s @ [s01_artifact_line output_dir entry mode]\<rparr>"
proof -
  note g = s01_good_fields [OF assms(1)]
  have l: "item entry ''label'' = Inr (JStr (label_of entry))"
    using g(1) by (auto simp: str_field_iff item_def label_of_def)
  have n: "bnd (item entry ''artifact_pair'') (\<lambda>pair. bnd (subscr pair mode) as_str) =
      Inr (text_of (sub entry ''artifact_pair'') mode)"
    using g(3) g(4) [OF assms(2)] by (auto simp: str_field_text item_def)
  show ?thesis
    unfolding s01_validate_artifact_def l n
    by (auto simp: io_iff res_iff Let_def s01_artifact_ok_def s01_artifact_path_def
        s01_artifact_line_def s01_check_report_iff [OF assms(1)] split: sum.splits)
qed

lemma s01_validate_artifacts_iff:
  assumes "list_all s01_good (s01_workloads manifest)"
  shows "s01_validate_artifacts manifest output_dir s = Some (Inr y, t) \<longleftrightarrow>
    (\<forall>entry \<in> set (s01_workloads manifest). \<forall>mode \<in> set [''off'', ''on''].
       s01_artifact_ok (files s) output_dir entry mode) \<and>
    t = s\<lparr>out_log := out_log s @ concat (map (\<lambda>entry. concat (map
       (\<lambda>mode. [s01_artifact_line output_dir entry mode]) [''off'', ''on'']))
         (s01_workloads manifest))\<rparr>"
  unfolding s01_validate_artifacts_def
proof (rule ioeach_printing)
  fix entry s t and y :: unit
  assume "entry \<in> set (s01_workloads manifest)"
  then have g: "s01_good entry" using assms by (simp add: list_all_iff)
  show "ioeach (s01_validate_artifact output_dir entry) [''off'', ''on''] s = Some (Inr y, t) \<longleftrightarrow>
    (\<forall>mode \<in> set [''off'', ''on'']. s01_artifact_ok (files s) output_dir entry mode) \<and>
    t = s\<lparr>out_log := out_log s @ concat (map (\<lambda>mode. [s01_artifact_line output_dir entry mode])
       [''off'', ''on''])\<rparr>"
    by (rule ioeach_printing) (simp add: s01_validate_artifact_iff [OF g])
qed

text \<open>C14. For a manifest that loads, \<open>validate_artifacts\<close> succeeds exactly when every workload's
  off and on reports exist, parse, and pass: the metadata names this workload, mode and payload, the
  sizes are positive, the stages are enabled just when instrumentation is on and then complete, and
  the completed requests are an integer. It changes nothing and prints one line per report.\<close>

theorem s01_validate_artifacts_correct:
  assumes "s01_load_manifest w p = Inr manifest"
  shows "(\<exists>t. s01_validate_artifacts manifest output_dir s = Some (Inr (), t) \<and>
        files t = files s \<and> events t = events s \<and>
        length (out_log t) = length (out_log s) + 2 * length (s01_workloads manifest)) \<longleftrightarrow>
    (\<forall>entry \<in> set (s01_workloads manifest). \<forall>mode \<in> {''off'', ''on''}.
       s01_artifact_ok (files s) output_dir entry mode)"
proof -
  have g: "list_all s01_good (s01_workloads manifest)"
    using assms by (rule s01_load_manifest_Inr)
  have len: "length (concat (map (\<lambda>entry. concat (map (f entry) [''off'', ''on''])) ws)) = 2 * length ws"
    if "\<And>e m. length (f e m) = 1" for f :: "obj \<Rightarrow> string \<Rightarrow> msg list" and ws
    using that by (induction ws) simp_all
  show ?thesis unfolding s01_validate_artifacts_iff [OF g]
    using len [of "\<lambda>entry mode. [s01_artifact_line output_dir entry mode]"] by auto
qed

text \<open>An example: one workload and its two reports.\<close>

definition s01_demo_manifest :: json where
  "s01_demo_manifest = JObj [(''defaults'', JObj [(''warmup_ms'', JInt 1), (''runtime'', JStr ''single'')]),
     (''workloads'', JArr [JObj [(''label'', JStr ''a''), (''rpc'', JStr ''unary-bytes''),
        (''measure_ms'', JInt 10), (''requests'', JInt 5), (''concurrency'', JInt 1),
        (''compression'', JStr ''off''), (''buffer_policy'', JStr ''default''),
        (''payload_size'', JInt 64), (''payload_kind'', JStr ''repeated''),
        (''artifact_pair'', JObj [(''off'', JStr ''a.off''), (''on'', JStr ''a.on'')])]])]"

definition s01_demo_report :: "bool \<Rightarrow> json" where
  "s01_demo_report on = JObj [(''metadata'', JObj [(''ordinary_path'', JStr ''software''),
       (''seam'', JStr ''codec_body''), (''rpc'', JStr ''unary-bytes''), (''workload_label'', JStr ''a''),
       (''instrumentation'', JStr (if on then ''on'' else ''off'')), (''payload_size'', JInt 64),
       (''payload_kind'', JStr ''repeated''), (''request_serialized_size'', JInt 70),
       (''response_serialized_size'', JInt 70)]),
     (''metrics'', JObj [(''requests_completed'', JInt 5)]),
     (''stages'', JObj ((''enabled'', JBool on) # map (\<lambda>n. (n, JObj (map (\<lambda>f. (f, JInt 1))
        REQUIRED_STAGE_COUNTER_FIELDS))) REQUIRED_STAGE_NAMES))]"

definition s01_demo_world :: world where
  "s01_demo_world = \<lparr>fs_exists = (\<lambda>_. True), fs_read = (\<lambda>p. Inr (path_str p)), fs_resolve = (\<lambda>p. p),
     json_loads = (\<lambda>t. Inr (if t = ''m'' then s01_demo_manifest else s01_demo_report (t = ''o/a.on''))),
     fs_size = (\<lambda>_. 0), fs_list = (\<lambda>_. []), fs_is_dir = (\<lambda>_. False)\<rparr>"

definition s01_demo_loaded :: s01_manifest where
  "s01_demo_loaded = (case s01_load_manifest s01_demo_world (path_of ''m'') of Inr m \<Rightarrow> m
     | Inl _ \<Rightarrow> \<lparr>s01_version = JNull, s01_defaults = [], s01_workloads = []\<rparr>)"

lemma s01_demo_loads: "s01_load_manifest s01_demo_world (path_of ''m'') = Inr s01_demo_loaded"
proof -
  have "\<not> isl (s01_load_manifest s01_demo_world (path_of ''m''))" by code_simp
  then show ?thesis by (auto simp: s01_demo_loaded_def split: sum.splits)
qed

theorem s01_validate_artifacts_witness:
  "length (s01_workloads s01_demo_loaded) = 1 \<and>
   (\<exists>t. s01_validate_artifacts s01_demo_loaded (path_of ''o'') (demo_mach\<lparr>files := s01_demo_world\<rparr>) =
      Some (Inr (), t) \<and> length (out_log t) = 2)"
proof -
  have ok: "list_all (\<lambda>entry. list_all (s01_artifact_ok s01_demo_world (path_of ''o'') entry)
      [''off'', ''on'']) (s01_workloads s01_demo_loaded)" by code_simp
  have len: "length (s01_workloads s01_demo_loaded) = 1" by code_simp
  show ?thesis
    using s01_validate_artifacts_correct [OF s01_demo_loads, of "path_of ''o''"
        "demo_mach\<lparr>files := s01_demo_world\<rparr>"] ok len
    by (auto simp: list_all_iff demo_mach_def)
qed


text \<open>\<open>run_s01_workloads.py --verify-only --output-dir DIR\<close> exits with status 0 exactly when the
  manifest loads and every report it names is present and passes.\<close>

theorem s01_verify_only_exit:
  assumes "s01_arg_verify_only args" "\<not> s01_arg_validate_only args"
    "s01_arg_output_dir args = Some d" "d \<noteq> []"
  shows "(\<exists>t. s01_main h args s = Some (Inr 0, t)) \<longleftrightarrow>
    (\<exists>m. s01_load_manifest (files s) (path_of (s01_arg_manifest args)) = Inr m \<and>
       (\<forall>entry \<in> set (s01_workloads m). \<forall>mode \<in> {''off'', ''on''}.
          s01_artifact_ok (files s) (fs_resolve (files s) (path_of d)) entry mode))"
proof -
  have good: "list_all s01_good (s01_workloads m)"
    if "s01_load_manifest w p = Inr m" for w p m
    using that by (rule s01_load_manifest_Inr)
  show ?thesis
    unfolding s01_main_def using assms
    by (auto simp: exit_unless io_iff Let_def s01_validate_artifacts_iff [OF good])
qed

theorem s01_verify_only_exit_witness:
  "\<exists>t. s01_main demo_host \<lparr>s01_arg_manifest = ''m'', s01_arg_output_dir = Some ''o'',
      s01_arg_binary = None, s01_arg_validate_only = False, s01_arg_verify_only = True,
      s01_arg_server_start_timeout = Fin 10, s01_arg_client_timeout = Fin 20\<rparr>
      (demo_mach\<lparr>files := s01_demo_world\<rparr>) = Some (Inr 0, t)"
proof -
  have ok: "list_all (\<lambda>entry. list_all (s01_artifact_ok s01_demo_world
      (fs_resolve s01_demo_world (path_of ''o'')) entry) [''off'', ''on'']) (s01_workloads s01_demo_loaded)"
    by code_simp
  show ?thesis
    by (subst s01_verify_only_exit [of _ "''o''"]) (use ok s01_demo_loads in \<open>auto simp: list_all_iff\<close>)
qed


section \<open>Properties of the run\<close>

lemma s01_wait_loop_later:
  assumes "s01_wait_loop h a port deadline expired s = Some y"
  shows "later s (snd y)"
  using assms
proof (rule s01_wait_loop.raw_induct [rotated])
  fix f h a port deadline expired s y
  assume ih: "\<And>h a port deadline expired s y. f h a port deadline expired s = Some y \<Longrightarrow> later s (snd y)"
    and step: "iobnd (monotonic h) (\<lambda>now t. if \<not> flt now deadline then raise_io expired t else
      iobnd (connect_ex h a port) (\<lambda>c u. if c = 0 then ret () u else
      iobnd (sleep h) (\<lambda>_. f h a port deadline expired) u) t) s = Some y"
  define u where "u = ext h (Connect a port) (ext h Clock s)"
  have su: "later s u" unfolding u_def by (rule later_trans [OF later_ext later_ext])
  have "later s (snd y)" if "f h a port deadline expired (ext h Sleep u) = Some y"
    by (rule later_trans [OF su later_trans [OF later_ext ih [OF that]]])
  then show "later s (snd y)"
    using step su
    by (cases "flt (h_mono h (tick s)) deadline"; cases "h_conn h a port (Suc (tick s)) = 0")
      (auto simp: u_def iobnd_def monotonic_def connect_ex_def sleep_def ret_def raise_io_def)
qed

lemma s01_wait_for_port_tame [calm]: "tame (s01_wait_for_port h addr d)"
proof -
  have "tame (s01_wait_loop h a port deadline expired)" for a port deadline expired
    using s01_wait_loop_later by (fastforce simp: tame_def)
  then show ?thesis unfolding s01_wait_for_port_def by (intro calm)
qed

lemma s01_run_body_tame [calm]: "tame (s01_run_body h args l mode addr bin art st ct)"
  unfolding s01_run_body_def by (intro calm)

lemma s01_reserve_addr_tame [calm]: "tame (s01_reserve_addr h)"
  by (auto simp: tame_def s01_reserve_addr_def split: prod.splits)

text \<open>The guarded start of the server.\<close>

lemma s01_start_effect:
  assumes "try_except (iobnd (say l) (\<lambda>_. popen h cmd)) (\<lambda>_. True) (\<lambda>err. raise_io (failure err)) s
      = Some (r, t)"
  shows "(\<exists>e. r = Inl e \<and> later s t) \<or> (r = Inr (next_pid s) \<and> next_pid t = Suc (next_pid s) \<and>
    set (events s) \<subseteq> set (events t) \<and> (\<forall>pid < next_pid s. codes s pid \<noteq> None \<longrightarrow> codes t pid \<noteq> None))"
  using assms
  by (auto simp: try_except_def raise_io_def iobnd_def say_def popen_def later_def
      split: option.splits)

lemma s01_run_one_clean [calm]: "clean (s01_run_one h bin out st ct entry mode)"
proof -
  have g: "clean (iobnd (try_except (iobnd (say l) (\<lambda>_. popen h cmd)) (\<lambda>_. True)
       (\<lambda>err. raise_io (failure err))) (\<lambda>server. try_finally
         (try_except (s01_run_body h args lab mode addr bin art st ct) (\<lambda>_. True)
           (\<lambda>err. raise_io (failure err)))
         (s01_terminate_process h server [lab] phase)))" for l cmd failure args lab addr art phase
  proof (rule popen_guarded_clean [OF _ _ s01_start_effect])
    show "tame (try_finally (try_except (s01_run_body h args lab mode addr bin art st ct) (\<lambda>_. True)
        (\<lambda>err. raise_io (failure err))) (s01_terminate_process h pid [lab] phase))" for pid
      unfolding s01_terminate_process_def by (intro calm)
  qed (simp_all add: s01_terminate_process_def guarded_settled)
  show ?thesis unfolding s01_run_one_def Let_def
    by (intro iobnd_clean g tame_clean [OF basic_tame(3)] tame_clean [OF s01_reserve_addr_tame])
qed

text \<open>However the run of a whole manifest ends, every server it started has been waited for;
  only a \<open>TimeoutExpired\<close> after SIGKILL can leave one behind.\<close>

theorem s01_run_no_orphans:
  assumes "s01_run_manifest h manifest binary output_dir st ct s = Some (r, t)"
    and "next_pid s \<le> pid" and "pid < next_pid t"
  shows "codes t pid \<noteq> None \<or> (r = Inl TimeoutExpired \<and> Sigkill pid \<in> set (events t))"
proof -
  have "clean (s01_run_manifest h manifest binary output_dir st ct)"
    unfolding s01_run_manifest_def by (intro calm tame_clean [OF call_tame(2)])
  from cleanD(4) [OF this assms] show ?thesis by (simp add: settled_def)
qed

definition s01_demo_entry :: obj where
  "s01_demo_entry = [(''label'', JStr ''a''), (''rpc'', JStr ''unary-bytes''),
     (''warmup_ms'', JInt 1), (''measure_ms'', JInt 10), (''requests'', JInt 5),
     (''concurrency'', JInt 1), (''runtime'', JStr ''single''), (''compression'', JStr ''off''),
     (''buffer_policy'', JStr ''default''), (''payload_size'', JInt 64),
     (''payload_kind'', JStr ''repeated''),
     (''artifact_pair'', JObj [(''off'', JStr ''a.off''), (''on'', JStr ''a.on'')])]"

lemma s01_demo_run:
  "\<exists>t. s01_run_manifest demo_host \<lparr>s01_version = JNull, s01_defaults = [],
      s01_workloads = [s01_demo_entry]\<rparr> (path_of ''bin'') (path_of ''o'') (Fin 10) (Fin 20) demo_mach =
      Some (Inr (), t) \<and> next_pid t = 2"
proof -
  have addr: "h_addr demo_host n = (''127.0.0.1'', 4000)" for n by (simp add: demo_host_def)
  have a: "split_addr (CHR ''1'' # CHR ''2'' # CHR ''7'' # CHR ''.'' # CHR ''0'' # CHR ''.'' # CHR ''0'' #
      CHR ''.'' # CHR ''1'' # CHR '':'' # str_int 4000) = Inr (''127.0.0.1'', 4000)"
    using split_addr_reserved [of "''127.0.0.1''" 4000] by simp
  have late: "flt (Fin 60) (fadd (Fin 60) (Fin 10))" by code_simp
  note defs = s01_run_manifest_def s01_run_one_def s01_run_body_def s01_wait_for_port_def
    s01_terminate_process_def stop_process_def s01_wait_loop.simps iobnd_def try_except_def
    try_finally_def mkdir_p_def say_def popen_def monotonic_def poll_def connect_ex_def run_cmd_def
    wait_proc_def returncode_def ret_def lift_def s01_reserve_addr_def terminate_def signal_proc_def
  show ?thesis
    by (simp add: defs addr a late demo_deadline demo_mach_def ext_def s01_demo_entry_def
        s01_build_common_args_def item_def Let_def del: fadd.simps)
qed

theorem s01_run_no_orphans_witness:
  "\<exists>t. s01_run_manifest demo_host \<lparr>s01_version = JNull, s01_defaults = [],
      s01_workloads = [s01_demo_entry]\<rparr> (path_of ''bin'') (path_of ''o'') (Fin 10) (Fin 20) demo_mach =
      Some (Inr (), t) \<and> codes t 0 \<noteq> None \<and> codes t 1 \<noteq> None"
proof -
  obtain t where t: "s01_run_manifest demo_host \<lparr>s01_version = JNull, s01_defaults = [],
      s01_workloads = [s01_demo_entry]\<rparr> (path_of ''bin'') (path_of ''o'') (Fin 10) (Fin 20) demo_mach =
      Some (Inr (), t)" "next_pid t = 2"
    using s01_demo_run by blast
  show ?thesis using t s01_run_no_orphans [OF t(1), of 0] s01_run_no_orphans [OF t(1), of 1]
    by (simp add: demo_mach_def)
qed

end
