(* ===== verification/EvidenceMatrix.thy ===== *)
theory EvidenceMatrix
  imports WorkloadSpec
begin

text \<open>
  What the S02 and S03 runners share when they check a matrix of reports: the byte signature of a
  report, the dictionaries of signatures per endpoint role, and the fields by which the two reports
  of a run are compared. The two scripts spell these expressions out identically.
\<close>

section \<open>Signatures\<close>

type_synonym signature = "int \<times> int \<times> int \<times> int"
type_synonym signatures = "(string, (json, signature) dict) dict"

text \<open>\<open>int(report["stages"][stage]["bytes"])\<close> of the four stages.\<close>

definition stage_bytes :: "obj \<Rightarrow> string \<Rightarrow> int res" where
  "stage_bytes report stage =
    bnd (item report ''stages'') (\<lambda>stages. bnd (subscr stages stage) (\<lambda>d.
    bnd (subscr d ''bytes'') py_int))"

definition report_signature :: "obj \<Rightarrow> signature res" where
  "report_signature report =
    bnd (stage_bytes report ''encode'') (\<lambda>a. bnd (stage_bytes report ''decode'') (\<lambda>b.
    bnd (stage_bytes report ''body_accum'') (\<lambda>c. bnd (stage_bytes report ''frame_header'') (\<lambda>d.
    Inr (a, b, c, d)))))"

definition add_signature :: "signatures \<Rightarrow> string \<Rightarrow> json \<Rightarrow> signature \<Rightarrow> signatures" where
  "add_signature sigs role label sg = AList.update role
    (AList.update label sg (case map_of sigs role of Some d \<Rightarrow> d | None \<Rightarrow> [])) sigs"

definition report_run_id :: "obj \<Rightarrow> json res" where
  "report_run_id report = bnd (item report ''metadata'') (\<lambda>m. get_method m ''run_id'' JNull)"

definition report_label :: "obj \<Rightarrow> json res" where
  "report_label report = bnd (item report ''metadata'') (\<lambda>m. get_method m ''workload_label'' JNull)"

text \<open>\<open>", ".join(sorted(signatures))\<close>: the keys are the labels.\<close>

definition label_texts :: "(json, signature) dict \<Rightarrow> string list" where
  "label_texts d = sort (concat (map (\<lambda>(k, _). case k of JStr l \<Rightarrow> [l] | _ \<Rightarrow> []) d))"


section \<open>Lemmas\<close>

lemma update_new: "k \<notin> fst ` set d \<Longrightarrow> AList.update k v d = d @ [(k, v)]"
  by (induction d) auto

lemma add_signature_role [simp]:
  "map_of (add_signature sigs role l sg) role =
     Some (AList.update l sg (case map_of sigs role of Some d \<Rightarrow> d | None \<Rightarrow> []))"
  "role' \<noteq> role \<Longrightarrow> map_of (add_signature sigs role l sg) role' = map_of sigs role'"
  by (simp_all add: add_signature_def)

text \<open>Recording each workload once leaves, for each role, the workloads' signatures in order.\<close>

lemma foldl_signatures:
  assumes "distinct (map lab (done @ ws))"
    and "map_of sigs ''client'' = Some (map (\<lambda>e. (lab e, f e)) done)"
    and "map_of sigs ''server'' = Some (map (\<lambda>e. (lab e, g e)) done)"
    and upd: "\<And>s e. upd s e = add_signature (add_signature s ''client'' (lab e) (f e)) ''server'' (lab e) (g e)"
  shows "map_of (foldl upd sigs ws) ''client'' = Some (map (\<lambda>e. (lab e, f e)) (done @ ws)) \<and>
    map_of (foldl upd sigs ws) ''server'' = Some (map (\<lambda>e. (lab e, g e)) (done @ ws))"
  using assms(1-3)
proof (induction ws arbitrary: sigs "done")
  case (Cons e ws)
  have new: "lab e \<notin> fst ` set (map (\<lambda>e. (lab e, f e)) done)" for f :: "'a \<Rightarrow> signature"
    using Cons.prems(1) by auto
  have "map_of (upd sigs e) ''client'' = Some (map (\<lambda>e. (lab e, f e)) (done @ [e]))"
    "map_of (upd sigs e) ''server'' = Some (map (\<lambda>e. (lab e, g e)) (done @ [e]))"
    using Cons.prems(2,3) new [of f] new [of g] by (simp_all add: upd update_new)
  from Cons.IH [OF _ this] show ?case using Cons.prems(1) by simp
qed simp

text \<open>\<open>sorted(required - labels)\<close> is empty when all required labels are there.\<close>

lemma required_present:
  assumes "sort (filter (\<lambda>l. JStr l \<notin> set (map (\<lambda>e. dget e ''label'') ws)) required) = []"
  shows "set required \<subseteq> set (map label_of ws)"
proof
  fix x
  assume x: "x \<in> set required"
  have "set (filter (\<lambda>l. JStr l \<notin> set (map (\<lambda>e. dget e ''label'') ws)) required) = {}"
    using assms by (metis list.set(1) set_sort)
  then obtain e where "e \<in> set ws" "dget e ''label'' = JStr x" using x by auto
  then show "x \<in> set (map label_of ws)" by (force simp: label_of_def)
qed

lemma two_distinct: "\<not> length (remdups xs) \<le> 1 \<longleftrightarrow> (\<exists>x \<in> set xs. \<exists>y \<in> set xs. x \<noteq> y)"
  by (simp add: length_remdups_card_conv card_le_Suc0_iff_eq)

section \<open>A matrix of accepted reports\<close>

text \<open>
  The contract of a report check: a slot is one of the reports a workload must produce, \<open>report_file\<close> where
  it lies, and \<open>accepted\<close> what the check demands. If an accepted report determines the workload's
  label and the slot it was accepted for, then no two slots of a matrix that passes share a file.
\<close>

locale evidence_matrix =
  fixes slots :: "'k list"
    and report_file :: "obj \<Rightarrow> 'k \<Rightarrow> path"
    and parse :: "world \<Rightarrow> path \<Rightarrow> obj res"
    and accepted :: "obj \<Rightarrow> 'k \<Rightarrow> obj \<Rightarrow> bool"
  assumes slots_distinct: "distinct slots"
    and identifies: "accepted e k r \<Longrightarrow> accepted e' k' r \<Longrightarrow> dget e ''label'' = dget e' ''label'' \<and> k = k'"
begin

lemma matrix_files_distinct:
  assumes labels: "distinct (map label_of ws)"
    and passed: "\<forall>e \<in> set ws. \<forall>k \<in> set slots. \<exists>r. parse w (report_file e k) = Inr r \<and> accepted e k r"
  shows "distinct (map (\<lambda>(e, k). report_file e k) (List.product ws slots))"
proof -
  have d: "distinct ws" using labels by (simp add: distinct_map)
  have "inj_on (\<lambda>(e, k). report_file e k) (set (List.product ws slots))"
  proof (rule inj_onI, clarsimp)
    fix e k e' k'
    assume e: "e \<in> set ws" "e' \<in> set ws" and k: "k \<in> set slots" "k' \<in> set slots"
      and same: "report_file e k = report_file e' k'"
    obtain r where r: "parse w (report_file e k) = Inr r" "accepted e k r" using passed e k by blast
    obtain r' where r': "parse w (report_file e' k') = Inr r'" "accepted e' k' r'" using passed e k by blast
    have "r = r'" using r(1) r'(1) same by simp
    then have "dget e ''label'' = dget e' ''label''" "k = k'"
      using identifies r(2) r'(2) by blast+
    moreover from this(1) have "label_of e = label_of e'" by (simp add: label_of_def)
    then have "e = e'" using labels e by (simp add: distinct_map inj_on_def)
    ultimately show "e = e' \<and> k = k'" by simp
  qed
  then show ?thesis using d slots_distinct by (simp add: distinct_map distinct_product)
qed

end

end
