(* ===== verification/S02_Evidence.thy ===== *)
theory S02_Evidence
  imports EvidenceMatrix "HOL-Library.Multiset"
begin

text \<open>
  The S02 runner (accel-rpc/tonic-profile/scripts/run_s02_evidence.py): each workload is run with
  instrumentation off and on, client and server each write a report, and the four reports of every
  workload are checked one by one, against each other, and across workloads.
\<close>

section \<open>The manifest\<close>

definition EXPECTED_BENCHMARKS :: "string list" where
  "EXPECTED_BENCHMARKS = [''tokio_spawn_join'', ''tokio_oneshot_completion'',
     ''tokio_mpsc_round_trip'', ''tokio_same_thread_wake'', ''tokio_cross_thread_wake'']"

definition s02_required_labels :: "string list" where
  "s02_required_labels = [''ordinary/unary-bytes/repeated-64'',
     ''ordinary/unary-proto-shape/fleet-small-to-fleet-response-heavy'']"

record s02_manifest =
  s02_version :: json
  s02_defaults :: obj
  s02_expected_benchmarks :: "string list"
  s02_workloads :: "obj list"

definition s02_required_str :: "obj \<Rightarrow> string \<Rightarrow> msg \<Rightarrow> string res" where
  "s02_required_str d key scope = (case dget d key of
       JStr v \<Rightarrow> (if v = [] then Inl (ManifestError (scope @ [Txt ('' missing '' @ key)])) else Inr v)
     | _ \<Rightarrow> Inl (ManifestError (scope @ [Txt ('' missing '' @ key)])))"

definition s02_required_positive_int :: "obj \<Rightarrow> string \<Rightarrow> msg \<Rightarrow> json res" where
  "s02_required_positive_int d key scope = (let value = dget d key in
     if positive_int value then Inr value
     else Inl (ManifestError (scope @ [Txt ('' field '' @ key @ '' must be a positive integer'')])))"

text \<open>One pair of \<open>validate_endpoint_artifacts\<close>: the roles in turn, collecting the names seen.\<close>

definition s02_check_pair ::
    "msg \<Rightarrow> string \<Rightarrow> obj \<Rightarrow> string set \<Rightarrow> (obj \<times> string set) res" where
  "s02_check_pair scope instrumentation pair seen_paths =
    foldm (\<lambda>(validated_pair, seen) role.
      bnd (s02_required_str pair role (scope @ [Txt (''.'' @ instrumentation)])) (\<lambda>artifact.
      if artifact \<in> seen then Inl (ManifestError (scope @ [Txt (''.'' @ instrumentation @ ''.'' @ role @
           '' duplicates artifact path ''), Rep (JStr artifact)]))
      else Inr (AList.update role (JStr artifact) validated_pair, insert artifact seen)))
    ([], seen_paths) EXPECTED_ENDPOINT_ROLES"

definition s02_validate_endpoint_artifacts :: "nat \<Rightarrow> string \<Rightarrow> json \<Rightarrow> obj res" where
  "s02_validate_endpoint_artifacts index label v =
    (let scope = [Txt (''workloads['' @ str_nat index @ ''] label=''), Rep (JStr label),
                  Txt '' endpoint_artifacts''] in
     case v of JObj endpoint_artifacts \<Rightarrow>
       bnd (foldm (\<lambda>(validated, seen_paths) instrumentation.
              case dget endpoint_artifacts instrumentation of
                JObj pair \<Rightarrow>
                  bnd (s02_check_pair scope instrumentation pair seen_paths) (\<lambda>(validated_pair, seen).
                  Inr (AList.update instrumentation (JObj validated_pair) validated, seen))
              | _ \<Rightarrow> Inl (ManifestError (scope @ [Txt ('' missing '' @ instrumentation @ '' object'')])))
            ([], {}) [''off'', ''on'']) (\<lambda>(validated, seen_paths).
       Inr validated)
     | _ \<Rightarrow> Inl (ManifestError (scope @ [Txt '' must be an object''])))"

definition s02_merged :: "obj \<Rightarrow> obj \<Rightarrow> string \<Rightarrow> string \<Rightarrow> obj \<Rightarrow> obj" where
  "s02_merged defaults entry label rpc endpoint_artifacts =
    AList.update ''endpoint_artifacts'' (JObj endpoint_artifacts)
    (AList.update ''rpc'' (JStr rpc)
    (AList.update ''label'' (JStr label) (dict_update defaults entry)))"

definition s02_check_fields :: "msg \<Rightarrow> string \<Rightarrow> string \<Rightarrow> obj \<Rightarrow> unit res" where
  "s02_check_fields scope label rpc merged =
    (let int_field = (\<lambda>k. bnd (s02_required_positive_int merged k scope) (\<lambda>_. Inr ()));
         str_field = (\<lambda>k. bnd (s02_required_str merged k scope) (\<lambda>_. Inr ())) in
     if \<not> nonneg_int (dget merged ''warmup_ms'') then
       Inl (ManifestError (scope @ [Txt '' field warmup_ms must be a non-negative integer''])) else
     bnd (each int_field [''measure_ms'', ''requests'', ''concurrency'']) (\<lambda>_.
     bnd (each str_field [''runtime'', ''compression'', ''buffer_policy'']) (\<lambda>_.
     if rpc = ''unary-bytes'' then
       bnd (int_field ''payload_size'') (\<lambda>_. str_field ''payload_kind'')
     else if rpc = ''unary-proto-shape'' then
       bnd (str_field ''proto_shape'') (\<lambda>_. str_field ''response_shape'')
     else Inl (ManifestError (scope @ [Txt '' label='', Rep (JStr label),
            Txt '' has unsupported rpc mode '', Rep (JStr rpc)])))))"

definition s02_validate_workload ::
    "nat \<Rightarrow> json \<Rightarrow> obj \<Rightarrow> string set \<Rightarrow> (obj \<times> string set) res" where
  "s02_validate_workload index v defaults seen_labels =
    (let scope = [Txt (''workloads['' @ str_nat index @ '']'')] in
     case v of JObj entry \<Rightarrow>
       bnd (s02_required_str entry ''label'' scope) (\<lambda>label.
       if label \<in> seen_labels then
         Inl (ManifestError (scope @ [Txt '' label='', Rep (JStr label), Txt '' is duplicated''])) else
       bnd (s02_required_str entry ''rpc'' scope) (\<lambda>rpc.
       case dget entry ''endpoint_artifacts'' of
         JObj artifacts \<Rightarrow>
           bnd (s02_validate_endpoint_artifacts index label (JObj artifacts)) (\<lambda>validated.
           let merged = s02_merged defaults entry label rpc validated in
           bnd (s02_check_fields scope label rpc merged) (\<lambda>_.
           Inr (merged, insert label seen_labels)))
       | _ \<Rightarrow> Inl (ManifestError (scope @ [Txt '' missing endpoint_artifacts object'']))))
     | _ \<Rightarrow> Inl (ManifestError (scope @ [Txt '' must be an object''])))"

fun s02_check_benchmarks :: "nat \<Rightarrow> json list \<Rightarrow> string list res" where
  "s02_check_benchmarks index [] = Inr []"
| "s02_check_benchmarks index (v # vs) = (case v of
     JStr name \<Rightarrow> (if name = [] then Inl (ManifestError [Txt (''manifest.expected_benchmarks['' @
         str_nat index @ ''] must be a non-empty string'')])
       else bnd (s02_check_benchmarks (Suc index) vs) (\<lambda>names. Inr (name # names)))
   | _ \<Rightarrow> Inl (ManifestError [Txt (''manifest.expected_benchmarks['' @ str_nat index @
         ''] must be a non-empty string'')]))"

definition s02_load_manifest :: "world \<Rightarrow> path \<Rightarrow> s02_manifest res" where
  "s02_load_manifest w p =
    bnd (except_as (except_as (bnd (fs_read w p) (json_loads w)) os_error_text (\<lambda>err.
           ManifestError [Txt (''manifest read failed ('' @ path_str p @ ''): '' @ err)]))
         json_error_text (\<lambda>err.
           ManifestError [Txt (''manifest parse failed ('' @ path_str p @ ''): '' @ err)])) (\<lambda>root.
    case root of JObj manifest \<Rightarrow>
     (case (let v = dget manifest ''defaults'' in if truthy v then v else JObj []) of JObj defaults \<Rightarrow>
      (case dget manifest ''expected_benchmarks'' of JArr expected \<Rightarrow>
        (if expected = [] then Inl (ManifestError
           [Txt ''manifest.expected_benchmarks must be a non-empty array'']) else
         bnd (s02_check_benchmarks 0 expected) (\<lambda>benchmarks.
         if sort benchmarks \<noteq> sort EXPECTED_BENCHMARKS then Inl (ManifestError
           [Txt (''manifest.expected_benchmarks must match the async control-floor suite: '' @
                 joined '', '' EXPECTED_BENCHMARKS)]) else
         case dget manifest ''workloads'' of JArr workloads \<Rightarrow>
           (if workloads = [] then
              Inl (ManifestError [Txt ''manifest.workloads must be a non-empty array'']) else
            bnd (check_entries (\<lambda>i v. s02_validate_workload i v defaults) 0 {} workloads)
              (\<lambda>(validated, seen_labels).
            let labels = set (map (\<lambda>e. dget e ''label'') validated);
                missing = sort (filter (\<lambda>l. JStr l \<notin> labels) s02_required_labels) in
            if missing \<noteq> [] then Inl (ManifestError
              [Txt (''manifest.workloads missing required trust-verification labels: '' @
                    joined '', '' missing)])
            else Inr \<lparr>s02_version = dget manifest ''version'', s02_defaults = defaults,
                      s02_expected_benchmarks = benchmarks, s02_workloads = validated\<rparr>))
         | _ \<Rightarrow> Inl (ManifestError [Txt ''manifest.workloads must be a non-empty array''])))
      | _ \<Rightarrow> Inl (ManifestError [Txt ''manifest.expected_benchmarks must be a non-empty array'']))
     | _ \<Rightarrow> Inl (ManifestError [Txt ''manifest.defaults must be an object'']))
    | _ \<Rightarrow> Inl (ManifestError [Txt ''manifest root must be an object'']))"


section \<open>Running the workloads\<close>

definition s02_locate_binary :: "world \<Rightarrow> string option \<Rightarrow> path res" where
  "s02_locate_binary w explicit =
    (let p = (case explicit of
                Some e \<Rightarrow> if e = [] then path_of ''accel-rpc/target/release/tonic-profile''
                          else path_of e
              | None \<Rightarrow> path_of ''accel-rpc/target/release/tonic-profile'') in
     if \<not> fs_exists w p then
       Inl (RunError [Txt (''tonic-profile binary not found at '' @ path_str p @
         ''; build it first with cargo build --release -p tonic-profile --manifest-path accel-rpc/Cargo.toml'')])
     else Inr (fs_resolve w p))"

definition s02_reserve_addr :: "host \<Rightarrow> string io" where
  "s02_reserve_addr h s = (case h_addr h (tick s) of (a, port) \<Rightarrow>
     Some (Inr (a @ '':'' @ str_int port), ext h Bind s))"

text \<open>The module still has its own copies of three process helpers, which its run no longer calls.\<close>

definition s02_drain_process_output :: "host \<Rightarrow> nat \<Rightarrow> (string \<times> string) io" where
  "s02_drain_process_output h pid = communicate h pid"

definition s02_terminate_process :: "host \<Rightarrow> nat \<Rightarrow> string \<Rightarrow> string \<Rightarrow> path \<Rightarrow> unit io" where
  "s02_terminate_process h pid label phase artifact_path = stop_process h pid
     [Txt (''label='' @ label @ '' phase='' @ phase @ '' endpoint_role=server artifact='' @
       path_str artifact_path @ '' process did not exit after SIGTERM; sending SIGKILL'')]"

definition s02_wait_for_port ::
    "host \<Rightarrow> nat \<Rightarrow> string \<Rightarrow> pyfloat \<Rightarrow> string \<Rightarrow> string \<Rightarrow> path \<Rightarrow> unit io" where
  "s02_wait_for_port h pid addr timeout_s label instrumentation artifact_path =
    (let head = ''label='' @ label @ '' phase=server-startup instrumentation='' @ instrumentation @
                '' endpoint_role=server artifact='' @ path_str artifact_path in
    iobnd (lift (split_addr addr)) (\<lambda>(a, port).
    iobnd (monotonic h) (\<lambda>now.
    wait_loop h pid a port (fadd now timeout_s)
      (iobnd (s02_drain_process_output h pid) (\<lambda>(so, se).
       iobnd (returncode pid) (\<lambda>rc.
       raise_io (RunError (output_msg (head @ '' exit='' @ rc_text rc) so se)))))
      (RunError [Txt (head @ '' timeout after '' @ fmt_fixed 1 timeout_s @ ''s'')]))))"

definition s02_build_common_args :: "obj \<Rightarrow> string \<Rightarrow> arg list res" where
  "s02_build_common_args entry addr = build_rpc_args entry addr"

text \<open>\<open>hash(...)\<close> is the host's hash of the three texts.\<close>

definition s02_run_id :: "host \<Rightarrow> int \<Rightarrow> string \<Rightarrow> string \<Rightarrow> string \<Rightarrow> string" where
  "s02_run_id h now label instrumentation addr =
    ''run-s02-'' @ str_int now @ ''-'' @ instrumentation @ ''-'' @
    str_int (\<bar>h_hash h [label, instrumentation, addr]\<bar> mod 1000000)"

definition s02_server_cmd ::
    "path \<Rightarrow> string \<Rightarrow> arg list \<Rightarrow> string \<Rightarrow> json \<Rightarrow> path \<Rightarrow> arg list" where
  "s02_server_cmd binary instrumentation common_args run_id requests server_artifact =
    [lit (path_str binary), lit ''--mode'', lit ''server'', lit ''--instrumentation'', lit instrumentation]
    @ common_args @
    [lit ''--run-id'', lit run_id, lit ''--shutdown-after-requests'', StrOf requests,
     lit ''--server-json-out'', lit (path_str server_artifact)]"

definition s02_client_cmd ::
    "path \<Rightarrow> string \<Rightarrow> arg list \<Rightarrow> string \<Rightarrow> path \<Rightarrow> arg list" where
  "s02_client_cmd binary instrumentation common_args run_id client_artifact =
    [lit (path_str binary), lit ''--mode'', lit ''client'', lit ''--instrumentation'', lit instrumentation]
    @ common_args @ [lit ''--run-id'', lit run_id, lit ''--json-out'', lit (path_str client_artifact)]"

text \<open>\<open>output_dir / entry["endpoint_artifacts"][instrumentation][role]\<close>\<close>

definition s02_artifact :: "path \<Rightarrow> obj \<Rightarrow> string \<Rightarrow> string \<Rightarrow> path res" where
  "s02_artifact output_dir entry instrumentation role =
    bnd (item entry ''endpoint_artifacts'') (\<lambda>artifacts.
    bnd (subscr artifacts instrumentation) (\<lambda>pair.
    bnd (subscr pair role) (\<lambda>v.
    bnd (as_str v) (\<lambda>name. Inr (path_div output_dir name)))))"

definition s02_run_one ::
    "host \<Rightarrow> path \<Rightarrow> path \<Rightarrow> pyfloat \<Rightarrow> pyfloat \<Rightarrow> pyfloat \<Rightarrow> obj \<Rightarrow> string \<Rightarrow> unit io" where
  "s02_run_one h binary output_dir start_timeout client_timeout flush_timeout entry instrumentation =
    iobnd (lift (bnd (item entry ''label'') as_str)) (\<lambda>label.
    iobnd (s02_reserve_addr h) (\<lambda>addr.
    iobnd (time_us h) (\<lambda>now.
    let run_id = s02_run_id h now label instrumentation addr in
    iobnd (lift (s02_build_common_args entry addr)) (\<lambda>common_args.
    iobnd (lift (s02_artifact output_dir entry instrumentation ''client'')) (\<lambda>client_artifact.
    iobnd (lift (s02_artifact output_dir entry instrumentation ''server'')) (\<lambda>server_artifact.
    iobnd (lift (item entry ''requests'')) (\<lambda>requests.
    run_server_client_pair h
      \<lparr>pa_label = label,
       pa_server_cmd = s02_server_cmd binary instrumentation common_args run_id requests server_artifact,
       pa_client_cmd = s02_client_cmd binary instrumentation common_args run_id client_artifact,
       pa_server_artifact = server_artifact, pa_client_artifact = client_artifact,
       pa_bind_addr = addr, pa_target_addr = addr,
       pa_server_start_timeout = start_timeout, pa_client_timeout = client_timeout,
       pa_server_flush_timeout = flush_timeout, pa_error_cls = RunError,
       pa_context = [(''instrumentation'', instrumentation)],
       pa_cleanup_phase = ''cleanup instrumentation='' @ instrumentation\<rparr>)))))))"

definition s02_run_manifest ::
    "host \<Rightarrow> s02_manifest \<Rightarrow> path \<Rightarrow> path \<Rightarrow> pyfloat \<Rightarrow> pyfloat \<Rightarrow> pyfloat \<Rightarrow> unit io" where
  "s02_run_manifest h manifest binary output_dir start_timeout client_timeout flush_timeout =
    iobnd (mkdir_p h output_dir) (\<lambda>_.
    ioeach (\<lambda>entry. ioeach
        (s02_run_one h binary output_dir start_timeout client_timeout flush_timeout entry)
        [''off'', ''on''])
      (s02_workloads manifest))"


section \<open>Checking a report\<close>

definition s02_parse_json :: "world \<Rightarrow> path \<Rightarrow> obj res" where
  "s02_parse_json w p =
    bnd (except_as (fs_read w p) os_error_text (\<lambda>err.
           RunError [Txt (''artifact read failed ('' @ path_str p @ ''): '' @ err)])) (\<lambda>raw.
    if strip raw = [] then
      Inl (RunError [Txt (''artifact validation failed path='' @ path_str p @ '': file is empty'')])
    else
    bnd (except_as (json_loads w raw) json_error_text (\<lambda>err.
           RunError [Txt (''artifact validation failed path='' @ path_str p @ '': invalid json: '' @ err)]))
      (\<lambda>value. case value of
         JObj d \<Rightarrow> Inr d
       | _ \<Rightarrow> Inl (RunError [Txt (''artifact validation failed path='' @ path_str p @
                '': root must be an object'')])))"

definition s02_require_key :: "obj \<Rightarrow> path \<Rightarrow> string \<Rightarrow> json res" where
  "s02_require_key d p key = (case map_of d key of
       None \<Rightarrow> Inl (RunError [Txt (''artifact validation failed path='' @ path_str p @ '': missing '' @ key)])
     | Some v \<Rightarrow> Inr v)"

definition s02_stage_triplet :: "obj \<Rightarrow> string \<Rightarrow> (int \<times> int \<times> int) res" where
  "s02_stage_triplet report stage_name =
    bnd (item report ''stages'') (\<lambda>stages.
    bnd (subscr stages stage_name) (\<lambda>stage.
    bnd (bnd (get_method stage ''count'' (JInt 0)) py_int) (\<lambda>count.
    bnd (bnd (get_method stage ''nanos'' (JInt 0)) py_int) (\<lambda>nanos.
    bnd (bnd (get_method stage ''bytes'' (JInt 0)) py_int) (\<lambda>bytes.
    Inr (count, nanos, bytes))))))"

fun s02_all_zero :: "obj \<Rightarrow> string list \<Rightarrow> bool res" where
  "s02_all_zero report [] = Inr True"
| "s02_all_zero report (n # ns) = bnd (s02_stage_triplet report n) (\<lambda>t.
     if t = (0, 0, 0) then s02_all_zero report ns else Inr False)"

definition s02_placeholder_only :: "obj \<Rightarrow> bool res" where
  "s02_placeholder_only report = s02_all_zero report REQUIRED_STAGE_NAMES"

text \<open>The prefix all its messages share.\<close>

definition s02_report_error :: "json \<Rightarrow> string \<Rightarrow> string \<Rightarrow> path \<Rightarrow> msg \<Rightarrow> exn" where
  "s02_report_error label instrumentation role p m = RunError ([Txt ''label='', str_frag label,
     Txt ('' phase=artifact-validation instrumentation='' @ instrumentation @ '' endpoint_role='' @ role @
       '' artifact='' @ path_str p @ '' '')] @ m)"

definition s02_check_stage :: "(msg \<Rightarrow> exn) \<Rightarrow> path \<Rightarrow> obj \<Rightarrow> string \<Rightarrow> unit res" where
  "s02_check_stage err p stages stage_name =
    bnd (s02_require_key stages p stage_name) (\<lambda>stage. case stage of
      JObj d \<Rightarrow> each (\<lambda>f. if \<not> has_key d f then
                 Inl (err [Txt (''missing stages.'' @ stage_name @ ''.'' @ f)]) else Inr ())
               REQUIRED_STAGE_COUNTER_FIELDS
    | _ \<Rightarrow> Inl (err [Txt (''stages.'' @ stage_name @ '' must be an object'')]))"

definition s02_check_metadata :: "(msg \<Rightarrow> exn) \<Rightarrow> obj \<Rightarrow> string \<Rightarrow> string \<Rightarrow> json \<Rightarrow> obj \<Rightarrow> unit res" where
  "s02_check_metadata err entry instrumentation role label metadata =
    bnd (item entry ''rpc'') (\<lambda>rpc.
    bnd (item entry ''buffer_policy'') (\<lambda>buffer_policy.
    let positive = (\<lambda>field. if \<not> positive_int (dget metadata field) then
          Inl (err [Txt (''metadata.'' @ field @ '' must be a positive integer'')]) else Inr ()) in
    bnd (each (\<lambda>(key, expected). let actual = dget metadata key in
           if \<not> py_eq actual expected then Inl (err
             [Txt (''metadata.'' @ key @ ''=''), Rep actual, Txt '' expected '', Rep expected])
           else Inr ())
         [(''mode'', JStr role), (''endpoint_role'', JStr role), (''ordinary_path'', JStr ''software''),
          (''seam'', JStr ''codec_body''), (''rpc'', rpc), (''workload_label'', label),
          (''instrumentation'', JStr instrumentation), (''buffer_policy'', buffer_policy)]) (\<lambda>_.
    if \<not> nonempty_str (dget metadata ''run_id'') then
      Inl (err [Txt ''metadata.run_id must be a non-empty string'']) else
    bnd (each positive [''effective_codec_buffer_size'', ''effective_codec_yield_threshold'']) (\<lambda>_.
    bnd (each positive [''request_serialized_size'', ''response_serialized_size'']) (\<lambda>_.
    if rpc = JStr ''unary-bytes'' then
      bnd (item entry ''payload_size'') (\<lambda>payload_size.
      if \<not> py_eq (dget metadata ''payload_size'') payload_size then
        Inl (err [Txt ''metadata.payload_size mismatch'']) else
      bnd (item entry ''payload_kind'') (\<lambda>payload_kind.
      if \<not> py_eq (dget metadata ''payload_kind'') payload_kind then
        Inl (err [Txt ''metadata.payload_kind mismatch'']) else Inr ()))
    else
      bnd (item entry ''proto_shape'') (\<lambda>proto_shape.
      if \<not> py_eq (dget metadata ''request_shape'') proto_shape then
        Inl (err [Txt ''metadata.request_shape mismatch'']) else
      bnd (item entry ''response_shape'') (\<lambda>response_shape.
      if \<not> py_eq (dget metadata ''response_shape'') response_shape then
        Inl (err [Txt ''metadata.response_shape mismatch'']) else Inr ())))))))"

definition s02_validate_report :: "obj \<Rightarrow> string \<Rightarrow> string \<Rightarrow> path \<Rightarrow> obj \<Rightarrow> unit res" where
  "s02_validate_report entry instrumentation role p report =
    bnd (item entry ''label'') (\<lambda>label. let err = s02_report_error label instrumentation role p in
    bnd (s02_require_key report p ''metadata'') (\<lambda>metadata_v.
    bnd (s02_require_key report p ''metrics'') (\<lambda>metrics_v.
    bnd (s02_require_key report p ''stages'') (\<lambda>stages_v.
    case metadata_v of JObj metadata \<Rightarrow>
     (case metrics_v of JObj metrics \<Rightarrow>
       (case stages_v of JObj stages \<Rightarrow>
         bnd (s02_check_metadata err entry instrumentation role label metadata) (\<lambda>_.
         if \<not> positive_int (dget metrics ''requests_completed'') then
           Inl (err [Txt ''metrics.requests_completed must be a positive integer'']) else
         let enabled = dget stages ''enabled''; expected_enabled = (instrumentation = ''on'') in
         if enabled \<noteq> JBool expected_enabled then Inl (err [Txt ''stages.enabled='', Rep enabled,
           Txt '' expected '', Rep (JBool expected_enabled)]) else
         bnd (each (s02_check_stage err p stages) REQUIRED_STAGE_NAMES) (\<lambda>_.
         if instrumentation = ''on'' then
           bnd (s02_placeholder_only report) (\<lambda>only.
           if only then Inl (err [Txt ''counters stayed placeholder-only'']) else Inr ())
         else Inr ()))
       | _ \<Rightarrow> Inl (err [Txt ''stages must be an object'']))
     | _ \<Rightarrow> Inl (err [Txt ''metrics must be an object'']))
    | _ \<Rightarrow> Inl (err [Txt ''metadata must be an object''])))))"


section \<open>Checking all reports\<close>

text \<open>The body of the innermost loop: one report of one endpoint.\<close>

definition s02_validate_endpoint ::
    "path \<Rightarrow> obj \<Rightarrow> string \<Rightarrow> string \<Rightarrow> signatures \<Rightarrow> (obj \<times> signatures) io" where
  "s02_validate_endpoint output_dir entry instrumentation role sigs =
    iobnd (lift (item entry ''label'')) (\<lambda>label.
    iobnd (lift (s02_artifact output_dir entry instrumentation role)) (\<lambda>p.
    let err = s02_report_error label instrumentation role p in
    iobnd (look (\<lambda>w. if \<not> fs_exists w p then Inl (err [Txt ''missing artifact''])
                     else s02_parse_json w p)) (\<lambda>report.
    iobnd (lift (s02_validate_report entry instrumentation role p report)) (\<lambda>_.
    iobnd (say [Txt ''label='', str_frag label, Txt ('' phase=artifact-validation instrumentation='' @
             instrumentation @ '' endpoint_role='' @ role @ '' artifact='' @ path_str p @
             '' verdict=pass'')]) (\<lambda>_.
    if instrumentation = ''on'' then
      iobnd (lift (report_signature report)) (\<lambda>sg. ret (report, add_signature sigs role label sg))
    else ret (report, sigs))))))"

text \<open>The comparison of the client's and the server's report.\<close>

definition s02_compare :: "json \<Rightarrow> string \<Rightarrow> path \<Rightarrow> obj \<Rightarrow> obj \<Rightarrow> unit res" where
  "s02_compare label instrumentation output_dir client_report server_report =
    (let head = [Txt ''label='', str_frag label, Txt ('' phase=artifact-validation instrumentation='' @
           instrumentation @ '' endpoint_role=client/server artifact='' @ path_str output_dir @ '' '')] in
     bnd (report_run_id client_report) (\<lambda>client_run_id.
     bnd (report_run_id server_report) (\<lambda>server_run_id.
     if \<not> py_eq client_run_id server_run_id then Inl (RunError (head @ [Txt ''run_id mismatch client='',
         Rep client_run_id, Txt '' server='', Rep server_run_id])) else
     bnd (report_label client_report) (\<lambda>client_label.
     bnd (report_label server_report) (\<lambda>server_label.
     if \<not> py_eq client_label server_label then Inl (RunError (head @ [Txt ''workload_label mismatch'']))
     else Inr ())))))"

definition s02_validate_pair :: "path \<Rightarrow> obj \<Rightarrow> signatures \<Rightarrow> string \<Rightarrow> signatures io" where
  "s02_validate_pair output_dir entry sigs instrumentation =
    iobnd (s02_validate_endpoint output_dir entry instrumentation ''client'' sigs) (\<lambda>(client_report, sigs1).
    iobnd (s02_validate_endpoint output_dir entry instrumentation ''server'' sigs1) (\<lambda>(server_report, sigs2).
    iobnd (lift (item entry ''label'')) (\<lambda>label.
    iobnd (lift (s02_compare label instrumentation output_dir client_report server_report)) (\<lambda>_.
    ret sigs2))))"

definition s02_validate_entry :: "path \<Rightarrow> signatures \<Rightarrow> obj \<Rightarrow> signatures io" where
  "s02_validate_entry output_dir sigs entry =
    iofold (s02_validate_pair output_dir entry) sigs [''off'', ''on'']"

definition s02_sensitivity :: "path \<Rightarrow> signatures \<Rightarrow> string \<Rightarrow> unit io" where
  "s02_sensitivity output_dir sigs role =
    (let d = (case map_of sigs role of Some d \<Rightarrow> d | None \<Rightarrow> []);
         head = ''phase=workload-sensitivity instrumentation=on endpoint_role='' @ role @
                '' artifact='' @ path_str output_dir in
     if length (remdups (map snd d)) \<le> 1 then raise_io (RunError [Txt (head @ '' labels='' @
         joined '', '' (label_texts d) @ '' stage signatures were identical across workloads'')])
     else say [Txt (head @ '' verdict=pass workloads='' @ str_nat (length d))])"

definition s02_validate_artifacts :: "s02_manifest \<Rightarrow> path \<Rightarrow> unit io" where
  "s02_validate_artifacts manifest output_dir =
    iobnd (iofold (s02_validate_entry output_dir) (map (\<lambda>role. (role, [])) EXPECTED_ENDPOINT_ROLES)
             (s02_workloads manifest)) (\<lambda>on_signatures.
    ioeach (s02_sensitivity output_dir on_signatures) EXPECTED_ENDPOINT_ROLES)"


section \<open>The command\<close>

record s02_args =
  s02_arg_manifest :: string
  s02_arg_output_dir :: "string option"
  s02_arg_binary :: "string option"
  s02_arg_validate_only :: bool
  s02_arg_verify_only :: bool
  s02_arg_server_start_timeout :: pyfloat
  s02_arg_client_timeout :: pyfloat
  s02_arg_server_flush_timeout :: pyfloat

definition s02_main :: "host \<Rightarrow> s02_args \<Rightarrow> int io" where
  "s02_main h args =
    (if s02_arg_validate_only args \<and> s02_arg_verify_only args then
       iobnd (fail [Txt ''--validate-only and --verify-only are mutually exclusive'']) (\<lambda>_. ret 2)
     else try_except
      (iobnd (look (\<lambda>w. Inr (fs_resolve w (path_of (s02_arg_manifest args))))) (\<lambda>manifest_path.
       iobnd (look (\<lambda>w. s02_load_manifest w manifest_path)) (\<lambda>manifest.
       iobnd (say [Txt (''phase=manifest-parse manifest='' @ path_str manifest_path @ '' workloads='' @
                str_nat (length (s02_workloads manifest)) @ '' expected_benchmarks='' @
                str_nat (length (s02_expected_benchmarks manifest)))]) (\<lambda>_.
       if s02_arg_validate_only args then ret 0 else
       if s02_arg_output_dir args = None \<or> s02_arg_output_dir args = Some [] then
         raise_io (RunError [Txt ''--output-dir is required unless --validate-only is used'']) else
       iobnd (look (\<lambda>w. Inr (fs_resolve w (path_of (the (s02_arg_output_dir args)))))) (\<lambda>output_dir.
       if s02_arg_verify_only args then
         iobnd (s02_validate_artifacts manifest output_dir) (\<lambda>_.
         iobnd (say [Txt (''phase=artifact-validation-complete output_dir='' @ path_str output_dir)])
           (\<lambda>_. ret 0))
       else
         iobnd (look (\<lambda>w. s02_locate_binary w (s02_arg_binary args))) (\<lambda>binary.
         iobnd (s02_run_manifest h manifest binary output_dir (s02_arg_server_start_timeout args)
                  (s02_arg_client_timeout args) (s02_arg_server_flush_timeout args)) (\<lambda>_.
         iobnd (s02_validate_artifacts manifest output_dir) (\<lambda>_.
         iobnd (say [Txt (''phase=run-complete output_dir='' @ path_str output_dir)]) (\<lambda>_.
         ret 0)))))))))
      is_script_error (\<lambda>err. iobnd (fail (exn_msg err)) (\<lambda>_. ret 1)))"


section \<open>Lemmas: the manifest\<close>

lemma s02_required_str_iff [res_iff]:
  "s02_required_str d key scope = Inr v \<longleftrightarrow> map_of d key = Some (JStr v) \<and> v \<noteq> []"
  by (auto simp: s02_required_str_def dget_eq_iff [symmetric] split: json.splits)

lemma s02_required_positive_int_iff [res_iff]:
  "s02_required_positive_int d key scope = Inr v \<longleftrightarrow> map_of d key = Some v \<and> positive_int v"
  by (cases "map_of d key") (auto simp: s02_required_positive_int_def dget_def positive_int_def)

lemma s02_required_raises [errs]:
  "raises is_manifest_error (s02_required_str d key scope)"
  "raises is_manifest_error (s02_required_positive_int d key scope)"
  unfolding s02_required_str_def s02_required_positive_int_def Let_def by (intro errs; simp)+

lemma s02_check_pair_iff [res_iff]:
  "s02_check_pair scope instr pair seen = Inr (vp, seen') \<longleftrightarrow>
    (\<exists>c s. map_of pair ''client'' = Some (JStr c) \<and> c \<noteq> [] \<and> c \<notin> seen \<and>
       map_of pair ''server'' = Some (JStr s) \<and> s \<noteq> [] \<and> s \<notin> seen \<and> s \<noteq> c \<and>
       vp = [(''client'', JStr c), (''server'', JStr s)] \<and> seen' = {c, s} \<union> seen)"
  unfolding s02_check_pair_def EXPECTED_ENDPOINT_ROLES_def by (auto simp: res_iff)

lemma s02_check_pair_raises [errs]: "raises is_manifest_error (s02_check_pair scope instr pair seen)"
  unfolding s02_check_pair_def by (intro errs) simp_all

text \<open>The shape of validated artifact names: off and on, client and server, all different.\<close>

definition s02_artifacts_ok :: "obj \<Rightarrow> bool" where
  "s02_artifacts_ok d \<longleftrightarrow> (\<exists>oc os nc ns. distinct [oc, os, nc, ns] \<and> [] \<notin> {oc, os, nc, ns} \<and>
     d = [(''off'', JObj [(''client'', JStr oc), (''server'', JStr os)]),
          (''on'', JObj [(''client'', JStr nc), (''server'', JStr ns)])])"

lemma s02_validate_endpoint_artifacts_iff [res_iff]:
  "s02_validate_endpoint_artifacts i l v = Inr d \<longleftrightarrow>
    (\<exists>ea p q. v = JObj ea \<and> map_of ea ''off'' = Some (JObj p) \<and> map_of ea ''on'' = Some (JObj q) \<and>
       (\<exists>oc os nc ns. map_of p ''client'' = Some (JStr oc) \<and> map_of p ''server'' = Some (JStr os) \<and>
          map_of q ''client'' = Some (JStr nc) \<and> map_of q ''server'' = Some (JStr ns) \<and>
          distinct [oc, os, nc, ns] \<and> [] \<notin> {oc, os, nc, ns} \<and>
          d = [(''off'', JObj [(''client'', JStr oc), (''server'', JStr os)]),
               (''on'', JObj [(''client'', JStr nc), (''server'', JStr ns)])]))"
  unfolding s02_validate_endpoint_artifacts_def
  by (auto simp: res_iff Let_def dget_eq_iff)

lemma s02_validate_endpoint_artifacts_raises [errs]:
  "raises is_manifest_error (s02_validate_endpoint_artifacts i l v)"
  unfolding s02_validate_endpoint_artifacts_def Let_def by (intro errs) simp_all

lemma s02_check_fields_iff [res_iff]:
  assumes "dget m ''rpc'' = JStr rpc"
  shows "s02_check_fields scope l rpc m = Inr u \<longleftrightarrow> rpc_ready m"
proof -
  have pos: "(\<exists>v. map_of m k = Some v \<and> positive_int v) \<longleftrightarrow> posint_field m k" for k
    by (simp add: posint_field_iff)
  have str: "(\<exists>v. map_of m k = Some (JStr v) \<and> v \<noteq> []) \<longleftrightarrow> str_field m k" for k
    by (simp add: str_field_iff)
  show ?thesis using assms
    by (auto simp: s02_check_fields_def rpc_ready_def shape_ready_def nonneg_field_def res_iff pos str)
qed

lemma s02_check_fields_raises [errs]: "raises is_manifest_error (s02_check_fields scope l rpc m)"
  unfolding s02_check_fields_def Let_def by (intro errs) simp_all

lemma s02_validate_raises [errs]: "raises is_manifest_error (s02_validate_workload i v defaults seen)"
  unfolding s02_validate_workload_def Let_def by (intro errs) simp_all

lemma s02_merged_fields [simp]:
  "dget (s02_merged defaults entry label rpc ea) ''label'' = JStr label"
  "dget (s02_merged defaults entry label rpc ea) ''rpc'' = JStr rpc"
  "dget (s02_merged defaults entry label rpc ea) ''endpoint_artifacts'' = JObj ea"
  "map_of (s02_merged defaults entry label rpc ea) ''label'' = Some (JStr label)"
  by (simp_all add: s02_merged_def dget_def)

definition s02_good :: "obj \<Rightarrow> bool" where
  "s02_good m \<longleftrightarrow> str_field m ''label'' \<and> rpc_ready m \<and>
     obj_field m ''endpoint_artifacts'' \<and> s02_artifacts_ok (sub m ''endpoint_artifacts'')"

lemma s02_validate_Inr_iff:
  "s02_validate_workload i v defaults seen = Inr (m, seen') \<longleftrightarrow>
    (\<exists>entry label rpc ea d. v = JObj entry \<and>
       map_of entry ''label'' = Some (JStr label) \<and> label \<noteq> [] \<and> label \<notin> seen \<and>
       map_of entry ''rpc'' = Some (JStr rpc) \<and> rpc \<noteq> [] \<and>
       map_of entry ''endpoint_artifacts'' = Some (JObj ea) \<and>
       s02_validate_endpoint_artifacts i label (JObj ea) = Inr d \<and>
       m = s02_merged defaults entry label rpc d \<and> rpc_ready m \<and> seen' = insert label seen)"
proof -
  have d: "dget entry k = JObj x \<longleftrightarrow> map_of entry k = Some (JObj x)" for entry k x
    by (simp add: dget_eq_iff)
  show ?thesis
    unfolding s02_validate_workload_def
    by (simp add: bnd_Inr_iff if_raise_iff case_obj_iff s02_required_str_iff s02_check_fields_iff Let_def d)
      blast
qed

interpretation s02: workload_checker "\<lambda>i v. s02_validate_workload i v defaults" s02_good
  for defaults
proof
  fix i v seen m seen'
  assume "s02_validate_workload i v defaults seen = Inr (m, seen')"
  then obtain entry label rpc ea d where m: "m = s02_merged defaults entry label rpc d" "label \<noteq> []"
    "label \<notin> seen" "seen' = insert label seen" "rpc_ready m"
    and ea: "s02_validate_endpoint_artifacts i label (JObj ea) = Inr d"
    unfolding s02_validate_Inr_iff by blast
  from ea have "s02_artifacts_ok d"
    by (auto simp: s02_validate_endpoint_artifacts_iff s02_artifacts_ok_def)
  with m have "s02_good m"
    by (simp add: s02_good_def str_field_def obj_field_def sub_def)
  with m show "\<exists>l. map_of m ''label'' = Some (JStr l) \<and> l \<notin> seen \<and> seen' = insert l seen \<and> s02_good m"
    by simp
qed (rule s02_validate_raises)

lemma s02_check_benchmarks_iff [res_iff]:
  "s02_check_benchmarks i vs = Inr names \<longleftrightarrow> vs = map JStr names \<and> [] \<notin> set names"
proof (induction vs arbitrary: i names)
  case (Cons v vs)
  then show ?case by (cases v; cases names) (auto simp: res_iff)
qed auto

lemma s02_check_benchmarks_raises [errs]: "raises is_manifest_error (s02_check_benchmarks i vs)"
  by (induction vs arbitrary: i) (auto intro!: errs)

lemma s02_load_manifest_raises:
  "raises (\<lambda>e. is_manifest_error e \<or> bnd (fs_read w p) (json_loads w) = Inl e) (s02_load_manifest w p)"
proof (cases "bnd (fs_read w p) (json_loads w)")
  case (Inl e)
  then show ?thesis
    by (auto simp: s02_load_manifest_def raises_def except_as_def split: option.splits)
next
  case (Inr root)
  have "raises is_manifest_error (s02_load_manifest w p)"
    unfolding s02_load_manifest_def Inr except_as_def sum.case bnd_simps Let_def
    by (intro errs s02.entries_rejected) simp_all
  then show ?thesis by (rule raises_weaken) simp
qed

lemma s02_load_manifest_Inr:
  assumes "s02_load_manifest w p = Inr m"
  obtains "s02_workloads m \<noteq> []" "distinct (map label_of (s02_workloads m))"
    "list_all s02_good (s02_workloads m)"
    "mset (s02_expected_benchmarks m) = mset EXPECTED_BENCHMARKS"
    "set s02_required_labels \<subseteq> set (map label_of (s02_workloads m))"
proof -
  from assms obtain root defaults ws seen where ne: "ws \<noteq> []"
    and c: "check_entries (\<lambda>i v. s02_validate_workload i v defaults) 0 {} ws = Inr (s02_workloads m, seen)"
    and b: "sort (s02_expected_benchmarks m) = sort EXPECTED_BENCHMARKS"
    and l: "sort (filter (\<lambda>l. JStr l \<notin> set (map (\<lambda>e. dget e ''label'') (s02_workloads m)))
        s02_required_labels) = []"
    by (auto simp: s02_load_manifest_def res_iff Let_def) blast
  note e = s02.entries_accepted [OF c]
  have "s02_workloads m \<noteq> []" using e(1) ne by auto
  moreover have "list_all s02_good (s02_workloads m)" using e(5) by (simp add: list_all_iff)
  moreover have "mset (s02_expected_benchmarks m) = mset EXPECTED_BENCHMARKS"
    using b by (metis mset_sort)
  moreover have "set s02_required_labels \<subseteq> set (map label_of (s02_workloads m))"
    using l by (rule required_present)
  ultimately show ?thesis using that e(2) by blast
qed

text \<open>C23. A manifest that S02's \<open>load_manifest\<close> returns lists each benchmark of the control-floor
  suite exactly once, in any order; its workloads have distinct labels that include the two required
  ones; and each workload is complete and names four different artifacts. If it raises, then with a
  \<open>ManifestError\<close>, unless reading or decoding raised something the function does not catch.\<close>

theorem s02_load_manifest_outcome:
  "case s02_load_manifest w p of
     Inr m \<Rightarrow> s02_workloads m \<noteq> [] \<and> distinct (map label_of (s02_workloads m)) \<and>
       list_all s02_good (s02_workloads m) \<and>
       mset (s02_expected_benchmarks m) = mset EXPECTED_BENCHMARKS \<and>
       set s02_required_labels \<subseteq> set (map label_of (s02_workloads m))
   | Inl e \<Rightarrow> is_manifest_error e \<or> bnd (fs_read w p) (json_loads w) = Inl e"
proof (cases "s02_load_manifest w p")
  case (Inl e)
  then show ?thesis using raisesD [OF s02_load_manifest_raises] by simp
next
  case (Inr m)
  show ?thesis using Inr by (rule s02_load_manifest_Inr) (use Inr in auto)
qed


section \<open>Lemmas: the reports\<close>

lemma s02_require_key_iff [res_iff]: "s02_require_key d p k = Inr v \<longleftrightarrow> map_of d k = Some v"
  by (auto simp: s02_require_key_def split: option.splits)

lemma s02_check_stage_iff [res_iff]: "s02_check_stage err p stages n = Inr u \<longleftrightarrow> stage_ok stages n"
  by (auto simp: s02_check_stage_def stage_ok_def obj_field_iff list_all_iff res_iff)

lemma s02_good_fields:
  assumes "s02_good entry"
  shows "map_of entry ''label'' = Some (JStr (label_of entry))" "label_of entry \<noteq> []"
    "shape_ready entry" "str_field entry ''buffer_policy''"
    "posint_field entry ''requests''" "rpc_ready entry"
  using assms by (auto simp: s02_good_def rpc_ready_def str_field_iff label_of_def)

definition s02_metadata_ok :: "obj \<Rightarrow> string \<Rightarrow> string \<Rightarrow> obj \<Rightarrow> bool" where
  "s02_metadata_ok entry instr role metadata \<longleftrightarrow>
     fields_match metadata [(''mode'', JStr role), (''endpoint_role'', JStr role),
       (''ordinary_path'', JStr ''software''), (''seam'', JStr ''codec_body''),
       (''rpc'', dget entry ''rpc''), (''workload_label'', dget entry ''label''),
       (''instrumentation'', JStr instr), (''buffer_policy'', dget entry ''buffer_policy'')] \<and>
     str_field metadata ''run_id'' \<and>
     list_all (posint_field metadata) [''effective_codec_buffer_size'',
       ''effective_codec_yield_threshold'', ''request_serialized_size'', ''response_serialized_size''] \<and>
     payload_matches entry metadata (dget entry ''response_shape'')"

lemma s02_check_metadata_iff:
  assumes "s02_good entry"
  shows "s02_check_metadata err entry instr role (JStr (label_of entry)) metadata = Inr u \<longleftrightarrow>
    s02_metadata_ok entry instr role metadata"
proof -
  note g = s02_good_fields [OF assms]
  obtain bp where bp: "map_of entry ''buffer_policy'' = Some (JStr bp)"
    using g(4) by (auto simp: str_field_iff)
  show ?thesis
  proof (cases "dget entry ''rpc'' = JStr ''unary-bytes''")
    case True
    then have "map_of entry ''rpc'' = Some (JStr ''unary-bytes'')" by (simp add: dget_eq_iff)
    moreover obtain n k where "map_of entry ''payload_size'' = Some n"
      "map_of entry ''payload_kind'' = Some (JStr k)"
      using g(3) True by (auto simp: shape_ready_def posint_field_iff str_field_iff)
    ultimately show ?thesis using g(1) bp
      by (auto simp: s02_check_metadata_def s02_metadata_ok_def fields_match_def payload_matches_def
          posint_field_def str_field_def res_iff Let_def)
  next
    case False
    then have rpc: "map_of entry ''rpc'' = Some (JStr ''unary-proto-shape'')"
      using g(3) by (auto simp: shape_ready_def dget_eq_iff)
    moreover obtain q r where "map_of entry ''proto_shape'' = Some (JStr q)"
      "map_of entry ''response_shape'' = Some (JStr r)"
      using g(3) False by (auto simp: shape_ready_def str_field_iff)
    ultimately show ?thesis using g(1) bp
      by (auto simp: s02_check_metadata_def s02_metadata_ok_def fields_match_def payload_matches_def
          posint_field_def str_field_def res_iff Let_def)
  qed
qed

text \<open>What S02 demands of a report. A slot is an instrumentation mode and an endpoint role.\<close>

fun s02_report_ok :: "obj \<Rightarrow> string \<times> string \<Rightarrow> obj \<Rightarrow> bool" where
  "s02_report_ok entry (instr, role) report \<longleftrightarrow>
     list_all (obj_field report) [''metadata'', ''metrics'', ''stages''] \<and>
     s02_metadata_ok entry instr role (sub report ''metadata'') \<and>
     posint_field (sub report ''metrics'') ''requests_completed'' \<and>
     dget (sub report ''stages'') ''enabled'' = JBool (instr = ''on'') \<and>
     list_all (stage_ok (sub report ''stages'')) REQUIRED_STAGE_NAMES \<and>
     (instr = ''on'' \<longrightarrow> s02_placeholder_only report = Inr False)"

lemma s02_validate_report_iff:
  assumes "s02_good entry"
  shows "s02_validate_report entry instr role p report = Inr u \<longleftrightarrow> s02_report_ok entry (instr, role) report"
proof -
  have l: "item entry ''label'' = Inr (JStr (label_of entry))"
    using s02_good_fields(1) [OF assms] by (simp add: item_def)
  show ?thesis
  proof (cases "list_all (obj_field report) [''metadata'', ''metrics'', ''stages'']")
    case False
    have "s02_validate_report entry instr role p report \<noteq> Inr u"
      using False by (auto simp: s02_validate_report_def res_iff obj_field_iff Let_def)
    with False show ?thesis by auto
  next
    case True
    then obtain md ms st where m: "map_of report ''metadata'' = Some (JObj md)"
      "map_of report ''metrics'' = Some (JObj ms)" "map_of report ''stages'' = Some (JObj st)"
      by (auto simp: obj_field_iff)
    then have s: "sub report ''metadata'' = md" "sub report ''metrics'' = ms" "sub report ''stages'' = st"
      by simp_all
    show ?thesis using True
      unfolding s02_validate_report_def s02_report_ok.simps l s
      by (auto simp: res_iff m s02_check_metadata_iff [OF assms] posint_field_def list_all_iff Let_def)
  qed
qed

definition s02_slots :: "(string \<times> string) list" where
  "s02_slots = [(''off'', ''client''), (''off'', ''server''), (''on'', ''client''), (''on'', ''server'')]"

fun s02_path :: "path \<Rightarrow> obj \<Rightarrow> string \<times> string \<Rightarrow> path" where
  "s02_path output_dir entry (instr, role) =
    path_div output_dir (text_of (sub (sub entry ''endpoint_artifacts'') instr) role)"

lemma s02_artifact_path:
  assumes "s02_good entry" "(instr, role) \<in> set s02_slots"
  shows "s02_artifact output_dir entry instr role = Inr (s02_path output_dir entry (instr, role))"
proof -
  obtain oc os nc ns where "map_of entry ''endpoint_artifacts'' =
      Some (JObj [(''off'', JObj [(''client'', JStr oc), (''server'', JStr os)]),
          (''on'', JObj [(''client'', JStr nc), (''server'', JStr ns)])])"
    using assms(1) by (auto simp: s02_good_def s02_artifacts_ok_def obj_field_iff)
  then show ?thesis using assms(2)
    by (auto simp: s02_artifact_def s02_slots_def item_def text_of_def sub_def dget_def)
qed

definition s02_report :: "world \<Rightarrow> path \<Rightarrow> obj \<Rightarrow> string \<times> string \<Rightarrow> obj" where
  "s02_report w output_dir entry k = (case s02_parse_json w (s02_path output_dir entry k) of
     Inr r \<Rightarrow> r | Inl _ \<Rightarrow> [])"

definition s02_signature :: "world \<Rightarrow> path \<Rightarrow> string \<Rightarrow> obj \<Rightarrow> signature" where
  "s02_signature w output_dir role entry =
    (case report_signature (s02_report w output_dir entry (''on'', role)) of
       Inr sg \<Rightarrow> sg | Inl _ \<Rightarrow> (0, 0, 0, 0))"

text \<open>A report on disk passes: it is there, it parses, it is the one demanded, and, with
  instrumentation on, its byte counters are numbers.\<close>

definition s02_slot_ok :: "world \<Rightarrow> path \<Rightarrow> obj \<Rightarrow> string \<times> string \<Rightarrow> bool" where
  "s02_slot_ok w output_dir entry k \<longleftrightarrow>
    fs_exists w (s02_path output_dir entry k) \<and>
    \<not> isl (s02_parse_json w (s02_path output_dir entry k)) \<and>
    s02_report_ok entry k (s02_report w output_dir entry k) \<and>
    (fst k = ''on'' \<longrightarrow> \<not> isl (report_signature (s02_report w output_dir entry k)))"

definition s02_slot_line :: "path \<Rightarrow> obj \<Rightarrow> string \<times> string \<Rightarrow> msg" where
  "s02_slot_line output_dir entry k = [Txt ''label='', Txt (label_of entry),
     Txt ('' phase=artifact-validation instrumentation='' @ fst k @ '' endpoint_role='' @ snd k @
       '' artifact='' @ path_str (s02_path output_dir entry k) @ '' verdict=pass'')]"

lemma s02_validate_endpoint_iff:
  assumes "s02_good entry" "(instr, role) \<in> set s02_slots"
  shows "s02_validate_endpoint output_dir entry instr role sigs s = Some (Inr (rep, sigs'), t) \<longleftrightarrow>
    s02_slot_ok (files s) output_dir entry (instr, role) \<and>
    rep = s02_report (files s) output_dir entry (instr, role) \<and>
    sigs' = (if instr = ''on'' then add_signature sigs role (JStr (label_of entry))
        (s02_signature (files s) output_dir role entry) else sigs) \<and>
    t = s\<lparr>out_log := out_log s @ [s02_slot_line output_dir entry (instr, role)]\<rparr>"
proof -
  have l: "item entry ''label'' = Inr (JStr (label_of entry))"
    using s02_good_fields(1) [OF assms(1)] by (simp add: item_def)
  show ?thesis
  proof (cases "s02_parse_json (files s) (s02_path output_dir entry (instr, role))")
    case (Inl e)
    then show ?thesis
      unfolding s02_validate_endpoint_def l s02_artifact_path [OF assms]
      by (simp add: io_iff res_iff Let_def s02_slot_ok_def del: s02_path.simps)
  next
    case (Inr r)
    then have r: "s02_report (files s) output_dir entry (instr, role) = r"
      by (simp add: s02_report_def del: s02_path.simps)
    have sg: "s02_signature (files s) output_dir role entry =
        (case report_signature r of Inr sg \<Rightarrow> sg | Inl _ \<Rightarrow> (0, 0, 0, 0))" if "instr = ''on''"
      using r that by (simp add: s02_signature_def)
    show ?thesis
      unfolding s02_validate_endpoint_def l s02_artifact_path [OF assms] s02_slot_ok_def r
      using Inr sg
      by (auto simp: io_iff res_iff Let_def s02_validate_report_iff [OF assms(1)] s02_slot_line_def
          not_isl_iff simp del: s02_path.simps s02_report_ok.simps)
  qed
qed

text \<open>The run id of a report that passes.\<close>

definition s02_run_id_of :: "world \<Rightarrow> path \<Rightarrow> obj \<Rightarrow> string \<times> string \<Rightarrow> json" where
  "s02_run_id_of w output_dir entry k = dget (sub (s02_report w output_dir entry k) ''metadata'') ''run_id''"

lemma s02_slot_metadata:
  assumes "s02_slot_ok w output_dir entry k"
  obtains d where "item (s02_report w output_dir entry k) ''metadata'' = Inr (JObj d)"
    "s02_run_id_of w output_dir entry k = dget d ''run_id''" "str_field d ''run_id''"
    "dget d ''workload_label'' = dget entry ''label''"
proof -
  obtain instr role where k: "k = (instr, role)" by (cases k)
  have ok: "s02_report_ok entry (instr, role) (s02_report w output_dir entry k)"
    using assms by (simp add: s02_slot_ok_def k del: s02_report_ok.simps)
  then obtain d where d: "map_of (s02_report w output_dir entry k) ''metadata'' = Some (JObj d)"
    by (auto simp: obj_field_iff)
  with ok have "s02_metadata_ok entry instr role d" by simp
  then have "str_field d ''run_id''" "dget d ''workload_label'' = dget entry ''label''"
    by (simp_all add: s02_metadata_ok_def fields_match_def)
  with d that show ?thesis by (simp add: item_def s02_run_id_of_def)
qed

definition s02_pair_ok :: "world \<Rightarrow> path \<Rightarrow> obj \<Rightarrow> string \<Rightarrow> bool" where
  "s02_pair_ok w output_dir entry instr \<longleftrightarrow>
    s02_slot_ok w output_dir entry (instr, ''client'') \<and> s02_slot_ok w output_dir entry (instr, ''server'') \<and>
    s02_run_id_of w output_dir entry (instr, ''client'') = s02_run_id_of w output_dir entry (instr, ''server'')"

lemma s02_compare_iff:
  assumes "s02_slot_ok w output_dir entry (instr, ''client'')"
    "s02_slot_ok w output_dir entry (instr, ''server'')" "s02_good entry"
  shows "s02_compare l instr output_dir (s02_report w output_dir entry (instr, ''client''))
      (s02_report w output_dir entry (instr, ''server'')) = Inr u \<longleftrightarrow>
    s02_run_id_of w output_dir entry (instr, ''client'') = s02_run_id_of w output_dir entry (instr, ''server'')"
proof -
  obtain c where c: "item (s02_report w output_dir entry (instr, ''client'')) ''metadata'' = Inr (JObj c)"
    "s02_run_id_of w output_dir entry (instr, ''client'') = dget c ''run_id''" "str_field c ''run_id''"
    "dget c ''workload_label'' = dget entry ''label''"
    using s02_slot_metadata [OF assms(1)] .
  obtain d where d: "item (s02_report w output_dir entry (instr, ''server'')) ''metadata'' = Inr (JObj d)"
    "s02_run_id_of w output_dir entry (instr, ''server'') = dget d ''run_id''" "str_field d ''run_id''"
    "dget d ''workload_label'' = dget entry ''label''"
    using s02_slot_metadata [OF assms(2)] .
  have get: "get_method (JObj x) k JNull = Inr (dget x k)" for x k by (simp add: dget_def)
  have l: "dget entry ''label'' = JStr (label_of entry)"
    using s02_good_fields(1) [OF assms(3)] by simp
  obtain rc rd where "dget c ''run_id'' = JStr rc" "dget d ''run_id'' = JStr rd"
    using c(3) d(3) by (auto simp: str_field_iff)
  then show ?thesis
    using c d l by (auto simp: s02_compare_def report_run_id_def report_label_def get res_iff Let_def
        simp del: get_method.simps)
qed

definition s02_record :: "world \<Rightarrow> path \<Rightarrow> signatures \<Rightarrow> obj \<Rightarrow> signatures" where
  "s02_record w output_dir sigs entry = add_signature
    (add_signature sigs ''client'' (JStr (label_of entry)) (s02_signature w output_dir ''client'' entry))
    ''server'' (JStr (label_of entry)) (s02_signature w output_dir ''server'' entry)"

lemma s02_validate_pair_iff:
  assumes "s02_good entry" "instr \<in> {''off'', ''on''}"
  shows "s02_validate_pair output_dir entry sigs instr s = Some (Inr sigs', t) \<longleftrightarrow>
    s02_pair_ok (files s) output_dir entry instr \<and>
    sigs' = (if instr = ''on'' then s02_record (files s) output_dir sigs entry else sigs) \<and>
    t = s\<lparr>out_log := out_log s @ [s02_slot_line output_dir entry (instr, ''client''),
                                s02_slot_line output_dir entry (instr, ''server'')]\<rparr>"
proof -
  have k: "(instr, ''client'') \<in> set s02_slots" "(instr, ''server'') \<in> set s02_slots"
    using assms(2) by (auto simp: s02_slots_def)
  have l: "item entry ''label'' = Inr (JStr (label_of entry))"
    using s02_good_fields(1) [OF assms(1)] by (simp add: item_def)
  show ?thesis
    unfolding s02_validate_pair_def l
    by (auto simp: io_iff s02_validate_endpoint_iff [OF assms(1) k(1)] s02_pair_ok_def s02_record_def
        s02_validate_endpoint_iff [OF assms(1) k(2)] s02_compare_iff [OF _ _ assms(1)])
qed

definition s02_entry_ok :: "world \<Rightarrow> path \<Rightarrow> obj \<Rightarrow> bool" where
  "s02_entry_ok w output_dir entry \<longleftrightarrow>
    s02_pair_ok w output_dir entry ''off'' \<and> s02_pair_ok w output_dir entry ''on''"

lemma s02_validate_entry_iff:
  assumes "s02_good entry"
  shows "s02_validate_entry output_dir sigs entry s = Some (Inr sigs', t) \<longleftrightarrow>
    s02_entry_ok (files s) output_dir entry \<and> sigs' = s02_record (files s) output_dir sigs entry \<and>
    t = s\<lparr>out_log := out_log s @ map (s02_slot_line output_dir entry) s02_slots\<rparr>"
  unfolding s02_validate_entry_def
  by (auto simp: io_iff s02_validate_pair_iff [OF assms] s02_entry_ok_def s02_slots_def)

definition s02_sensitivity_line :: "path \<Rightarrow> string \<Rightarrow> nat \<Rightarrow> msg" where
  "s02_sensitivity_line output_dir role n = [Txt (''phase=workload-sensitivity instrumentation=on endpoint_role='' @
     role @ '' artifact='' @ path_str output_dir @ '' verdict=pass workloads='' @ str_nat n)]"

lemma s02_sensitivity_iff:
  "s02_sensitivity output_dir sigs role s = Some (Inr y, t) \<longleftrightarrow>
    (\<exists>d. map_of sigs role = Some d \<and> \<not> length (remdups (map snd d)) \<le> 1 \<and>
       t = s\<lparr>out_log := out_log s @ [s02_sensitivity_line output_dir role (length d)]\<rparr>)"
proof (cases "map_of sigs role")
  case (Some d)
  then show ?thesis
    by (simp add: s02_sensitivity_def s02_sensitivity_line_def Let_def say_iff raise_io_def
        del: One_nat_def)
qed (simp add: s02_sensitivity_def raise_io_def)

text \<open>All reports of the matrix pass, and no role shows the same byte counters on every workload.\<close>

definition s02_matrix_ok :: "world \<Rightarrow> path \<Rightarrow> obj list \<Rightarrow> bool" where
  "s02_matrix_ok w output_dir ws \<longleftrightarrow> list_all (s02_entry_ok w output_dir) ws \<and>
    list_all (\<lambda>role. \<not> length (remdups (map (s02_signature w output_dir role) ws)) \<le> 1)
      EXPECTED_ENDPOINT_ROLES"

lemma s02_validate_artifacts_iff:
  assumes good: "list_all s02_good (s02_workloads manifest)"
    and labels: "distinct (map label_of (s02_workloads manifest))"
  shows "s02_validate_artifacts manifest output_dir s = Some (Inr y, t) \<longleftrightarrow>
    s02_matrix_ok (files s) output_dir (s02_workloads manifest) \<and>
    t = s\<lparr>out_log := out_log s @
      concat (map (\<lambda>e. map (s02_slot_line output_dir e) s02_slots) (s02_workloads manifest)) @
      map (\<lambda>role. s02_sensitivity_line output_dir role (length (s02_workloads manifest)))
        EXPECTED_ENDPOINT_ROLES\<rparr>"
proof -
  let ?ws = "s02_workloads manifest" and ?init = "map (\<lambda>role. (role, [])) EXPECTED_ENDPOINT_ROLES"
  let ?sigs = "foldl (s02_record (files s) output_dir) ?init ?ws"
  let ?u = "s\<lparr>out_log := out_log s @ concat (map (\<lambda>e. map (s02_slot_line output_dir e) s02_slots) ?ws)\<rparr>"
  have fold: "iofold (s02_validate_entry output_dir) ?init ?ws s = Some (Inr b, u) \<longleftrightarrow>
      (\<forall>e \<in> set ?ws. s02_entry_ok (files s) output_dir e) \<and> b = ?sigs \<and> u = ?u" for b u
    using good by (intro iofold_printing) (auto simp: list_all_iff s02_validate_entry_iff)
  have "distinct (map (\<lambda>e. JStr (label_of e)) ([] @ ?ws))"
    using labels by (simp add: distinct_map inj_on_def)
  from foldl_signatures [OF this, of ?init "s02_signature (files s) output_dir ''client''"
      "s02_signature (files s) output_dir ''server''" "s02_record (files s) output_dir"]
  have sigs: "map_of ?sigs role = Some (map (\<lambda>e. (JStr (label_of e),
      s02_signature (files s) output_dir role e)) ?ws)" if "role \<in> {''client'', ''server''}" for role
    using that by (auto simp: EXPECTED_ENDPOINT_ROLES_def s02_record_def)
  have each: "ioeach (s02_sensitivity output_dir ?sigs) EXPECTED_ENDPOINT_ROLES u = Some (Inr y, t) \<longleftrightarrow>
      (\<forall>role \<in> set EXPECTED_ENDPOINT_ROLES.
         \<not> length (remdups (map (s02_signature (files s) output_dir role) ?ws)) \<le> 1) \<and>
      t = u\<lparr>out_log := out_log u @ concat (map (\<lambda>role.
        [s02_sensitivity_line output_dir role (length ?ws)]) EXPECTED_ENDPOINT_ROLES)\<rparr>" for u t y
  proof (rule ioeach_printing)
    fix role s' t' and y' :: unit
    assume "role \<in> set EXPECTED_ENDPOINT_ROLES"
    then have "role \<in> {''client'', ''server''}" by (simp add: EXPECTED_ENDPOINT_ROLES_def)
    then show "s02_sensitivity output_dir ?sigs role s' = Some (Inr y', t') \<longleftrightarrow>
      \<not> length (remdups (map (s02_signature (files s) output_dir role) ?ws)) \<le> 1 \<and>
      t' = s'\<lparr>out_log := out_log s' @ [s02_sensitivity_line output_dir role (length ?ws)]\<rparr>"
      by (simp add: s02_sensitivity_iff sigs comp_def del: One_nat_def)
  qed
  show ?thesis
    unfolding s02_validate_artifacts_def
    by (auto simp: iobnd_iff fold each s02_matrix_ok_def list_all_iff simp del: One_nat_def)
qed

lemma s02_matrix_ok_iff:
  "s02_matrix_ok w output_dir ws \<longleftrightarrow>
    (\<forall>entry \<in> set ws. \<forall>instr \<in> {''off'', ''on''}.
       (\<forall>role \<in> {''client'', ''server''}. s02_slot_ok w output_dir entry (instr, role)) \<and>
       s02_run_id_of w output_dir entry (instr, ''client'') =
         s02_run_id_of w output_dir entry (instr, ''server'')) \<and>
    (\<forall>role \<in> {''client'', ''server''}. \<exists>e \<in> set ws. \<exists>e' \<in> set ws.
       s02_signature w output_dir role e \<noteq> s02_signature w output_dir role e')"
proof -
  have e: "s02_entry_ok w output_dir entry \<longleftrightarrow> (\<forall>instr \<in> {''off'', ''on''}.
     (\<forall>role \<in> {''client'', ''server''}. s02_slot_ok w output_dir entry (instr, role)) \<and>
     s02_run_id_of w output_dir entry (instr, ''client'') =
       s02_run_id_of w output_dir entry (instr, ''server''))" for entry
    by (auto simp: s02_entry_ok_def s02_pair_ok_def)
  have r: "set EXPECTED_ENDPOINT_ROLES = {''client'', ''server''}"
    by (simp add: EXPECTED_ENDPOINT_ROLES_def)
  have d: "\<not> length (remdups (map f xs)) \<le> 1 \<longleftrightarrow> (\<exists>x \<in> set xs. \<exists>y \<in> set xs. f x \<noteq> f y)"
    for f :: "obj \<Rightarrow> signature" and xs
    by (simp add: two_distinct del: One_nat_def)
  show ?thesis unfolding s02_matrix_ok_def list_all_iff e r d by (rule refl)
qed

text \<open>C13. For a manifest that loads, \<open>validate_artifacts\<close> succeeds exactly when, for every workload
  and mode, the client's and the server's reports exist, parse and carry what was asked for (role,
  label, mode, payload, sizes, complete stages, and with instrumentation on some non-zero counter),
  both carry the same run id, and on neither side do all workloads show the same byte counters. It
  only prints: one line per report and one per role.\<close>

theorem s02_validate_artifacts_correct:
  assumes "s02_load_manifest w p = Inr manifest"
  shows "(\<exists>t. s02_validate_artifacts manifest output_dir s = Some (Inr (), t) \<and> files t = files s \<and>
      events t = events s \<and>
      length (out_log t) = length (out_log s) + 4 * length (s02_workloads manifest) + 2) \<longleftrightarrow>
    (\<forall>entry \<in> set (s02_workloads manifest). \<forall>instr \<in> {''off'', ''on''}.
       (\<forall>role \<in> {''client'', ''server''}. s02_slot_ok (files s) output_dir entry (instr, role)) \<and>
       s02_run_id_of (files s) output_dir entry (instr, ''client'') =
         s02_run_id_of (files s) output_dir entry (instr, ''server'')) \<and>
    (\<forall>role \<in> {''client'', ''server''}. \<exists>e \<in> set (s02_workloads manifest).
       \<exists>e' \<in> set (s02_workloads manifest).
         s02_signature (files s) output_dir role e \<noteq> s02_signature (files s) output_dir role e')"
  (is "?l \<longleftrightarrow> ?r")
proof -
  have g: "list_all s02_good (s02_workloads manifest)"
    using assms by (rule s02_load_manifest_Inr)
  have d: "distinct (map label_of (s02_workloads manifest))"
    using assms by (rule s02_load_manifest_Inr)
  have len: "length (concat (map (\<lambda>e. map (f e) s02_slots) ws)) = 4 * length ws"
    for f :: "obj \<Rightarrow> string \<times> string \<Rightarrow> msg" and ws
    by (induction ws) (simp_all add: s02_slots_def)
  have "?l \<longleftrightarrow> s02_matrix_ok (files s) output_dir (s02_workloads manifest)"
    unfolding s02_validate_artifacts_iff [OF g d] by (simp add: len EXPECTED_ENDPOINT_ROLES_def)
  also have "\<dots> \<longleftrightarrow> ?r" by (rule s02_matrix_ok_iff)
  finally show ?thesis .
qed

text \<open>An example matrix: the two required workloads with their eight reports.\<close>

definition s02_demo_entry :: "bool \<Rightarrow> string \<Rightarrow> json" where
  "s02_demo_entry bytes n = JObj ([(''label'', JStr (s02_required_labels ! (if bytes then 0 else 1))),
     (''measure_ms'', JInt 10), (''requests'', JInt 5), (''concurrency'', JInt 1),
     (''compression'', JStr ''off''), (''buffer_policy'', JStr ''default'')] @
     (if bytes then [(''rpc'', JStr ''unary-bytes''), (''payload_size'', JInt 64),
                     (''payload_kind'', JStr ''repeated'')]
      else [(''rpc'', JStr ''unary-proto-shape''), (''proto_shape'', JStr ''small''),
            (''response_shape'', JStr ''heavy'')]) @
     [(''endpoint_artifacts'', JObj (map (\<lambda>i. (i, JObj (map (\<lambda>r. (r, JStr (n @ i @ r)))
        EXPECTED_ENDPOINT_ROLES))) [''off'', ''on'']))])"

definition s02_demo_report :: "bool \<Rightarrow> string \<Rightarrow> string \<Rightarrow> json" where
  "s02_demo_report bytes instr role = JObj [(''metadata'', JObj ([(''mode'', JStr role),
       (''endpoint_role'', JStr role), (''ordinary_path'', JStr ''software''), (''seam'', JStr ''codec_body''),
       (''selected_path'', JStr ''software''),
       (''workload_label'', JStr (s02_required_labels ! (if bytes then 0 else 1))),
       (''instrumentation'', JStr instr), (''buffer_policy'', JStr ''default''), (''run_id'', JStr ''r''),
       (''effective_codec_buffer_size'', JInt 8192), (''effective_codec_yield_threshold'', JInt 32768),
       (''request_serialized_size'', JInt 70), (''response_serialized_size'', JInt 70)] @
       (if bytes then [(''rpc'', JStr ''unary-bytes''), (''payload_size'', JInt 64),
                       (''payload_kind'', JStr ''repeated'')]
        else [(''rpc'', JStr ''unary-proto-shape''), (''request_shape'', JStr ''small''),
              (''response_shape'', JStr ''heavy'')]))),
     (''metrics'', JObj [(''requests_completed'', JInt 5)]),
     (''stages'', JObj ((''enabled'', JBool (instr = ''on'')) # map (\<lambda>n. (n, JObj (map (\<lambda>f.
        (f, JInt (if bytes then 1 else 2))) REQUIRED_STAGE_COUNTER_FIELDS))) REQUIRED_STAGE_NAMES))]"

definition s02_demo_files :: "(string \<times> json) list" where
  "s02_demo_files = (''m'', JObj [(''defaults'', JObj [(''warmup_ms'', JInt 0), (''runtime'', JStr ''single'')]),
       (''expected_benchmarks'', JArr (map JStr (rev EXPECTED_BENCHMARKS))),
       (''workloads'', JArr [s02_demo_entry True ''a'', s02_demo_entry False ''b''])]) #
     concat (map (\<lambda>(b, n). map (\<lambda>(i, r). (''o/'' @ n @ i @ r, s02_demo_report b i r)) s02_slots)
       [(True, ''a''), (False, ''b'')])"

definition s02_demo_world :: world where
  "s02_demo_world = table_world s02_demo_files"

definition s02_demo_loaded :: s02_manifest where
  "s02_demo_loaded = (case s02_load_manifest s02_demo_world (path_of ''m'') of Inr m \<Rightarrow> m
     | Inl _ \<Rightarrow> \<lparr>s02_version = JNull, s02_defaults = [], s02_expected_benchmarks = [], s02_workloads = []\<rparr>)"

lemma s02_demo_loads: "s02_load_manifest s02_demo_world (path_of ''m'') = Inr s02_demo_loaded"
proof -
  have "\<not> isl (s02_load_manifest s02_demo_world (path_of ''m''))" by code_simp
  then show ?thesis by (auto simp: s02_demo_loaded_def split: sum.splits)
qed

lemma s02_demo_matrix: "s02_matrix_ok s02_demo_world (path_of ''o'') (s02_workloads s02_demo_loaded)"
  by code_simp

lemma s02_demo_length: "length (s02_workloads s02_demo_loaded) = 2"
  by code_simp

theorem s02_validate_artifacts_witness:
  "length (s02_workloads s02_demo_loaded) = 2 \<and>
   (\<exists>t. s02_validate_artifacts s02_demo_loaded (path_of ''o'') (demo_mach\<lparr>files := s02_demo_world\<rparr>) =
      Some (Inr (), t) \<and> length (out_log t) = 10)"
  using s02_validate_artifacts_correct [OF s02_demo_loads, of "path_of ''o''"
      "demo_mach\<lparr>files := s02_demo_world\<rparr>"] s02_demo_matrix s02_demo_length
  unfolding s02_matrix_ok_iff by (auto simp: demo_mach_def)

text \<open>A report accepted by S02 says which workload, mode and role it belongs to.\<close>

interpretation s02_matrix: evidence_matrix s02_slots "s02_path output_dir" s02_parse_json s02_report_ok
  for output_dir
proof
  fix e e' r and k k' :: "string \<times> string"
  assume "s02_report_ok e k r" "s02_report_ok e' k' r"
  then have "fst k = fst k'" "snd k = snd k'" "dget e ''label'' = dget e' ''label''"
    by (cases k; cases k'; auto simp: s02_metadata_ok_def fields_match_def)+
  then show "dget e ''label'' = dget e' ''label'' \<and> k = k'" by (simp add: prod_eq_iff)
qed (simp add: s02_slots_def)

text \<open>The manifest check compares artifact names only within one workload, but a matrix that
  passes has no shared files at all: the reports of all workloads, modes and roles lie in pairwise
  different files.\<close>

theorem s02_accepted_files_distinct:
  assumes "s02_load_manifest w p = Inr manifest"
    and "s02_validate_artifacts manifest output_dir s = Some (Inr (), t)"
  shows "distinct (map (\<lambda>(e, k). s02_path output_dir e k) (List.product (s02_workloads manifest) s02_slots))"
proof -
  have g: "list_all s02_good (s02_workloads manifest)"
    using assms(1) by (rule s02_load_manifest_Inr)
  have d: "distinct (map label_of (s02_workloads manifest))"
    using assms(1) by (rule s02_load_manifest_Inr)
  have ok: "\<forall>e \<in> set (s02_workloads manifest). s02_entry_ok (files s) output_dir e"
    using assms(2) unfolding s02_validate_artifacts_iff [OF g d] by (simp add: s02_matrix_ok_def list_all_iff)
  show ?thesis
  proof (rule s02_matrix.matrix_files_distinct [OF d, where w = "files s"], intro ballI)
    fix e k
    assume "e \<in> set (s02_workloads manifest)" "k \<in> set s02_slots"
    then have "s02_slot_ok (files s) output_dir e k"
      using ok by (auto simp: s02_entry_ok_def s02_pair_ok_def s02_slots_def)
    then show "\<exists>r. s02_parse_json (files s) (s02_path output_dir e k) = Inr r \<and> s02_report_ok e k r"
      by (auto simp: s02_slot_ok_def s02_report_def not_isl_iff)
  qed
qed

theorem s02_accepted_files_distinct_witness:
  "distinct (map (\<lambda>(e, k). s02_path (path_of ''o'') e k)
     (List.product (s02_workloads s02_demo_loaded) s02_slots))"
proof -
  have g: "list_all s02_good (s02_workloads s02_demo_loaded)"
    using s02_demo_loads by (rule s02_load_manifest_Inr)
  have d: "distinct (map label_of (s02_workloads s02_demo_loaded))"
    using s02_demo_loads by (rule s02_load_manifest_Inr)
  obtain t where "s02_validate_artifacts s02_demo_loaded (path_of ''o'')
      (demo_mach\<lparr>files := s02_demo_world\<rparr>) = Some (Inr (), t)"
    unfolding s02_validate_artifacts_iff [OF g d] using s02_demo_matrix by simp
  then show ?thesis by (rule s02_accepted_files_distinct [OF s02_demo_loads])
qed

text \<open>\<open>run_s02_evidence.py --verify-only --output-dir DIR\<close> exits with status 0 exactly when the
  manifest loads and the whole matrix of reports passes.\<close>

theorem s02_verify_only_exit:
  assumes "s02_arg_verify_only args" "\<not> s02_arg_validate_only args"
    "s02_arg_output_dir args = Some d" "d \<noteq> []"
  shows "(\<exists>t. s02_main h args s = Some (Inr 0, t)) \<longleftrightarrow>
    (\<exists>m. s02_load_manifest (files s) (fs_resolve (files s) (path_of (s02_arg_manifest args))) = Inr m \<and>
       s02_matrix_ok (files s) (fs_resolve (files s) (path_of d)) (s02_workloads m))"
proof -
  have good: "list_all s02_good (s02_workloads m)" if "s02_load_manifest w p = Inr m" for w p m
    using that by (rule s02_load_manifest_Inr)
  have lab: "distinct (map label_of (s02_workloads m))" if "s02_load_manifest w p = Inr m" for w p m
    using that by (rule s02_load_manifest_Inr)
  show ?thesis
    unfolding s02_main_def using assms
    by (auto simp: exit_unless io_iff Let_def s02_validate_artifacts_iff [OF good lab])
qed

theorem s02_verify_only_exit_witness:
  "\<exists>t. s02_main demo_host \<lparr>s02_arg_manifest = ''m'', s02_arg_output_dir = Some ''o'',
      s02_arg_binary = None, s02_arg_validate_only = False, s02_arg_verify_only = True,
      s02_arg_server_start_timeout = Fin 10, s02_arg_client_timeout = Fin 20,
      s02_arg_server_flush_timeout = Fin 10\<rparr> (demo_mach\<lparr>files := s02_demo_world\<rparr>) = Some (Inr 0, t)"
proof -
  have r: "fs_resolve s02_demo_world q = q" for q by (simp add: s02_demo_world_def)
  show ?thesis
    by (subst s02_verify_only_exit [of _ "''o''"]) (use s02_demo_matrix s02_demo_loads r in auto)
qed

section \<open>Properties of the run\<close>

lemma s02_reserve_addr_tame [calm]: "tame (s02_reserve_addr h)"
  by (auto simp: tame_def s02_reserve_addr_def split: prod.splits)

lemma s02_run_one_clean [calm]: "clean (s02_run_one h bin dir st ct ft entry instr)"
  unfolding s02_run_one_def Let_def
  by (intro iobnd_clean lift_clean tame_clean [OF s02_reserve_addr_tame] tame_clean [OF time_us_calm(1)]
      pair_clean)

text \<open>However an S02 run over a whole manifest ends, every server it started has been waited
  for; only a \<open>TimeoutExpired\<close> after SIGKILL can leave one behind.\<close>

theorem s02_run_no_orphans:
  assumes "s02_run_manifest h manifest binary output_dir st ct ft s = Some (r, t)"
    and "next_pid s \<le> pid" and "pid < next_pid t"
  shows "codes t pid \<noteq> None \<or> (r = Inl TimeoutExpired \<and> Sigkill pid \<in> set (events t))"
proof -
  have "clean (s02_run_manifest h manifest binary output_dir st ct ft)"
    unfolding s02_run_manifest_def by (intro calm tame_clean [OF call_tame(2)])
  from cleanD(4) [OF this assms] show ?thesis by (simp add: settled_def)
qed

definition s02_demo_single :: obj where
  "s02_demo_single = demo_workload @ [(''endpoint_artifacts'', JObj (map (\<lambda>i. (i, JObj (map (\<lambda>r.
     (r, JStr (i @ r))) EXPECTED_ENDPOINT_ROLES))) [''off'', ''on'']))]"

lemma s02_demo_run:
  "\<exists>t. s02_run_manifest demo_host \<lparr>s02_version = JNull, s02_defaults = [], s02_expected_benchmarks = [],
      s02_workloads = [s02_demo_single]\<rparr> (path_of ''bin'') (path_of ''o'') (Fin 10) (Fin 20) (Fin 10) demo_mach =
      Some (Inr (), t) \<and> next_pid t = 2"
proof -
  have addr: "h_addr demo_host n = (''127.0.0.1'', 4000)" for n by (simp add: demo_host_def)
  have a: "split_addr (CHR ''1'' # CHR ''2'' # CHR ''7'' # CHR ''.'' # CHR ''0'' # CHR ''.'' # CHR ''0'' #
      CHR ''.'' # CHR ''1'' # CHR '':'' # str_int 4000) = Inr (''127.0.0.1'', 4000)"
    using split_addr_reserved [of "''127.0.0.1''" 4000] by simp
  have late: "flt (Fin 60) (fadd (Fin 60) (Fin 10))" by code_simp
  have ready: "rpc_ready s02_demo_single" by code_simp
  have cmd: "s02_build_common_args s02_demo_single x = Inr (ready_args s02_demo_single x)" for x
    by (simp add: s02_build_common_args_def build_rpc_args_ready [OF ready])
  have it: "item s02_demo_single ''label'' = Inr (JStr ''a'')" "item s02_demo_single ''requests'' = Inr (JInt 5)"
    "item s02_demo_single ''endpoint_artifacts'' = Inr (JObj (map (\<lambda>i. (i, JObj (map (\<lambda>r.
     (r, JStr (i @ r))) EXPECTED_ENDPOINT_ROLES))) [''off'', ''on'']))"
    by (simp_all add: item_def s02_demo_single_def demo_workload_def)
  have ic: "item ((k, v) # d) x = (if k = x then Inr v else item d x)" for k v d x
    by (auto simp: item_def)
  note defs = s02_run_manifest_def s02_run_one_def cmd it ic s02_artifact_def run_server_client_pair_def
    pair_start_def pair_guarded_def pair_body_def wait_for_port_def terminate_process_def
    stop_process_def wait_loop.simps iobnd_def try_except_def try_finally_def mkdir_p_def say_def
    popen_def monotonic_def poll_def connect_ex_def run_cmd_def wait_proc_def returncode_def ret_def
    lift_def time_us_def s02_reserve_addr_def
  show ?thesis
    by (simp add: defs addr a late demo_deadline demo_mach_def ext_def Let_def
        EXPECTED_ENDPOINT_ROLES_def del: fadd.simps)
qed

theorem s02_run_no_orphans_witness:
  "\<exists>t. s02_run_manifest demo_host \<lparr>s02_version = JNull, s02_defaults = [], s02_expected_benchmarks = [],
      s02_workloads = [s02_demo_single]\<rparr> (path_of ''bin'') (path_of ''o'') (Fin 10) (Fin 20) (Fin 10) demo_mach =
      Some (Inr (), t) \<and> codes t 0 \<noteq> None \<and> codes t 1 \<noteq> None"
proof -
  obtain t where t: "s02_run_manifest demo_host \<lparr>s02_version = JNull, s02_defaults = [],
      s02_expected_benchmarks = [], s02_workloads = [s02_demo_single]\<rparr> (path_of ''bin'') (path_of ''o'')
      (Fin 10) (Fin 20) (Fin 10) demo_mach = Some (Inr (), t)" "next_pid t = 2"
    using s02_demo_run by blast
  show ?thesis using t s02_run_no_orphans [OF t(1), of 0] s02_run_no_orphans [OF t(1), of 1]
    by (simp add: demo_mach_def)
qed

text \<open>For a validated workload, each of its two runs hands \<open>run_server_client_pair\<close> two
  consistent commands: both carry the same run id and mode, the server binds and the client targets
  the one reserved address, the server stops after exactly the number of requests the client sends,
  and each writes its report to the file that is checked afterwards.\<close>

theorem s02_run_one_commands:
  assumes "s02_good entry" "instr \<in> {''off'', ''on''}"
  shows "\<exists>q addr. h_addr h (tick s) = addr \<and>
    s02_run_one h binary output_dir st ct ft entry instr s = run_server_client_pair h q (ext h Bind s) \<and>
    pa_bind_addr q = fst addr @ '':'' @ str_int (snd addr) \<and> pa_target_addr q = pa_bind_addr q \<and>
    option_value ''--bind'' (tl (pa_server_cmd q)) = Some (lit (pa_bind_addr q)) \<and>
    option_value ''--target'' (tl (pa_client_cmd q)) = Some (lit (pa_target_addr q)) \<and>
    option_value ''--run-id'' (tl (pa_server_cmd q)) = option_value ''--run-id'' (tl (pa_client_cmd q)) \<and>
    option_value ''--run-id'' (tl (pa_client_cmd q)) \<noteq> None \<and>
    option_value ''--instrumentation'' (tl (pa_server_cmd q)) = Some (lit instr) \<and>
    option_value ''--instrumentation'' (tl (pa_client_cmd q)) = Some (lit instr) \<and>
    option_value ''--shutdown-after-requests'' (tl (pa_server_cmd q)) =
      option_value ''--requests'' (tl (pa_client_cmd q)) \<and>
    option_value ''--json-out'' (tl (pa_client_cmd q)) =
      Some (lit (path_str (s02_path output_dir entry (instr, ''client'')))) \<and>
    option_value ''--server-json-out'' (tl (pa_server_cmd q)) =
      Some (lit (path_str (s02_path output_dir entry (instr, ''server''))))"
proof -
  note g = s02_good_fields [OF assms(1)]
  have k: "(instr, ''client'') \<in> set s02_slots" "(instr, ''server'') \<in> set s02_slots"
    using assms(2) by (auto simp: s02_slots_def)
  have l: "bnd (item entry ''label'') as_str = Inr (label_of entry)"
    using g(1) by (simp add: item_def)
  have rq: "item entry ''requests'' = Inr (dget entry ''requests'')"
    using g(5) by (rule item_field)
  obtain a port where ap: "h_addr h (tick s) = (a, port)" by (cases "h_addr h (tick s)")
  have cmd: "s02_build_common_args entry addr = Inr (ready_args entry addr)" for addr
    by (simp add: s02_build_common_args_def build_rpc_args_ready [OF g(6)])
  note art = s02_artifact_path [OF assms(1) k(1)] s02_artifact_path [OF assms(1) k(2)]
  define addr where "addr = a @ '':'' @ str_int port"
  define run_id where "run_id = s02_run_id h (h_now_us h (tick (ext h Bind s))) (label_of entry) instr addr"
  let ?c = "s02_path output_dir entry (instr, ''client'')" and ?s = "s02_path output_dir entry (instr, ''server'')"
  define q where "q = \<lparr>pa_label = label_of entry,
       pa_server_cmd = s02_server_cmd binary instr (ready_args entry addr) run_id (dget entry ''requests'') ?s,
       pa_client_cmd = s02_client_cmd binary instr (ready_args entry addr) run_id ?c,
       pa_server_artifact = ?s, pa_client_artifact = ?c, pa_bind_addr = addr, pa_target_addr = addr,
       pa_server_start_timeout = st, pa_client_timeout = ct, pa_server_flush_timeout = ft,
       pa_error_cls = RunError, pa_context = [(''instrumentation'', instr)],
       pa_cleanup_phase = ''cleanup instrumentation='' @ instr\<rparr>"
  have run: "s02_run_one h binary output_dir st ct ft entry instr s = run_server_client_pair h q (ext h Bind s)"
    unfolding s02_run_one_def l rq cmd art
    by (simp add: iobnd_def lift_def time_us_def s02_reserve_addr_def ap Let_def q_def addr_def run_id_def
        del: s02_path.simps)
  have sv: "pa_server_cmd q = s02_server_cmd binary instr (ready_args entry addr) run_id (dget entry ''requests'') ?s"
    and cl: "pa_client_cmd q = s02_client_cmd binary instr (ready_args entry addr) run_id ?c"
    and ba: "pa_bind_addr q = addr" "pa_target_addr q = addr"
    by (simp_all add: q_def del: s02_path.simps)
  have ov: "option_value k (tl (s02_server_cmd binary instr (ready_args entry addr) run_id rq sp)) =
      (if k = ''--mode'' then Some (lit ''server'') else if k = ''--instrumentation'' then Some (lit instr)
       else case option_value k (ready_args entry addr) of Some v \<Rightarrow> Some v | None \<Rightarrow>
         option_value k [lit ''--run-id'', lit run_id, lit ''--shutdown-after-requests'', StrOf rq,
           lit ''--server-json-out'', lit (path_str sp)])" for k rq sp
    by (simp add: s02_server_cmd_def option_value_append)
  have ow: "option_value k (tl (s02_client_cmd binary instr (ready_args entry addr) run_id cp)) =
      (if k = ''--mode'' then Some (lit ''client'') else if k = ''--instrumentation'' then Some (lit instr)
       else case option_value k (ready_args entry addr) of Some v \<Rightarrow> Some v | None \<Rightarrow>
         option_value k [lit ''--run-id'', lit run_id, lit ''--json-out'', lit (path_str cp)])" for k cp
    by (simp add: s02_client_cmd_def option_value_append)
  have ad: "a @ CHR '':'' # str_int port = addr" by (simp add: addr_def)
  show ?thesis
    by (rule exI [of _ q], rule exI [of _ "(a, port)"])
      (simp add: run ap sv cl ba ov ow ready_args_options ad del: s02_path.simps)
qed

theorem s02_run_one_commands_witness:
  "\<exists>q. s02_run_one demo_host (path_of ''bin'') (path_of ''o'') (Fin 10) (Fin 20) (Fin 10)
      (hd (s02_workloads s02_demo_loaded)) ''on'' demo_mach = run_server_client_pair demo_host q (ext demo_host Bind demo_mach) \<and>
    option_value ''--shutdown-after-requests'' (tl (pa_server_cmd q)) =
      option_value ''--requests'' (tl (pa_client_cmd q))"
proof -
  have "list_all s02_good (s02_workloads s02_demo_loaded)"
    using s02_demo_loads by (rule s02_load_manifest_Inr)
  moreover have "s02_workloads s02_demo_loaded \<noteq> []" using s02_demo_length by auto
  ultimately have g: "s02_good (hd (s02_workloads s02_demo_loaded))" by (simp add: list_all_iff)
  show ?thesis using s02_run_one_commands [OF g, of "''on''"] by blast
qed

end
