(* ===== verification/S03_Idxd.thy ===== *)
theory S03_Idxd
  imports EvidenceMatrix
begin

text \<open>
  The S03 runner (accel-rpc/tonic-profile/scripts/run_s03_idxd_evidence.py): the same matrix on the
  accelerated path. Instrumentation is always on, the manifest fixes the expected metadata, and the
  reports must name the accelerator device that the command was given.
\<close>

section \<open>The manifest\<close>

definition REQUIRED_LABELS :: "string list" where
  "REQUIRED_LABELS = [''ordinary/unary-bytes/repeated-64'',
     ''ordinary/unary-proto-shape/fleet-small-to-fleet-response-heavy'']"

definition EXPECTED_METADATA_FIELDS :: "(string \<times> string) list" where
  "EXPECTED_METADATA_FIELDS = [(''ordinary_path'', ''software''), (''selected_path'', ''idxd''),
     (''seam'', ''codec_body''), (''accelerated_lane'', ''codec_memmove''),
     (''accelerated_direction'', ''bidirectional'')]"

record s03_manifest =
  s03_version :: json
  s03_defaults :: obj
  s03_expected_metadata :: obj
  s03_workloads :: "obj list"

definition s03_required_str :: "obj \<Rightarrow> string \<Rightarrow> msg \<Rightarrow> string res" where
  "s03_required_str d key scope = (case dget d key of
       JStr v \<Rightarrow> (if v = [] then Inl (ManifestError (scope @ [Txt ('' missing '' @ key)])) else Inr v)
     | _ \<Rightarrow> Inl (ManifestError (scope @ [Txt ('' missing '' @ key)])))"

definition s03_required_bool :: "obj \<Rightarrow> string \<Rightarrow> msg \<Rightarrow> bool res" where
  "s03_required_bool d key scope = (case dget d key of
       JBool b \<Rightarrow> Inr b
     | _ \<Rightarrow> Inl (ManifestError (scope @ [Txt ('' field '' @ key @ '' must be a boolean'')])))"

definition s03_required_positive_int :: "obj \<Rightarrow> string \<Rightarrow> msg \<Rightarrow> json res" where
  "s03_required_positive_int d key scope = (let value = dget d key in
     if positive_int value then Inr value
     else Inl (ManifestError (scope @ [Txt ('' field '' @ key @ '' must be a positive integer'')])))"

definition s03_validate_expected_metadata :: "obj \<Rightarrow> obj res" where
  "s03_validate_expected_metadata expected_metadata =
    (let scope = [Txt ''manifest.expected_metadata''] in
     bnd (foldm (\<lambda>validated (key, expected).
            bnd (s03_required_str expected_metadata key scope) (\<lambda>actual.
            if actual \<noteq> expected then Inl (ManifestError (scope @ [Txt (''.'' @ key @ ''=''),
              Rep (JStr actual), Txt '' expected '', Rep (JStr expected),
              Txt '' for tracked S03 idxd validation'']))
            else Inr (AList.update key (JStr actual) validated)))
          [] EXPECTED_METADATA_FIELDS) (\<lambda>validated.
     bnd (s03_required_bool expected_metadata ''require_device_path'' scope) (\<lambda>b.
     Inr (AList.update ''require_device_path'' (JBool b) validated))))"

definition s03_validate_endpoint_artifacts :: "nat \<Rightarrow> string \<Rightarrow> json \<Rightarrow> obj res" where
  "s03_validate_endpoint_artifacts index label v =
    (let scope = [Txt (''workloads['' @ str_nat index @ ''] label=''), Rep (JStr label),
                  Txt '' endpoint_artifacts''] in
     case v of JObj endpoint_artifacts \<Rightarrow>
       bnd (foldm (\<lambda>(validated, seen_paths) role.
              bnd (s03_required_str endpoint_artifacts role scope) (\<lambda>artifact.
              if artifact \<in> seen_paths then Inl (ManifestError ([Txt ''phase=manifest-parse ''] @ scope @
                [Txt (''.'' @ role @ '' duplicates artifact path ''), Rep (JStr artifact)]))
              else Inr (AList.update role (JStr artifact) validated, insert artifact seen_paths)))
            ([], {}) EXPECTED_ENDPOINT_ROLES) (\<lambda>(validated, seen_paths).
       Inr validated)
     | _ \<Rightarrow> Inl (ManifestError ([Txt ''phase=manifest-parse ''] @ scope @ [Txt '' must be an object''])))"

definition s03_merged :: "obj \<Rightarrow> obj \<Rightarrow> string \<Rightarrow> string \<Rightarrow> obj \<Rightarrow> obj \<Rightarrow> obj" where
  "s03_merged defaults entry label rpc endpoint_artifacts expected_metadata =
    AList.update ''expected_metadata'' (JObj expected_metadata)
    (AList.update ''endpoint_artifacts'' (JObj endpoint_artifacts)
    (AList.update ''rpc'' (JStr rpc)
    (AList.update ''label'' (JStr label) (dict_update defaults entry))))"

definition s03_check_fields :: "msg \<Rightarrow> string \<Rightarrow> string \<Rightarrow> obj \<Rightarrow> unit res" where
  "s03_check_fields scope label rpc merged =
    (let head = [Txt ''phase=manifest-parse ''] @ scope;
         int_field = (\<lambda>k. bnd (s03_required_positive_int merged k scope) (\<lambda>_. Inr ()));
         str_field = (\<lambda>k. bnd (s03_required_str merged k scope) (\<lambda>_. Inr ())) in
     if \<not> nonneg_int (dget merged ''warmup_ms'') then
       Inl (ManifestError (head @ [Txt '' field warmup_ms must be a non-negative integer''])) else
     bnd (each int_field [''measure_ms'', ''requests'', ''concurrency'']) (\<lambda>_.
     bnd (each str_field [''runtime'', ''compression'', ''buffer_policy'', ''instrumentation'',
                          ''accelerated_path'']) (\<lambda>_.
     bnd (item merged ''instrumentation'') (\<lambda>instrumentation.
     if instrumentation \<noteq> JStr ''on'' then Inl (ManifestError (head @ [Txt '' field instrumentation='',
       Rep instrumentation, Txt '' expected '', Rep (JStr ''on'')])) else
     bnd (item merged ''accelerated_path'') (\<lambda>accelerated_path.
     if accelerated_path \<noteq> JStr ''idxd'' then Inl (ManifestError (head @ [Txt '' field accelerated_path='',
       Rep accelerated_path, Txt '' expected '', Rep (JStr ''idxd'')])) else
     if rpc = ''unary-bytes'' then
       bnd (int_field ''payload_size'') (\<lambda>_. str_field ''payload_kind'')
     else if rpc = ''unary-proto-shape'' then
       bnd (str_field ''proto_shape'') (\<lambda>_. str_field ''response_shape'')
     else Inl (ManifestError (head @ [Txt '' label='', Rep (JStr label),
            Txt '' has unsupported rpc mode '', Rep (JStr rpc)])))))))"

definition s03_validate_workload ::
    "nat \<Rightarrow> json \<Rightarrow> obj \<Rightarrow> string set \<Rightarrow> obj \<Rightarrow> (obj \<times> string set) res" where
  "s03_validate_workload index v defaults seen_labels expected_metadata =
    (let scope = [Txt (''workloads['' @ str_nat index @ '']'')];
         head = [Txt ''phase=manifest-parse ''] @ scope in
     case v of JObj entry \<Rightarrow>
       bnd (s03_required_str entry ''label'' scope) (\<lambda>label.
       if label \<in> seen_labels then
         Inl (ManifestError (head @ [Txt '' label='', Rep (JStr label), Txt '' is duplicated''])) else
       bnd (s03_required_str entry ''rpc'' scope) (\<lambda>rpc.
       case dget entry ''endpoint_artifacts'' of
         JObj artifacts \<Rightarrow>
           bnd (s03_validate_endpoint_artifacts index label (JObj artifacts)) (\<lambda>validated.
           let merged = s03_merged defaults entry label rpc validated expected_metadata in
           bnd (s03_check_fields scope label rpc merged) (\<lambda>_.
           Inr (merged, insert label seen_labels)))
       | _ \<Rightarrow> Inl (ManifestError (head @ [Txt '' missing endpoint_artifacts object'']))))
     | _ \<Rightarrow> Inl (ManifestError (head @ [Txt '' must be an object''])))"

definition s03_load_manifest :: "world \<Rightarrow> path \<Rightarrow> s03_manifest res" where
  "s03_load_manifest w p =
    (let bad = (\<lambda>t. Inl (ManifestError [Txt (''phase=manifest-parse manifest'' @ t)])) in
    bnd (except_as (except_as (bnd (fs_read w p) (json_loads w)) os_error_text (\<lambda>err.
           ManifestError [Txt (''phase=manifest-parse manifest='' @ path_str p @ '' read failed: '' @ err)]))
         json_error_text (\<lambda>err.
           ManifestError [Txt (''phase=manifest-parse manifest='' @ path_str p @ '' parse failed: '' @ err)]))
    (\<lambda>root.
    case root of JObj manifest \<Rightarrow>
     (case (let v = dget manifest ''defaults'' in if truthy v then v else JObj []) of JObj defaults \<Rightarrow>
      (case dget manifest ''expected_metadata'' of JObj expected \<Rightarrow>
        bnd (s03_validate_expected_metadata expected) (\<lambda>expected_metadata.
        case dget manifest ''workloads'' of JArr workloads \<Rightarrow>
          (if workloads = [] then bad ''.workloads must be a non-empty array'' else
           bnd (check_entries (\<lambda>i v seen. s03_validate_workload i v defaults seen expected_metadata)
                  0 {} workloads) (\<lambda>(validated, seen_labels).
           let labels = set (map (\<lambda>e. dget e ''label'') validated);
               missing = sort (filter (\<lambda>l. JStr l \<notin> labels) REQUIRED_LABELS) in
           if missing \<noteq> [] then
             bad (''.workloads missing required idxd labels: '' @ joined '', '' missing)
           else Inr \<lparr>s03_version = dget manifest ''version'', s03_defaults = defaults,
                     s03_expected_metadata = expected_metadata, s03_workloads = validated\<rparr>))
        | _ \<Rightarrow> bad ''.workloads must be a non-empty array'')
      | _ \<Rightarrow> bad ''.expected_metadata must be an object'')
     | _ \<Rightarrow> bad ''.defaults must be an object'')
    | _ \<Rightarrow> bad '' root must be an object''))"


section \<open>Running the workloads\<close>

text \<open>\<open>repo\<close> and \<open>accel_rpc_dir\<close> stand for the constants computed from the script's own location.\<close>

definition s03_locate_binary :: "world \<Rightarrow> path \<Rightarrow> string option \<Rightarrow> path res" where
  "s03_locate_binary w accel_rpc_dir explicit =
    (let default_binary = path_div accel_rpc_dir ''target/release/tonic-profile'';
         p = (case explicit of Some e \<Rightarrow> if e = [] then default_binary else path_of e
              | None \<Rightarrow> default_binary) in
     if \<not> fs_exists w p then
       Inl (RunError [Txt (''phase=build artifact='' @ path_str p @ '' tonic-profile binary not found; '' @
         ''build it first with cargo build --release -p tonic-profile --manifest-path accel-rpc/Cargo.toml'')])
     else Inr (fs_resolve w p))"

definition s03_reserve_addr :: "host \<Rightarrow> string io" where
  "s03_reserve_addr h s = (case h_addr h (tick s) of (a, port) \<Rightarrow>
     Some (Inr (a @ '':'' @ str_int port), ext h Bind s))"

text \<open>The module's own copies of the process helpers, which its run no longer calls.\<close>

definition s03_drain_process_output :: "host \<Rightarrow> nat \<Rightarrow> (string \<times> string) io" where
  "s03_drain_process_output h pid = try_except (communicate h pid) is_timeout
     (\<lambda>_. iobnd (kill h pid) (\<lambda>_. communicate h pid))"

definition s03_terminate_process :: "host \<Rightarrow> nat \<Rightarrow> string \<Rightarrow> string \<Rightarrow> path \<Rightarrow> string \<Rightarrow> unit io" where
  "s03_terminate_process h pid label phase artifact_path device_path = stop_process h pid
     [Txt (''label='' @ label @ '' phase='' @ phase @ '' endpoint_role=server artifact='' @
       path_str artifact_path @ '' device_path='' @ device_path @
       '' process did not exit after SIGTERM; sending SIGKILL'')]"

definition s03_wait_for_port ::
    "host \<Rightarrow> nat \<Rightarrow> string \<Rightarrow> pyfloat \<Rightarrow> string \<Rightarrow> path \<Rightarrow> string \<Rightarrow> unit io" where
  "s03_wait_for_port h pid addr timeout_s label artifact_path device_path =
    (let head = ''label='' @ label @ '' phase=server-startup endpoint_role=server artifact='' @
                path_str artifact_path @ '' device_path='' @ device_path in
    iobnd (lift (split_addr addr)) (\<lambda>(a, port).
    iobnd (monotonic h) (\<lambda>now.
    wait_loop h pid a port (fadd now timeout_s)
      (iobnd (s03_drain_process_output h pid) (\<lambda>(so, se).
       iobnd (returncode pid) (\<lambda>rc.
       raise_io (RunError (output_msg (head @ '' exit='' @ rc_text rc) so se)))))
      (RunError [Txt (head @ '' timeout after '' @ fmt_fixed 1 timeout_s @ ''s'')]))))"

definition s03_build_common_args :: "obj \<Rightarrow> string \<Rightarrow> string \<Rightarrow> arg list res" where
  "s03_build_common_args entry addr device_path =
    bnd (build_rpc_args entry addr) (\<lambda>args.
    bnd (item entry ''instrumentation'') (\<lambda>instrumentation.
    bnd (item entry ''accelerated_path'') (\<lambda>accelerated_path.
    Inr (args @ [lit ''--instrumentation'', Val instrumentation,
                 lit ''--accelerated-path'', Val accelerated_path,
                 lit ''--accelerator-device'', lit device_path]))))"

text \<open>\<open>shutil.which\<close> is a look at the host: whether \<open>devenv\<close> is on the path.\<close>

definition s03_launch_prefix :: "bool \<Rightarrow> arg list res" where
  "s03_launch_prefix has_devenv = (if \<not> has_devenv then
     Inl (RunError [Txt ''phase=preflight launcher=devenv status=missing command not found''])
     else Inr [lit ''devenv'', lit ''shell'', lit ''--'', lit ''launch''])"

definition s03_run_id :: "host \<Rightarrow> int \<Rightarrow> string \<Rightarrow> string \<Rightarrow> string \<Rightarrow> string" where
  "s03_run_id h now label addr device =
    ''run-s03-'' @ str_int now @ ''-'' @ str_int (\<bar>h_hash h [label, addr, device]\<bar> mod 1000000)"

definition s03_server_cmd ::
    "arg list \<Rightarrow> path \<Rightarrow> arg list \<Rightarrow> string \<Rightarrow> json \<Rightarrow> path \<Rightarrow> arg list" where
  "s03_server_cmd launch binary common_args run_id requests server_artifact =
    launch @ [lit (path_str binary), lit ''--mode'', lit ''server''] @ common_args @
    [lit ''--run-id'', lit run_id, lit ''--shutdown-after-requests'', StrOf requests,
     lit ''--server-json-out'', lit (path_str server_artifact)]"

definition s03_client_cmd :: "arg list \<Rightarrow> path \<Rightarrow> arg list \<Rightarrow> string \<Rightarrow> path \<Rightarrow> arg list" where
  "s03_client_cmd launch binary common_args run_id client_artifact =
    launch @ [lit (path_str binary), lit ''--mode'', lit ''client''] @ common_args @
    [lit ''--run-id'', lit run_id, lit ''--json-out'', lit (path_str client_artifact)]"

definition s03_artifact :: "path \<Rightarrow> obj \<Rightarrow> string \<Rightarrow> path res" where
  "s03_artifact output_dir entry role =
    bnd (item entry ''endpoint_artifacts'') (\<lambda>artifacts.
    bnd (subscr artifacts role) (\<lambda>v.
    bnd (as_str v) (\<lambda>name. Inr (path_div output_dir name))))"

definition s03_run_one ::
    "host \<Rightarrow> arg list \<Rightarrow> path \<Rightarrow> path \<Rightarrow> string \<Rightarrow> pyfloat \<Rightarrow> pyfloat \<Rightarrow> pyfloat \<Rightarrow> obj \<Rightarrow> unit io" where
  "s03_run_one h launch binary output_dir device start_timeout client_timeout flush_timeout entry =
    iobnd (lift (bnd (item entry ''label'') as_str)) (\<lambda>label.
    iobnd (s03_reserve_addr h) (\<lambda>addr.
    iobnd (time_us h) (\<lambda>now.
    let run_id = s03_run_id h now label addr device in
    iobnd (lift (s03_build_common_args entry addr device)) (\<lambda>common_args.
    iobnd (lift (s03_artifact output_dir entry ''client'')) (\<lambda>client_artifact.
    iobnd (lift (s03_artifact output_dir entry ''server'')) (\<lambda>server_artifact.
    iobnd (lift (item entry ''requests'')) (\<lambda>requests.
    run_server_client_pair h
      \<lparr>pa_label = label,
       pa_server_cmd = s03_server_cmd launch binary common_args run_id requests server_artifact,
       pa_client_cmd = s03_client_cmd launch binary common_args run_id client_artifact,
       pa_server_artifact = server_artifact, pa_client_artifact = client_artifact,
       pa_bind_addr = addr, pa_target_addr = addr,
       pa_server_start_timeout = start_timeout, pa_client_timeout = client_timeout,
       pa_server_flush_timeout = flush_timeout, pa_error_cls = RunError,
       pa_context = [(''device_path'', device), (''launcher'', ''launch'')],
       pa_cleanup_phase = ''cleanup''\<rparr>)))))))"

definition s03_run_manifest ::
    "host \<Rightarrow> bool \<Rightarrow> s03_manifest \<Rightarrow> path \<Rightarrow> path \<Rightarrow> string \<Rightarrow> pyfloat \<Rightarrow> pyfloat \<Rightarrow> pyfloat \<Rightarrow> unit io" where
  "s03_run_manifest h has_devenv manifest binary output_dir device start_timeout client_timeout flush_timeout =
    iobnd (mkdir_p h output_dir) (\<lambda>_.
    iobnd (lift (s03_launch_prefix has_devenv)) (\<lambda>launch.
    ioeach (s03_run_one h launch binary output_dir device start_timeout client_timeout flush_timeout)
      (s03_workloads manifest)))"


section \<open>Checking a report\<close>

definition s03_parse_json :: "world \<Rightarrow> path \<Rightarrow> obj res" where
  "s03_parse_json w p =
    (let head = ''phase=artifact-validation artifact='' @ path_str p in
    bnd (except_as (fs_read w p) os_error_text (\<lambda>err.
           RunError [Txt (head @ '' read failed: '' @ err)])) (\<lambda>raw.
    if strip raw = [] then Inl (RunError [Txt (head @ '' file is empty'')]) else
    bnd (except_as (json_loads w raw) json_error_text (\<lambda>err.
           RunError [Txt (head @ '' invalid json: '' @ err)])) (\<lambda>value.
    case value of
      JObj d \<Rightarrow> Inr d
    | _ \<Rightarrow> Inl (RunError [Txt (head @ '' root must be an object'')]))))"

definition s03_require_key :: "obj \<Rightarrow> path \<Rightarrow> string \<Rightarrow> json res" where
  "s03_require_key d p key = (case map_of d key of
       None \<Rightarrow> Inl (RunError [Txt (''phase=artifact-validation artifact='' @ path_str p @ '' missing '' @ key)])
     | Some v \<Rightarrow> Inr v)"

definition s03_stage_triplet :: "obj \<Rightarrow> string \<Rightarrow> (int \<times> int \<times> int) res" where
  "s03_stage_triplet report stage_name =
    bnd (item report ''stages'') (\<lambda>stages.
    bnd (subscr stages stage_name) (\<lambda>stage.
    bnd (bnd (get_method stage ''count'' (JInt 0)) py_int) (\<lambda>count.
    bnd (bnd (get_method stage ''nanos'' (JInt 0)) py_int) (\<lambda>nanos.
    bnd (bnd (get_method stage ''bytes'' (JInt 0)) py_int) (\<lambda>bytes.
    Inr (count, nanos, bytes))))))"

fun s03_all_zero :: "obj \<Rightarrow> string list \<Rightarrow> bool res" where
  "s03_all_zero report [] = Inr True"
| "s03_all_zero report (n # ns) = bnd (s03_stage_triplet report n) (\<lambda>t.
     if t = (0, 0, 0) then s03_all_zero report ns else Inr False)"

definition s03_placeholder_only :: "obj \<Rightarrow> bool res" where
  "s03_placeholder_only report = s03_all_zero report REQUIRED_STAGE_NAMES"

definition s03_report_error :: "json \<Rightarrow> string \<Rightarrow> path \<Rightarrow> string \<Rightarrow> msg \<Rightarrow> exn" where
  "s03_report_error label role p device m = RunError ([Txt ''label='', str_frag label,
     Txt ('' phase=artifact-validation endpoint_role='' @ role @ '' artifact='' @ path_str p @
       '' device_path='' @ device @ '' '')] @ m)"

definition s03_check_stage :: "(msg \<Rightarrow> exn) \<Rightarrow> path \<Rightarrow> obj \<Rightarrow> string \<Rightarrow> unit res" where
  "s03_check_stage err p stages stage_name =
    bnd (s03_require_key stages p stage_name) (\<lambda>stage. case stage of
      JObj d \<Rightarrow> each (\<lambda>f. if \<not> has_key d f then
                 Inl (err [Txt (''missing stages.'' @ stage_name @ ''.'' @ f)]) else Inr ())
               REQUIRED_STAGE_COUNTER_FIELDS
    | _ \<Rightarrow> Inl (err [Txt (''stages.'' @ stage_name @ '' must be an object'')]))"

text \<open>\<open>expected_pairs\<close>: the fixed metadata come from \<open>entry["expected_metadata"]\<close>.\<close>

definition s03_expected_pairs :: "obj \<Rightarrow> string \<Rightarrow> json \<Rightarrow> (string \<times> json) list res" where
  "s03_expected_pairs entry role label =
    bnd (item entry ''expected_metadata'') (\<lambda>expected.
    bnd (subscr expected ''ordinary_path'') (\<lambda>ordinary_path.
    bnd (subscr expected ''selected_path'') (\<lambda>selected_path.
    bnd (subscr expected ''seam'') (\<lambda>seam.
    bnd (item entry ''rpc'') (\<lambda>rpc.
    bnd (item entry ''instrumentation'') (\<lambda>instrumentation.
    bnd (item entry ''buffer_policy'') (\<lambda>buffer_policy.
    bnd (subscr expected ''accelerated_lane'') (\<lambda>accelerated_lane.
    bnd (subscr expected ''accelerated_direction'') (\<lambda>accelerated_direction.
    Inr [(''mode'', JStr role), (''endpoint_role'', JStr role), (''ordinary_path'', ordinary_path),
      (''selected_path'', selected_path), (''seam'', seam), (''rpc'', rpc), (''workload_label'', label),
      (''instrumentation'', instrumentation), (''buffer_policy'', buffer_policy),
      (''accelerated_lane'', accelerated_lane), (''accelerated_direction'', accelerated_direction)])))))))))"

definition s03_check_device :: "(msg \<Rightarrow> exn) \<Rightarrow> obj \<Rightarrow> string \<Rightarrow> obj \<Rightarrow> unit res" where
  "s03_check_device err entry device metadata =
    bnd (item entry ''expected_metadata'') (\<lambda>expected.
    bnd (subscr expected ''require_device_path'') (\<lambda>required.
    if truthy required \<and> \<not> py_eq (dget metadata ''accelerated_device_path'') (JStr device) then
      Inl (err [Txt ''metadata.accelerated_device_path='', Rep (dget metadata ''accelerated_device_path''),
                Txt '' expected '', Rep (JStr device)])
    else Inr ()))"

definition s03_check_payload :: "(msg \<Rightarrow> exn) \<Rightarrow> obj \<Rightarrow> obj \<Rightarrow> unit res" where
  "s03_check_payload err entry metadata =
    bnd (item entry ''rpc'') (\<lambda>rpc.
    if rpc = JStr ''unary-bytes'' then
      bnd (item entry ''payload_size'') (\<lambda>payload_size.
      if \<not> py_eq (dget metadata ''payload_size'') payload_size then
        Inl (err [Txt ''metadata.payload_size mismatch'']) else
      bnd (item entry ''payload_kind'') (\<lambda>payload_kind.
      if \<not> py_eq (dget metadata ''payload_kind'') payload_kind then
        Inl (err [Txt ''metadata.payload_kind mismatch'']) else Inr ()))
    else
      bnd (item entry ''proto_shape'') (\<lambda>proto_shape.
      if \<not> py_eq (dget metadata ''request_shape'') proto_shape then
        Inl (err [Txt ''metadata.request_shape mismatch'']) else
      bnd (item entry ''response_shape'') (\<lambda>response_shape.
      if \<not> py_eq (dget metadata ''response_shape'') response_shape then
        Inl (err [Txt ''metadata.response_shape mismatch'']) else Inr ())))"

definition s03_validate_report :: "obj \<Rightarrow> string \<Rightarrow> path \<Rightarrow> obj \<Rightarrow> string \<Rightarrow> unit res" where
  "s03_validate_report entry role p report device =
    bnd (item entry ''label'') (\<lambda>label. let err = s03_report_error label role p device in
    bnd (s03_require_key report p ''metadata'') (\<lambda>metadata_v.
    bnd (s03_require_key report p ''metrics'') (\<lambda>metrics_v.
    bnd (s03_require_key report p ''stages'') (\<lambda>stages_v.
    case metadata_v of JObj metadata \<Rightarrow>
     (case metrics_v of JObj metrics \<Rightarrow>
       (case stages_v of JObj stages \<Rightarrow>
         bnd (s03_expected_pairs entry role label) (\<lambda>expected_pairs.
         let positive = (\<lambda>field. if \<not> positive_int (dget metadata field) then
               Inl (err [Txt (''metadata.'' @ field @ '' must be a positive integer'')]) else Inr ()) in
         bnd (each (\<lambda>(key, expected). let actual = dget metadata key in
                if \<not> py_eq actual expected then Inl (err
                  [Txt (''metadata.'' @ key @ ''=''), Rep actual, Txt '' expected '', Rep expected])
                else Inr ()) expected_pairs) (\<lambda>_.
         bnd (s03_check_device err entry device metadata) (\<lambda>_.
         if \<not> nonempty_str (dget metadata ''run_id'') then
           Inl (err [Txt ''metadata.run_id must be a non-empty string'']) else
         bnd (each positive [''effective_codec_buffer_size'', ''effective_codec_yield_threshold'']) (\<lambda>_.
         bnd (each positive [''request_serialized_size'', ''response_serialized_size'']) (\<lambda>_.
         bnd (s03_check_payload err entry metadata) (\<lambda>_.
         if \<not> positive_int (dget metrics ''requests_completed'') then
           Inl (err [Txt ''metrics.requests_completed must be a positive integer'']) else
         let enabled = dget stages ''enabled'' in
         if enabled \<noteq> JBool True then
           Inl (err [Txt ''stages.enabled='', Rep enabled, Txt '' expected True'']) else
         bnd (each (s03_check_stage err p stages) REQUIRED_STAGE_NAMES) (\<lambda>_.
         bnd (s03_placeholder_only report) (\<lambda>only.
         if only then Inl (err [Txt ''counters stayed placeholder-only'']) else Inr ()))))))))
       | _ \<Rightarrow> Inl (err [Txt ''stages must be an object'']))
     | _ \<Rightarrow> Inl (err [Txt ''metrics must be an object'']))
    | _ \<Rightarrow> Inl (err [Txt ''metadata must be an object''])))))"

section \<open>Checking all reports\<close>

definition s03_validate_endpoint ::
    "path \<Rightarrow> string \<Rightarrow> obj \<Rightarrow> string \<Rightarrow> signatures \<Rightarrow> (obj \<times> signatures) io" where
  "s03_validate_endpoint output_dir device entry role sigs =
    iobnd (lift (item entry ''label'')) (\<lambda>label.
    iobnd (lift (s03_artifact output_dir entry role)) (\<lambda>p.
    let err = s03_report_error label role p device in
    iobnd (look (\<lambda>w. if \<not> fs_exists w p then Inl (err [Txt ''missing artifact''])
                     else s03_parse_json w p)) (\<lambda>report.
    iobnd (lift (s03_validate_report entry role p report device)) (\<lambda>_.
    iobnd (say [Txt ''label='', str_frag label, Txt ('' phase=artifact-validation endpoint_role='' @ role @
             '' artifact='' @ path_str p @ '' device_path='' @ device @ '' verdict=pass'')]) (\<lambda>_.
    iobnd (lift (report_signature report)) (\<lambda>sg. ret (report, add_signature sigs role label sg)))))))"

definition s03_compare :: "json \<Rightarrow> path \<Rightarrow> string \<Rightarrow> obj \<Rightarrow> obj \<Rightarrow> unit res" where
  "s03_compare label output_dir device client_report server_report =
    (let head = [Txt ''label='', str_frag label, Txt ('' phase=artifact-validation endpoint_role=client/server'' @
           '' artifact='' @ path_str output_dir @ '' device_path='' @ device @ '' '')] in
     bnd (report_run_id client_report) (\<lambda>client_run_id.
     bnd (report_run_id server_report) (\<lambda>server_run_id.
     if \<not> py_eq client_run_id server_run_id then Inl (RunError (head @ [Txt ''run_id mismatch client='',
         Rep client_run_id, Txt '' server='', Rep server_run_id])) else
     bnd (report_label client_report) (\<lambda>client_label.
     bnd (report_label server_report) (\<lambda>server_label.
     if \<not> py_eq client_label server_label then Inl (RunError (head @ [Txt ''workload_label mismatch'']))
     else Inr ())))))"

definition s03_validate_entry :: "path \<Rightarrow> string \<Rightarrow> signatures \<Rightarrow> obj \<Rightarrow> signatures io" where
  "s03_validate_entry output_dir device sigs entry =
    iobnd (s03_validate_endpoint output_dir device entry ''client'' sigs) (\<lambda>(client_report, sigs1).
    iobnd (s03_validate_endpoint output_dir device entry ''server'' sigs1) (\<lambda>(server_report, sigs2).
    iobnd (lift (item entry ''label'')) (\<lambda>label.
    iobnd (lift (s03_compare label output_dir device client_report server_report)) (\<lambda>_.
    ret sigs2))))"

definition s03_sensitivity :: "path \<Rightarrow> string \<Rightarrow> signatures \<Rightarrow> string \<Rightarrow> unit io" where
  "s03_sensitivity output_dir device sigs role =
    (let d = (case map_of sigs role of Some d \<Rightarrow> d | None \<Rightarrow> []);
         head = ''phase=workload-sensitivity endpoint_role='' @ role @ '' artifact='' @ path_str output_dir @
                '' device_path='' @ device in
     if length (remdups (map snd d)) \<le> 1 then raise_io (RunError [Txt (head @ '' labels='' @
         joined '', '' (label_texts d) @ '' stage signatures were identical across workloads'')])
     else say [Txt (head @ '' verdict=pass workloads='' @ str_nat (length d))])"

definition s03_validate_artifacts :: "s03_manifest \<Rightarrow> path \<Rightarrow> string \<Rightarrow> unit io" where
  "s03_validate_artifacts manifest output_dir device =
    iobnd (iofold (s03_validate_entry output_dir device)
             (map (\<lambda>role. (role, [])) EXPECTED_ENDPOINT_ROLES) (s03_workloads manifest)) (\<lambda>signatures.
    ioeach (s03_sensitivity output_dir device signatures) EXPECTED_ENDPOINT_ROLES)"


section \<open>The command\<close>

record s03_args =
  s03_arg_manifest :: string
  s03_arg_output_dir :: "string option"
  s03_arg_binary :: "string option"
  s03_arg_accelerator_device :: "string option"
  s03_arg_validate_only :: bool
  s03_arg_verify_only :: bool
  s03_arg_server_start_timeout :: pyfloat
  s03_arg_client_timeout :: pyfloat
  s03_arg_server_flush_timeout :: pyfloat

text \<open>\<open>not x\<close> of an optional text.\<close>

definition absent :: "string option \<Rightarrow> bool" where
  "absent x \<longleftrightarrow> x = None \<or> x = Some []"

definition s03_main :: "host \<Rightarrow> bool \<Rightarrow> path \<Rightarrow> s03_args \<Rightarrow> int io" where
  "s03_main h has_devenv accel_rpc_dir args =
    (if s03_arg_validate_only args \<and> s03_arg_verify_only args then
       iobnd (fail [Txt ''--validate-only and --verify-only are mutually exclusive'']) (\<lambda>_. ret 2)
     else try_except
      (iobnd (look (\<lambda>w. Inr (fs_resolve w (path_of (s03_arg_manifest args))))) (\<lambda>manifest_path.
       iobnd (look (\<lambda>w. s03_load_manifest w manifest_path)) (\<lambda>manifest.
       iobnd (say [Txt (''phase=manifest-parse manifest='' @ path_str manifest_path @ '' workloads='' @
                str_nat (length (s03_workloads manifest)))]) (\<lambda>_.
       if s03_arg_validate_only args then ret 0 else
       if absent (s03_arg_accelerator_device args) then raise_io (RunError
         [Txt ''phase=preflight accelerator-device is required unless --validate-only is used'']) else
       let device = the (s03_arg_accelerator_device args) in
       if absent (s03_arg_output_dir args) then raise_io (RunError
         [Txt ''phase=artifact-validation --output-dir is required unless --validate-only is used'']) else
       iobnd (look (\<lambda>w. Inr (fs_resolve w (path_of (the (s03_arg_output_dir args)))))) (\<lambda>output_dir.
       if s03_arg_verify_only args then
         iobnd (s03_validate_artifacts manifest output_dir device) (\<lambda>_.
         iobnd (say [Txt (''phase=artifact-validation-complete output_dir='' @ path_str output_dir @
                  '' device_path='' @ device)]) (\<lambda>_. ret 0))
       else
         iobnd (look (\<lambda>w. s03_locate_binary w accel_rpc_dir (s03_arg_binary args))) (\<lambda>binary.
         iobnd (s03_run_manifest h has_devenv manifest binary output_dir device
                  (s03_arg_server_start_timeout args) (s03_arg_client_timeout args)
                  (s03_arg_server_flush_timeout args)) (\<lambda>_.
         iobnd (s03_validate_artifacts manifest output_dir device) (\<lambda>_.
         iobnd (say [Txt (''phase=run-complete output_dir='' @ path_str output_dir @
                  '' device_path='' @ device)]) (\<lambda>_.
         ret 0)))))))))
      is_script_error (\<lambda>err. iobnd (fail (exn_msg err)) (\<lambda>_. ret 1)))"


section \<open>Lemmas: the manifest\<close>

lemma s03_required_str_iff [res_iff]:
  "s03_required_str d key scope = Inr v \<longleftrightarrow> map_of d key = Some (JStr v) \<and> v \<noteq> []"
  by (auto simp: s03_required_str_def dget_eq_iff [symmetric] split: json.splits)

lemma s03_required_bool_iff [res_iff]:
  "s03_required_bool d key scope = Inr b \<longleftrightarrow> map_of d key = Some (JBool b)"
  by (auto simp: s03_required_bool_def dget_eq_iff [symmetric] split: json.splits)

lemma s03_required_positive_int_iff [res_iff]:
  "s03_required_positive_int d key scope = Inr v \<longleftrightarrow> map_of d key = Some v \<and> positive_int v"
  by (cases "map_of d key") (auto simp: s03_required_positive_int_def dget_def positive_int_def)

lemma s03_required_raises [errs]:
  "raises is_manifest_error (s03_required_str d key scope)"
  "raises is_manifest_error (s03_required_bool d key scope)"
  "raises is_manifest_error (s03_required_positive_int d key scope)"
  unfolding s03_required_str_def s03_required_bool_def s03_required_positive_int_def Let_def
  by (intro errs; simp)+

text \<open>The only expected metadata that pass, up to the device flag.\<close>

definition s03_metadata_const :: "bool \<Rightarrow> obj" where
  "s03_metadata_const b = map (\<lambda>(k, v). (k, JStr v)) EXPECTED_METADATA_FIELDS @
     [(''require_device_path'', JBool b)]"

lemma s03_validate_expected_metadata_iff [res_iff]:
  "s03_validate_expected_metadata d = Inr v \<longleftrightarrow>
    list_all (\<lambda>(k, x). map_of d k = Some (JStr x)) EXPECTED_METADATA_FIELDS \<and>
    (\<exists>b. map_of d ''require_device_path'' = Some (JBool b) \<and> v = s03_metadata_const b)"
  unfolding s03_validate_expected_metadata_def s03_metadata_const_def EXPECTED_METADATA_FIELDS_def
  by (auto simp: res_iff Let_def)

lemma s03_validate_expected_metadata_raises [errs]:
  "raises is_manifest_error (s03_validate_expected_metadata d)"
  unfolding s03_validate_expected_metadata_def Let_def by (intro errs) simp_all

definition s03_artifacts_ok :: "obj \<Rightarrow> bool" where
  "s03_artifacts_ok d \<longleftrightarrow> (\<exists>c s. c \<noteq> s \<and> c \<noteq> [] \<and> s \<noteq> [] \<and>
     d = [(''client'', JStr c), (''server'', JStr s)])"

lemma s03_validate_endpoint_artifacts_iff [res_iff]:
  "s03_validate_endpoint_artifacts i l v = Inr d \<longleftrightarrow>
    (\<exists>ea c s. v = JObj ea \<and> map_of ea ''client'' = Some (JStr c) \<and> map_of ea ''server'' = Some (JStr s) \<and>
       c \<noteq> s \<and> c \<noteq> [] \<and> s \<noteq> [] \<and> d = [(''client'', JStr c), (''server'', JStr s)])"
  unfolding s03_validate_endpoint_artifacts_def EXPECTED_ENDPOINT_ROLES_def
  by (auto simp: res_iff Let_def)

lemma s03_validate_endpoint_artifacts_raises [errs]:
  "raises is_manifest_error (s03_validate_endpoint_artifacts i l v)"
  unfolding s03_validate_endpoint_artifacts_def Let_def by (intro errs) simp_all

text \<open>Beyond a ready workload, S03 fixes instrumentation and path.\<close>

definition s03_ready :: "obj \<Rightarrow> bool" where
  "s03_ready m \<longleftrightarrow> rpc_ready m \<and> dget m ''instrumentation'' = JStr ''on'' \<and>
     dget m ''accelerated_path'' = JStr ''idxd''"

lemma s03_check_fields_iff [res_iff]:
  assumes "dget m ''rpc'' = JStr rpc"
  shows "s03_check_fields scope l rpc m = Inr u \<longleftrightarrow> s03_ready m"
proof -
  have pos: "(\<exists>v. map_of m k = Some v \<and> positive_int v) \<longleftrightarrow> posint_field m k" for k
    by (simp add: posint_field_iff)
  have str: "(\<exists>v. map_of m k = Some (JStr v) \<and> v \<noteq> []) \<longleftrightarrow> str_field m k" for k
    by (simp add: str_field_iff)
  have on: "dget m k = JStr t \<longleftrightarrow> map_of m k = Some (JStr t)" for k t
    by (simp add: dget_eq_iff)
  have sf: "map_of m k = Some (JStr t) \<Longrightarrow> t \<noteq> [] \<Longrightarrow> str_field m k" for k t
    by (auto simp: str_field_iff)
  show ?thesis using assms sf
    by (auto simp: s03_check_fields_def s03_ready_def rpc_ready_def shape_ready_def nonneg_field_def
        res_iff pos str on Let_def)
qed

lemma s03_check_fields_raises [errs]: "raises is_manifest_error (s03_check_fields scope l rpc m)"
proof -
  let ?str = "\<lambda>k. bnd (s03_required_str m k scope) (\<lambda>_. Inr ())"
  have "raises is_manifest_error (item m k)" if "map_of m k \<noteq> None" for k
    using that by (auto simp: raises_def item_def)
  moreover have "map_of m ''instrumentation'' \<noteq> None \<and> map_of m ''accelerated_path'' \<noteq> None"
    if "each ?str [''runtime'', ''compression'', ''buffer_policy'', ''instrumentation'', ''accelerated_path''] = Inr u"
    for u using that by (auto simp: res_iff)
  ultimately show ?thesis
    unfolding s03_check_fields_def Let_def
    by (intro raises_if errs(2) raises_bnd_dep raises_each raises_bnd s03_required_raises errs(1)) auto
qed

lemma s03_validate_raises [errs]:
  "raises is_manifest_error (s03_validate_workload i v defaults seen em)"
  unfolding s03_validate_workload_def Let_def by (intro errs) simp_all

lemma s03_merged_fields [simp]:
  "dget (s03_merged defaults entry label rpc ea em) ''label'' = JStr label"
  "dget (s03_merged defaults entry label rpc ea em) ''rpc'' = JStr rpc"
  "dget (s03_merged defaults entry label rpc ea em) ''endpoint_artifacts'' = JObj ea"
  "dget (s03_merged defaults entry label rpc ea em) ''expected_metadata'' = JObj em"
  "map_of (s03_merged defaults entry label rpc ea em) ''label'' = Some (JStr label)"
  by (simp_all add: s03_merged_def dget_def)

definition s03_good :: "obj \<Rightarrow> obj \<Rightarrow> bool" where
  "s03_good em m \<longleftrightarrow> str_field m ''label'' \<and> s03_ready m \<and>
     obj_field m ''endpoint_artifacts'' \<and> s03_artifacts_ok (sub m ''endpoint_artifacts'') \<and>
     dget m ''expected_metadata'' = JObj em"

lemma s03_validate_Inr_iff:
  "s03_validate_workload i v defaults seen em = Inr (m, seen') \<longleftrightarrow>
    (\<exists>entry label rpc ea d. v = JObj entry \<and>
       map_of entry ''label'' = Some (JStr label) \<and> label \<noteq> [] \<and> label \<notin> seen \<and>
       map_of entry ''rpc'' = Some (JStr rpc) \<and> rpc \<noteq> [] \<and>
       map_of entry ''endpoint_artifacts'' = Some (JObj ea) \<and>
       s03_validate_endpoint_artifacts i label (JObj ea) = Inr d \<and>
       m = s03_merged defaults entry label rpc d em \<and> s03_ready m \<and> seen' = insert label seen)"
proof -
  have d: "dget entry k = JObj x \<longleftrightarrow> map_of entry k = Some (JObj x)" for entry k x
    by (simp add: dget_eq_iff)
  show ?thesis
    unfolding s03_validate_workload_def
    by (simp add: bnd_Inr_iff if_raise_iff case_obj_iff s03_required_str_iff s03_check_fields_iff Let_def d)
      blast
qed

interpretation s03: workload_checker "\<lambda>i v seen. s03_validate_workload i v defaults seen em" "s03_good em"
  for defaults em
proof
  fix i v seen m seen'
  assume "s03_validate_workload i v defaults seen em = Inr (m, seen')"
  then obtain entry label rpc ea d where m: "m = s03_merged defaults entry label rpc d em" "label \<noteq> []"
    "label \<notin> seen" "seen' = insert label seen" "s03_ready m"
    and ea: "s03_validate_endpoint_artifacts i label (JObj ea) = Inr d"
    unfolding s03_validate_Inr_iff by blast
  from ea have "s03_artifacts_ok d"
    by (auto simp: s03_validate_endpoint_artifacts_iff s03_artifacts_ok_def)
  with m have "s03_good em m"
    by (simp add: s03_good_def str_field_def obj_field_def sub_def)
  with m show "\<exists>l. map_of m ''label'' = Some (JStr l) \<and> l \<notin> seen \<and> seen' = insert l seen \<and> s03_good em m"
    by simp
qed (rule s03_validate_raises)

lemma s03_load_manifest_raises:
  "raises (\<lambda>e. is_manifest_error e \<or> bnd (fs_read w p) (json_loads w) = Inl e) (s03_load_manifest w p)"
proof (cases "bnd (fs_read w p) (json_loads w)")
  case (Inl e)
  then show ?thesis
    by (auto simp: s03_load_manifest_def raises_def except_as_def split: option.splits)
next
  case (Inr root)
  have "raises is_manifest_error (s03_load_manifest w p)"
    unfolding s03_load_manifest_def Inr except_as_def sum.case bnd_simps Let_def
    by (intro errs s03.entries_rejected) simp_all
  then show ?thesis by (rule raises_weaken) simp
qed

lemma s03_load_manifest_Inr:
  assumes "s03_load_manifest w p = Inr m"
  obtains "s03_workloads m \<noteq> []" "distinct (map label_of (s03_workloads m))"
    "list_all (s03_good (s03_expected_metadata m)) (s03_workloads m)"
    "s03_expected_metadata m \<in> range s03_metadata_const"
    "set REQUIRED_LABELS \<subseteq> set (map label_of (s03_workloads m))"
proof -
  from assms obtain expected defaults ws seen where ne: "ws \<noteq> []"
    and em: "s03_validate_expected_metadata expected = Inr (s03_expected_metadata m)"
    and c: "check_entries (\<lambda>i v seen. s03_validate_workload i v defaults seen (s03_expected_metadata m))
        0 {} ws = Inr (s03_workloads m, seen)"
    and l: "sort (filter (\<lambda>l. JStr l \<notin> set (map (\<lambda>e. dget e ''label'') (s03_workloads m)))
        REQUIRED_LABELS) = []"
    by (auto simp: s03_load_manifest_def bnd_Inr_iff case_obj_iff case_arr_iff if_raise_iff
        except_as_Inr_iff Let_def)
  note e = s03.entries_accepted [OF c]
  have "s03_workloads m \<noteq> []" using e(1) ne by auto
  moreover have "list_all (s03_good (s03_expected_metadata m)) (s03_workloads m)"
    using e(5) by (simp add: list_all_iff)
  moreover have "s03_expected_metadata m \<in> range s03_metadata_const"
    using em by (auto simp: s03_validate_expected_metadata_iff)
  moreover have "set REQUIRED_LABELS \<subseteq> set (map label_of (s03_workloads m))"
    using l by (rule required_present)
  ultimately show ?thesis using that e(2) by blast
qed

text \<open>C24. A manifest that S03's \<open>load_manifest\<close> returns fixes the metadata to the tracked idxd path
  (only the device flag is free), has distinct labels that include the two required ones, and each
  of its workloads is instrumented, takes the idxd path, names two different artifacts and carries
  that metadata. If it raises, then with a \<open>ManifestError\<close>, unless reading or decoding raised
  something it does not catch.\<close>

theorem s03_load_manifest_outcome:
  "case s03_load_manifest w p of
     Inr m \<Rightarrow> s03_workloads m \<noteq> [] \<and> distinct (map label_of (s03_workloads m)) \<and>
       list_all (s03_good (s03_expected_metadata m)) (s03_workloads m) \<and>
       (\<exists>b. s03_expected_metadata m = s03_metadata_const b) \<and>
       set REQUIRED_LABELS \<subseteq> set (map label_of (s03_workloads m))
   | Inl e \<Rightarrow> is_manifest_error e \<or> bnd (fs_read w p) (json_loads w) = Inl e"
proof (cases "s03_load_manifest w p")
  case (Inl e)
  then show ?thesis using raisesD [OF s03_load_manifest_raises] by simp
next
  case (Inr m)
  show ?thesis using Inr by (rule s03_load_manifest_Inr) (use Inr in auto)
qed


section \<open>Lemmas: the reports\<close>

lemma s03_require_key_iff [res_iff]: "s03_require_key d p k = Inr v \<longleftrightarrow> map_of d k = Some v"
  by (auto simp: s03_require_key_def split: option.splits)

lemma s03_check_stage_iff [res_iff]: "s03_check_stage err p stages n = Inr u \<longleftrightarrow> stage_ok stages n"
  by (auto simp: s03_check_stage_def stage_ok_def obj_field_iff list_all_iff res_iff)

lemma s03_good_fields:
  assumes "s03_good (s03_metadata_const b) entry"
  shows "map_of entry ''label'' = Some (JStr (label_of entry))"
    "shape_ready entry" "str_field entry ''buffer_policy''"
    "posint_field entry ''requests''" "rpc_ready entry"
    "map_of entry ''instrumentation'' = Some (JStr ''on'')"
    "map_of entry ''accelerated_path'' = Some (JStr ''idxd'')"
    "map_of entry ''expected_metadata'' = Some (JObj (s03_metadata_const b))"
  using assms
  by (auto simp: s03_good_def s03_ready_def rpc_ready_def str_field_iff label_of_def dget_eq_iff)

lemma s03_metadata_const_items:
  "item (s03_metadata_const b) ''ordinary_path'' = Inr (JStr ''software'')"
  "item (s03_metadata_const b) ''selected_path'' = Inr (JStr ''idxd'')"
  "item (s03_metadata_const b) ''seam'' = Inr (JStr ''codec_body'')"
  "item (s03_metadata_const b) ''accelerated_lane'' = Inr (JStr ''codec_memmove'')"
  "item (s03_metadata_const b) ''accelerated_direction'' = Inr (JStr ''bidirectional'')"
  "item (s03_metadata_const b) ''require_device_path'' = Inr (JBool b)"
  by (simp_all add: s03_metadata_const_def EXPECTED_METADATA_FIELDS_def item_def)

definition s03_metadata_ok :: "bool \<Rightarrow> string \<Rightarrow> obj \<Rightarrow> string \<Rightarrow> obj \<Rightarrow> bool" where
  "s03_metadata_ok require_device device entry role metadata \<longleftrightarrow>
     fields_match metadata [(''mode'', JStr role), (''endpoint_role'', JStr role),
       (''ordinary_path'', JStr ''software''), (''selected_path'', JStr ''idxd''),
       (''seam'', JStr ''codec_body''), (''rpc'', dget entry ''rpc''),
       (''workload_label'', dget entry ''label''), (''instrumentation'', JStr ''on''),
       (''buffer_policy'', dget entry ''buffer_policy''), (''accelerated_lane'', JStr ''codec_memmove''),
       (''accelerated_direction'', JStr ''bidirectional'')] \<and>
     (require_device \<longrightarrow> dget metadata ''accelerated_device_path'' = JStr device) \<and>
     str_field metadata ''run_id'' \<and>
     list_all (posint_field metadata) [''effective_codec_buffer_size'',
       ''effective_codec_yield_threshold'', ''request_serialized_size'', ''response_serialized_size''] \<and>
     payload_matches entry metadata (dget entry ''response_shape'')"

lemma s03_check_payload_iff:
  assumes "shape_ready entry"
  shows "s03_check_payload err entry metadata = Inr u \<longleftrightarrow>
    payload_matches entry metadata (dget entry ''response_shape'')"
proof (cases "dget entry ''rpc'' = JStr ''unary-bytes''")
  case True
  then have "map_of entry ''rpc'' = Some (JStr ''unary-bytes'')" by (simp add: dget_eq_iff)
  moreover obtain n k where "map_of entry ''payload_size'' = Some n"
    "map_of entry ''payload_kind'' = Some (JStr k)"
    using assms True by (auto simp: shape_ready_def posint_field_iff str_field_iff)
  ultimately show ?thesis by (auto simp: s03_check_payload_def payload_matches_def res_iff)
next
  case False
  then have rpc: "map_of entry ''rpc'' = Some (JStr ''unary-proto-shape'')"
    using assms by (auto simp: shape_ready_def dget_eq_iff)
  moreover obtain q r where "map_of entry ''proto_shape'' = Some (JStr q)"
    "map_of entry ''response_shape'' = Some (JStr r)"
    using assms False by (auto simp: shape_ready_def str_field_iff)
  ultimately show ?thesis by (auto simp: s03_check_payload_def payload_matches_def res_iff)
qed

definition s03_report_ok :: "bool \<Rightarrow> string \<Rightarrow> obj \<Rightarrow> string \<Rightarrow> obj \<Rightarrow> bool" where
  "s03_report_ok require_device device entry role report \<longleftrightarrow>
     list_all (obj_field report) [''metadata'', ''metrics'', ''stages''] \<and>
     s03_metadata_ok require_device device entry role (sub report ''metadata'') \<and>
     posint_field (sub report ''metrics'') ''requests_completed'' \<and>
     dget (sub report ''stages'') ''enabled'' = JBool True \<and>
     list_all (stage_ok (sub report ''stages'')) REQUIRED_STAGE_NAMES \<and>
     s03_placeholder_only report = Inr False"

lemma s03_expected_pairs_eq:
  assumes "s03_good (s03_metadata_const b) entry"
  shows "s03_expected_pairs entry role (JStr (label_of entry)) = Inr
      [(''mode'', JStr role), (''endpoint_role'', JStr role),
       (''ordinary_path'', JStr ''software''), (''selected_path'', JStr ''idxd''),
       (''seam'', JStr ''codec_body''), (''rpc'', dget entry ''rpc''),
       (''workload_label'', dget entry ''label''), (''instrumentation'', JStr ''on''),
       (''buffer_policy'', dget entry ''buffer_policy''), (''accelerated_lane'', JStr ''codec_memmove''),
       (''accelerated_direction'', JStr ''bidirectional'')]"
proof -
  note g = s03_good_fields [OF assms]
  have "item entry ''rpc'' = Inr (dget entry ''rpc'')"
    using g(2) by (auto simp: shape_ready_def item_def dget_eq_iff)
  moreover have "item entry ''buffer_policy'' = Inr (dget entry ''buffer_policy'')"
    using g(3) by (rule item_field)
  moreover have "item entry ''instrumentation'' = Inr (JStr ''on'')"
    "item entry ''expected_metadata'' = Inr (JObj (s03_metadata_const b))"
    using g(6,8) by (simp_all add: item_def)
  ultimately show ?thesis using g(1)
    by (simp add: s03_expected_pairs_def s03_metadata_const_items)
qed

lemma s03_pairs_str:
  assumes "s03_good (s03_metadata_const b) entry"
  shows "\<exists>x y. dget entry ''rpc'' = JStr x \<and> dget entry ''buffer_policy'' = JStr y \<and>
    dget entry ''label'' = JStr (label_of entry)"
  using s03_good_fields(1-3) [OF assms] by (auto simp: shape_ready_def str_field_iff)

lemma s03_validate_report_iff:
  assumes "s03_good (s03_metadata_const b) entry"
  shows "s03_validate_report entry role p report device = Inr u \<longleftrightarrow>
    s03_report_ok b device entry role report"
proof -
  note g = s03_good_fields [OF assms]
  have l: "item entry ''label'' = Inr (JStr (label_of entry))"
    using g(1) by (simp add: item_def)
  have dev: "s03_check_device err entry device md = Inr u \<longleftrightarrow>
      (b \<longrightarrow> dget md ''accelerated_device_path'' = JStr device)" for err md u
    using g(8) by (auto simp: s03_check_device_def item_def [of entry] s03_metadata_const_items res_iff)
  obtain x y where xy: "dget entry ''rpc'' = JStr x" "dget entry ''buffer_policy'' = JStr y"
    "dget entry ''label'' = JStr (label_of entry)"
    using s03_pairs_str [OF assms] by blast
  show ?thesis
  proof (cases "list_all (obj_field report) [''metadata'', ''metrics'', ''stages'']")
    case False
    have "s03_validate_report entry role p report device \<noteq> Inr u"
      using False by (auto simp: s03_validate_report_def res_iff obj_field_iff Let_def)
    with False show ?thesis by (auto simp: s03_report_ok_def)
  next
    case True
    then obtain md ms st where m: "map_of report ''metadata'' = Some (JObj md)"
      "map_of report ''metrics'' = Some (JObj ms)" "map_of report ''stages'' = Some (JObj st)"
      by (auto simp: obj_field_iff)
    then have s: "sub report ''metadata'' = md" "sub report ''metrics'' = ms" "sub report ''stages'' = st"
      by simp_all
    show ?thesis using True
      unfolding s03_validate_report_def s03_report_ok_def l s
      by (auto simp: res_iff m dev s03_expected_pairs_eq [OF assms] s03_check_payload_iff [OF g(2)]
          s03_metadata_ok_def fields_match_def posint_field_def str_field_def list_all_iff Let_def xy)
  qed
qed

definition s03_path :: "path \<Rightarrow> obj \<Rightarrow> string \<Rightarrow> path" where
  "s03_path output_dir entry role = path_div output_dir (text_of (sub entry ''endpoint_artifacts'') role)"

lemma s03_artifact_path:
  assumes "s03_good em entry" "role \<in> set EXPECTED_ENDPOINT_ROLES"
  shows "s03_artifact output_dir entry role = Inr (s03_path output_dir entry role)"
proof -
  obtain c s where "map_of entry ''endpoint_artifacts'' =
      Some (JObj [(''client'', JStr c), (''server'', JStr s)])"
    using assms(1) by (auto simp: s03_good_def s03_artifacts_ok_def obj_field_iff)
  then show ?thesis using assms(2)
    by (auto simp: s03_artifact_def s03_path_def EXPECTED_ENDPOINT_ROLES_def item_def text_of_def sub_def
        dget_def)
qed

definition s03_report :: "world \<Rightarrow> path \<Rightarrow> obj \<Rightarrow> string \<Rightarrow> obj" where
  "s03_report w output_dir entry role = (case s03_parse_json w (s03_path output_dir entry role) of
     Inr r \<Rightarrow> r | Inl _ \<Rightarrow> [])"

definition s03_signature :: "world \<Rightarrow> path \<Rightarrow> string \<Rightarrow> obj \<Rightarrow> signature" where
  "s03_signature w output_dir role entry =
    (case report_signature (s03_report w output_dir entry role) of Inr sg \<Rightarrow> sg | Inl _ \<Rightarrow> (0, 0, 0, 0))"

definition s03_slot_ok :: "bool \<Rightarrow> string \<Rightarrow> world \<Rightarrow> path \<Rightarrow> obj \<Rightarrow> string \<Rightarrow> bool" where
  "s03_slot_ok require_device device w output_dir entry role \<longleftrightarrow>
    fs_exists w (s03_path output_dir entry role) \<and>
    \<not> isl (s03_parse_json w (s03_path output_dir entry role)) \<and>
    s03_report_ok require_device device entry role (s03_report w output_dir entry role) \<and>
    \<not> isl (report_signature (s03_report w output_dir entry role))"

definition s03_slot_line :: "path \<Rightarrow> string \<Rightarrow> obj \<Rightarrow> string \<Rightarrow> msg" where
  "s03_slot_line output_dir device entry role = [Txt ''label='', Txt (label_of entry),
     Txt ('' phase=artifact-validation endpoint_role='' @ role @ '' artifact='' @
       path_str (s03_path output_dir entry role) @ '' device_path='' @ device @ '' verdict=pass'')]"

lemma s03_validate_endpoint_iff:
  assumes "s03_good (s03_metadata_const b) entry" "role \<in> set EXPECTED_ENDPOINT_ROLES"
  shows "s03_validate_endpoint output_dir device entry role sigs s = Some (Inr (rep, sigs'), t) \<longleftrightarrow>
    s03_slot_ok b device (files s) output_dir entry role \<and>
    rep = s03_report (files s) output_dir entry role \<and>
    sigs' = add_signature sigs role (JStr (label_of entry)) (s03_signature (files s) output_dir role entry) \<and>
    t = s\<lparr>out_log := out_log s @ [s03_slot_line output_dir device entry role]\<rparr>"
proof -
  have l: "item entry ''label'' = Inr (JStr (label_of entry))"
    using s03_good_fields(1) [OF assms(1)] by (simp add: item_def)
  show ?thesis
  proof (cases "s03_parse_json (files s) (s03_path output_dir entry role)")
    case (Inl e)
    then show ?thesis
      unfolding s03_validate_endpoint_def l s03_artifact_path [OF assms]
      by (simp add: io_iff res_iff Let_def s03_slot_ok_def)
  next
    case (Inr r)
    then have r: "s03_report (files s) output_dir entry role = r"
      by (simp add: s03_report_def)
    have sg: "s03_signature (files s) output_dir role entry =
        (case report_signature r of Inr sg \<Rightarrow> sg | Inl _ \<Rightarrow> (0, 0, 0, 0))"
      using r by (simp add: s03_signature_def)
    show ?thesis
      unfolding s03_validate_endpoint_def l s03_artifact_path [OF assms] s03_slot_ok_def r
      using Inr sg
      by (auto simp: io_iff res_iff Let_def s03_validate_report_iff [OF assms(1)] s03_slot_line_def
          not_isl_iff)
  qed
qed

definition s03_run_id_of :: "world \<Rightarrow> path \<Rightarrow> obj \<Rightarrow> string \<Rightarrow> json" where
  "s03_run_id_of w output_dir entry role = dget (sub (s03_report w output_dir entry role) ''metadata'') ''run_id''"

lemma s03_slot_metadata:
  assumes "s03_slot_ok b device w output_dir entry role"
  obtains d where "item (s03_report w output_dir entry role) ''metadata'' = Inr (JObj d)"
    "s03_run_id_of w output_dir entry role = dget d ''run_id''" "str_field d ''run_id''"
    "dget d ''workload_label'' = dget entry ''label''"
proof -
  have ok: "s03_report_ok b device entry role (s03_report w output_dir entry role)"
    using assms by (simp add: s03_slot_ok_def)
  then obtain d where d: "map_of (s03_report w output_dir entry role) ''metadata'' = Some (JObj d)"
    by (auto simp: s03_report_ok_def obj_field_iff)
  with ok have "s03_metadata_ok b device entry role d" by (simp add: s03_report_ok_def)
  then have "str_field d ''run_id''" "dget d ''workload_label'' = dget entry ''label''"
    by (simp_all add: s03_metadata_ok_def fields_match_def)
  with d that show ?thesis by (simp add: item_def s03_run_id_of_def)
qed

lemma s03_compare_iff:
  assumes "s03_slot_ok b device w output_dir entry ''client''"
    "s03_slot_ok b device w output_dir entry ''server''" "s03_good (s03_metadata_const b) entry"
  shows "s03_compare l output_dir device (s03_report w output_dir entry ''client'')
      (s03_report w output_dir entry ''server'') = Inr u \<longleftrightarrow>
    s03_run_id_of w output_dir entry ''client'' = s03_run_id_of w output_dir entry ''server''"
proof -
  obtain c where c: "item (s03_report w output_dir entry ''client'') ''metadata'' = Inr (JObj c)"
    "s03_run_id_of w output_dir entry ''client'' = dget c ''run_id''" "str_field c ''run_id''"
    "dget c ''workload_label'' = dget entry ''label''"
    using s03_slot_metadata [OF assms(1)] .
  obtain d where d: "item (s03_report w output_dir entry ''server'') ''metadata'' = Inr (JObj d)"
    "s03_run_id_of w output_dir entry ''server'' = dget d ''run_id''" "str_field d ''run_id''"
    "dget d ''workload_label'' = dget entry ''label''"
    using s03_slot_metadata [OF assms(2)] .
  have get: "get_method (JObj x) k JNull = Inr (dget x k)" for x k by (simp add: dget_def)
  have l: "dget entry ''label'' = JStr (label_of entry)"
    using s03_good_fields(1) [OF assms(3)] by simp
  obtain rc rd where "dget c ''run_id'' = JStr rc" "dget d ''run_id'' = JStr rd"
    using c(3) d(3) by (auto simp: str_field_iff)
  then show ?thesis
    using c d l by (auto simp: s03_compare_def report_run_id_def report_label_def get res_iff Let_def
        simp del: get_method.simps)
qed

definition s03_record :: "world \<Rightarrow> path \<Rightarrow> signatures \<Rightarrow> obj \<Rightarrow> signatures" where
  "s03_record w output_dir sigs entry = add_signature
    (add_signature sigs ''client'' (JStr (label_of entry)) (s03_signature w output_dir ''client'' entry))
    ''server'' (JStr (label_of entry)) (s03_signature w output_dir ''server'' entry)"

definition s03_entry_ok :: "bool \<Rightarrow> string \<Rightarrow> world \<Rightarrow> path \<Rightarrow> obj \<Rightarrow> bool" where
  "s03_entry_ok require_device device w output_dir entry \<longleftrightarrow>
    list_all (s03_slot_ok require_device device w output_dir entry) EXPECTED_ENDPOINT_ROLES \<and>
    s03_run_id_of w output_dir entry ''client'' = s03_run_id_of w output_dir entry ''server''"

lemma s03_validate_entry_iff:
  assumes "s03_good (s03_metadata_const b) entry"
  shows "s03_validate_entry output_dir device sigs entry s = Some (Inr sigs', t) \<longleftrightarrow>
    s03_entry_ok b device (files s) output_dir entry \<and>
    sigs' = s03_record (files s) output_dir sigs entry \<and>
    t = s\<lparr>out_log := out_log s @ map (s03_slot_line output_dir device entry) EXPECTED_ENDPOINT_ROLES\<rparr>"
proof -
  have k: "''client'' \<in> set EXPECTED_ENDPOINT_ROLES" "''server'' \<in> set EXPECTED_ENDPOINT_ROLES"
    by (simp_all add: EXPECTED_ENDPOINT_ROLES_def)
  have l: "item entry ''label'' = Inr (JStr (label_of entry))"
    using s03_good_fields(1) [OF assms(1)] by (simp add: item_def)
  show ?thesis
    unfolding s03_validate_entry_def l
    by (auto simp: io_iff s03_validate_endpoint_iff [OF assms k(1)] s03_entry_ok_def s03_record_def
        s03_validate_endpoint_iff [OF assms k(2)] s03_compare_iff [OF _ _ assms]
        EXPECTED_ENDPOINT_ROLES_def)
qed

definition s03_sensitivity_line :: "path \<Rightarrow> string \<Rightarrow> string \<Rightarrow> nat \<Rightarrow> msg" where
  "s03_sensitivity_line output_dir device role n = [Txt (''phase=workload-sensitivity endpoint_role='' @
     role @ '' artifact='' @ path_str output_dir @ '' device_path='' @ device @
     '' verdict=pass workloads='' @ str_nat n)]"

lemma s03_sensitivity_iff:
  "s03_sensitivity output_dir device sigs role s = Some (Inr y, t) \<longleftrightarrow>
    (\<exists>d. map_of sigs role = Some d \<and> \<not> length (remdups (map snd d)) \<le> 1 \<and>
       t = s\<lparr>out_log := out_log s @ [s03_sensitivity_line output_dir device role (length d)]\<rparr>)"
proof (cases "map_of sigs role")
  case (Some d)
  then show ?thesis
    by (simp add: s03_sensitivity_def s03_sensitivity_line_def Let_def say_iff raise_io_def
        del: One_nat_def)
qed (simp add: s03_sensitivity_def raise_io_def)

definition s03_matrix_ok :: "bool \<Rightarrow> string \<Rightarrow> world \<Rightarrow> path \<Rightarrow> obj list \<Rightarrow> bool" where
  "s03_matrix_ok require_device device w output_dir ws \<longleftrightarrow>
    list_all (s03_entry_ok require_device device w output_dir) ws \<and>
    list_all (\<lambda>role. \<not> length (remdups (map (s03_signature w output_dir role) ws)) \<le> 1)
      EXPECTED_ENDPOINT_ROLES"

lemma s03_validate_artifacts_iff:
  assumes good: "list_all (s03_good (s03_metadata_const b)) (s03_workloads manifest)"
    and labels: "distinct (map label_of (s03_workloads manifest))"
  shows "s03_validate_artifacts manifest output_dir device s = Some (Inr y, t) \<longleftrightarrow>
    s03_matrix_ok b device (files s) output_dir (s03_workloads manifest) \<and>
    t = s\<lparr>out_log := out_log s @
      concat (map (\<lambda>e. map (s03_slot_line output_dir device e) EXPECTED_ENDPOINT_ROLES) (s03_workloads manifest)) @
      map (\<lambda>role. s03_sensitivity_line output_dir device role (length (s03_workloads manifest)))
        EXPECTED_ENDPOINT_ROLES\<rparr>"
proof -
  let ?ws = "s03_workloads manifest" and ?init = "map (\<lambda>role. (role, [])) EXPECTED_ENDPOINT_ROLES"
  let ?sigs = "foldl (s03_record (files s) output_dir) ?init ?ws"
  let ?u = "s\<lparr>out_log := out_log s @ concat (map (\<lambda>e. map (s03_slot_line output_dir device e)
    EXPECTED_ENDPOINT_ROLES) ?ws)\<rparr>"
  have fold: "iofold (s03_validate_entry output_dir device) ?init ?ws s = Some (Inr x, u) \<longleftrightarrow>
      (\<forall>e \<in> set ?ws. s03_entry_ok b device (files s) output_dir e) \<and> x = ?sigs \<and> u = ?u" for x u
    using good by (intro iofold_printing) (auto simp: list_all_iff s03_validate_entry_iff)
  have "distinct (map (\<lambda>e. JStr (label_of e)) ([] @ ?ws))"
    using labels by (simp add: distinct_map inj_on_def)
  from foldl_signatures [OF this, of ?init "s03_signature (files s) output_dir ''client''"
      "s03_signature (files s) output_dir ''server''" "s03_record (files s) output_dir"]
  have sigs: "map_of ?sigs role = Some (map (\<lambda>e. (JStr (label_of e),
      s03_signature (files s) output_dir role e)) ?ws)" if "role \<in> {''client'', ''server''}" for role
    using that by (auto simp: EXPECTED_ENDPOINT_ROLES_def s03_record_def)
  have each: "ioeach (s03_sensitivity output_dir device ?sigs) EXPECTED_ENDPOINT_ROLES u = Some (Inr y, t) \<longleftrightarrow>
      (\<forall>role \<in> set EXPECTED_ENDPOINT_ROLES.
         \<not> length (remdups (map (s03_signature (files s) output_dir role) ?ws)) \<le> 1) \<and>
      t = u\<lparr>out_log := out_log u @ concat (map (\<lambda>role.
        [s03_sensitivity_line output_dir device role (length ?ws)]) EXPECTED_ENDPOINT_ROLES)\<rparr>" for u t y
  proof (rule ioeach_printing)
    fix role s' t' and y' :: unit
    assume "role \<in> set EXPECTED_ENDPOINT_ROLES"
    then have "role \<in> {''client'', ''server''}" by (simp add: EXPECTED_ENDPOINT_ROLES_def)
    then show "s03_sensitivity output_dir device ?sigs role s' = Some (Inr y', t') \<longleftrightarrow>
      \<not> length (remdups (map (s03_signature (files s) output_dir role) ?ws)) \<le> 1 \<and>
      t' = s'\<lparr>out_log := out_log s' @ [s03_sensitivity_line output_dir device role (length ?ws)]\<rparr>"
      by (simp add: s03_sensitivity_iff sigs comp_def del: One_nat_def)
  qed
  show ?thesis
    unfolding s03_validate_artifacts_def
    by (auto simp: iobnd_iff fold each s03_matrix_ok_def list_all_iff simp del: One_nat_def)
qed

lemma s03_matrix_ok_iff:
  "s03_matrix_ok b device w output_dir ws \<longleftrightarrow>
    (\<forall>entry \<in> set ws. (\<forall>role \<in> {''client'', ''server''}. s03_slot_ok b device w output_dir entry role) \<and>
       s03_run_id_of w output_dir entry ''client'' = s03_run_id_of w output_dir entry ''server'') \<and>
    (\<forall>role \<in> {''client'', ''server''}. \<exists>e \<in> set ws. \<exists>e' \<in> set ws.
       s03_signature w output_dir role e \<noteq> s03_signature w output_dir role e')"
proof -
  have e: "s03_entry_ok b device w output_dir entry \<longleftrightarrow>
      (\<forall>role \<in> {''client'', ''server''}. s03_slot_ok b device w output_dir entry role) \<and>
      s03_run_id_of w output_dir entry ''client'' = s03_run_id_of w output_dir entry ''server''" for entry
    by (simp add: s03_entry_ok_def EXPECTED_ENDPOINT_ROLES_def)
  have r: "set EXPECTED_ENDPOINT_ROLES = {''client'', ''server''}"
    by (simp add: EXPECTED_ENDPOINT_ROLES_def)
  have d: "\<not> length (remdups (map f xs)) \<le> 1 \<longleftrightarrow> (\<exists>x \<in> set xs. \<exists>y \<in> set xs. f x \<noteq> f y)"
    for f :: "obj \<Rightarrow> signature" and xs
    by (simp add: two_distinct del: One_nat_def)
  show ?thesis unfolding s03_matrix_ok_def list_all_iff e r d by (rule refl)
qed

text \<open>The device flag of a loaded manifest.\<close>

definition s03_require_device :: "s03_manifest \<Rightarrow> bool" where
  "s03_require_device m \<longleftrightarrow> dget (s03_expected_metadata m) ''require_device_path'' = JBool True"

lemma s03_loaded_good:
  assumes "s03_load_manifest w p = Inr m"
  shows "list_all (s03_good (s03_metadata_const (s03_require_device m))) (s03_workloads m)"
    and "distinct (map label_of (s03_workloads m))"
proof -
  obtain b where b: "s03_expected_metadata m = s03_metadata_const b"
    using assms by (rule s03_load_manifest_Inr) blast
  have "list_all (s03_good (s03_expected_metadata m)) (s03_workloads m)"
    using assms by (rule s03_load_manifest_Inr)
  moreover have "s03_require_device m = b"
    by (simp add: s03_require_device_def b dget_def s03_metadata_const_def EXPECTED_METADATA_FIELDS_def)
  ultimately show "list_all (s03_good (s03_metadata_const (s03_require_device m))) (s03_workloads m)"
    using b by simp
  show "distinct (map label_of (s03_workloads m))" using assms by (rule s03_load_manifest_Inr)
qed

text \<open>C4. For a manifest that loads, S03's \<open>validate_artifacts\<close> succeeds exactly when for every
  workload both reports exist, parse, and prove the idxd path (selected path, seam, lane, direction,
  the given device if the manifest demands it, complete and non-zero stages), both carry the same run
  id, and on neither side do all workloads show the same byte counters.\<close>

theorem s03_validate_artifacts_correct:
  assumes "s03_load_manifest w p = Inr manifest"
  shows "(\<exists>t. s03_validate_artifacts manifest output_dir device s = Some (Inr (), t) \<and> files t = files s \<and>
      events t = events s \<and>
      length (out_log t) = length (out_log s) + 2 * length (s03_workloads manifest) + 2) \<longleftrightarrow>
    (\<forall>entry \<in> set (s03_workloads manifest).
       (\<forall>role \<in> {''client'', ''server''}.
          s03_slot_ok (s03_require_device manifest) device (files s) output_dir entry role) \<and>
       s03_run_id_of (files s) output_dir entry ''client'' =
         s03_run_id_of (files s) output_dir entry ''server'') \<and>
    (\<forall>role \<in> {''client'', ''server''}. \<exists>e \<in> set (s03_workloads manifest).
       \<exists>e' \<in> set (s03_workloads manifest).
         s03_signature (files s) output_dir role e \<noteq> s03_signature (files s) output_dir role e')"
  (is "?l \<longleftrightarrow> ?r")
proof -
  note g = s03_loaded_good [OF assms]
  have len: "length (concat (map (\<lambda>e. map (f e) EXPECTED_ENDPOINT_ROLES) ws)) = 2 * length ws"
    for f :: "obj \<Rightarrow> string \<Rightarrow> msg" and ws
    by (induction ws) (simp_all add: EXPECTED_ENDPOINT_ROLES_def)
  have "?l \<longleftrightarrow> s03_matrix_ok (s03_require_device manifest) device (files s) output_dir (s03_workloads manifest)"
    unfolding s03_validate_artifacts_iff [OF g] by (simp add: len) (simp add: EXPECTED_ENDPOINT_ROLES_def)
  also have "\<dots> \<longleftrightarrow> ?r" by (rule s03_matrix_ok_iff)
  finally show ?thesis .
qed

text \<open>An example matrix: the two required workloads with their four reports.\<close>

definition s03_demo_entry :: "bool \<Rightarrow> string \<Rightarrow> json" where
  "s03_demo_entry bytes n = JObj ([(''label'', JStr (REQUIRED_LABELS ! (if bytes then 0 else 1))),
     (''measure_ms'', JInt 10), (''requests'', JInt 5), (''concurrency'', JInt 1),
     (''compression'', JStr ''off''), (''buffer_policy'', JStr ''default'')] @
     (if bytes then [(''rpc'', JStr ''unary-bytes''), (''payload_size'', JInt 64),
                     (''payload_kind'', JStr ''repeated'')]
      else [(''rpc'', JStr ''unary-proto-shape''), (''proto_shape'', JStr ''small''),
            (''response_shape'', JStr ''heavy'')]) @
     [(''endpoint_artifacts'', JObj (map (\<lambda>r. (r, JStr (n @ r))) EXPECTED_ENDPOINT_ROLES))])"

definition s03_demo_report :: "bool \<Rightarrow> string \<Rightarrow> json" where
  "s03_demo_report bytes role = JObj [(''metadata'', JObj ([(''mode'', JStr role),
       (''endpoint_role'', JStr role)] @ map (\<lambda>(k, v). (k, JStr v)) EXPECTED_METADATA_FIELDS @
       [(''accelerated_device_path'', JStr ''dev''),
       (''workload_label'', JStr (REQUIRED_LABELS ! (if bytes then 0 else 1))),
       (''instrumentation'', JStr ''on''), (''buffer_policy'', JStr ''default''), (''run_id'', JStr ''r''),
       (''effective_codec_buffer_size'', JInt 8192), (''effective_codec_yield_threshold'', JInt 32768),
       (''request_serialized_size'', JInt 70), (''response_serialized_size'', JInt 70)] @
       (if bytes then [(''rpc'', JStr ''unary-bytes''), (''payload_size'', JInt 64),
                       (''payload_kind'', JStr ''repeated'')]
        else [(''rpc'', JStr ''unary-proto-shape''), (''request_shape'', JStr ''small''),
              (''response_shape'', JStr ''heavy'')]))),
     (''metrics'', JObj [(''requests_completed'', JInt 5)]),
     (''stages'', JObj ((''enabled'', JBool True) # map (\<lambda>n. (n, JObj (map (\<lambda>f.
        (f, JInt (if bytes then 1 else 2))) REQUIRED_STAGE_COUNTER_FIELDS))) REQUIRED_STAGE_NAMES))]"

definition s03_demo_files :: "(string \<times> json) list" where
  "s03_demo_files = (''m'', JObj [(''defaults'', JObj [(''warmup_ms'', JInt 0), (''runtime'', JStr ''single''),
         (''instrumentation'', JStr ''on''), (''accelerated_path'', JStr ''idxd'')]),
       (''expected_metadata'', JObj ((''require_device_path'', JBool True) #
         map (\<lambda>(k, v). (k, JStr v)) EXPECTED_METADATA_FIELDS)),
       (''workloads'', JArr [s03_demo_entry True ''a'', s03_demo_entry False ''b''])]) #
     concat (map (\<lambda>(b, n). map (\<lambda>r. (''o/'' @ n @ r, s03_demo_report b r)) EXPECTED_ENDPOINT_ROLES)
       [(True, ''a''), (False, ''b'')])"

definition s03_demo_world :: world where
  "s03_demo_world = table_world s03_demo_files"

definition s03_demo_loaded :: s03_manifest where
  "s03_demo_loaded = (case s03_load_manifest s03_demo_world (path_of ''m'') of Inr m \<Rightarrow> m
     | Inl _ \<Rightarrow> \<lparr>s03_version = JNull, s03_defaults = [], s03_expected_metadata = [], s03_workloads = []\<rparr>)"

lemma s03_demo_loads: "s03_load_manifest s03_demo_world (path_of ''m'') = Inr s03_demo_loaded"
proof -
  have "\<not> isl (s03_load_manifest s03_demo_world (path_of ''m''))" by code_simp
  then show ?thesis by (auto simp: s03_demo_loaded_def split: sum.splits)
qed

lemma s03_demo_matrix:
  "s03_matrix_ok (s03_require_device s03_demo_loaded) ''dev'' s03_demo_world (path_of ''o'')
     (s03_workloads s03_demo_loaded)"
  by code_simp

lemma s03_demo_length: "length (s03_workloads s03_demo_loaded) = 2" "s03_require_device s03_demo_loaded"
  by code_simp+

theorem s03_validate_artifacts_witness:
  "s03_require_device s03_demo_loaded \<and> length (s03_workloads s03_demo_loaded) = 2 \<and>
   (\<exists>t. s03_validate_artifacts s03_demo_loaded (path_of ''o'') ''dev''
      (demo_mach\<lparr>files := s03_demo_world\<rparr>) = Some (Inr (), t) \<and> length (out_log t) = 6)"
  using s03_validate_artifacts_correct [OF s03_demo_loads, of "path_of ''o''" "''dev''"
      "demo_mach\<lparr>files := s03_demo_world\<rparr>"] s03_demo_matrix s03_demo_length
  unfolding s03_matrix_ok_iff by (auto simp: demo_mach_def)

interpretation s03_matrix: evidence_matrix EXPECTED_ENDPOINT_ROLES "s03_path output_dir" s03_parse_json
  "s03_report_ok b device"
  for output_dir b device
proof
  fix e e' k k' r
  assume "s03_report_ok b device e k r" "s03_report_ok b device e' k' r"
  then show "dget e ''label'' = dget e' ''label'' \<and> k = k'"
    by (auto simp: s03_report_ok_def s03_metadata_ok_def fields_match_def)
qed (simp add: EXPECTED_ENDPOINT_ROLES_def)

text \<open>C31. A matrix that S03 accepts has its reports in pairwise different files.\<close>

theorem s03_accepted_files_distinct:
  assumes "s03_load_manifest w p = Inr manifest"
    and "s03_validate_artifacts manifest output_dir device s = Some (Inr (), t)"
  shows "distinct (map (\<lambda>(e, role). s03_path output_dir e role)
    (List.product (s03_workloads manifest) EXPECTED_ENDPOINT_ROLES))"
proof -
  let ?b = "s03_require_device manifest"
  note g = s03_loaded_good [OF assms(1)]
  have ok: "\<forall>e \<in> set (s03_workloads manifest). s03_entry_ok ?b device (files s) output_dir e"
    using assms(2) unfolding s03_validate_artifacts_iff [OF g] by (simp add: s03_matrix_ok_def list_all_iff)
  show ?thesis
  proof (rule s03_matrix.matrix_files_distinct [OF g(2), where w = "files s"], intro ballI)
    fix e k
    assume "e \<in> set (s03_workloads manifest)" "k \<in> set EXPECTED_ENDPOINT_ROLES"
    then have "s03_slot_ok ?b device (files s) output_dir e k"
      using ok by (auto simp: s03_entry_ok_def list_all_iff)
    then show "\<exists>r. s03_parse_json (files s) (s03_path output_dir e k) = Inr r \<and> s03_report_ok ?b device e k r"
      by (auto simp: s03_slot_ok_def s03_report_def not_isl_iff)
  qed
qed

theorem s03_accepted_files_distinct_witness:
  "distinct (map (\<lambda>(e, role). s03_path (path_of ''o'') e role)
     (List.product (s03_workloads s03_demo_loaded) EXPECTED_ENDPOINT_ROLES))"
proof -
  obtain t where "s03_validate_artifacts s03_demo_loaded (path_of ''o'') ''dev''
      (demo_mach\<lparr>files := s03_demo_world\<rparr>) = Some (Inr (), t)"
    unfolding s03_validate_artifacts_iff [OF s03_loaded_good [OF s03_demo_loads]]
    using s03_demo_matrix by simp
  then show ?thesis by (rule s03_accepted_files_distinct [OF s03_demo_loads])
qed

text \<open>\<open>run_s03_idxd_evidence.py --verify-only\<close> with a device and a directory exits with status
  0 exactly when the manifest loads and the whole matrix passes for that device; with an empty or
  missing device it never does.\<close>

theorem s03_verify_only_exit:
  assumes "s03_arg_verify_only args" "\<not> s03_arg_validate_only args"
    "s03_arg_output_dir args = Some d" "d \<noteq> []"
  shows "(\<exists>t. s03_main h has_devenv accel args s = Some (Inr 0, t)) \<longleftrightarrow>
    (\<exists>m device. s03_arg_accelerator_device args = Some device \<and> device \<noteq> [] \<and>
       s03_load_manifest (files s) (fs_resolve (files s) (path_of (s03_arg_manifest args))) = Inr m \<and>
       s03_matrix_ok (s03_require_device m) device (files s) (fs_resolve (files s) (path_of d))
         (s03_workloads m))"
proof (cases "absent (s03_arg_accelerator_device args)")
  case True
  then show ?thesis unfolding s03_main_def using assms
    by (auto simp: exit_unless io_iff Let_def absent_def)
next
  case False
  then obtain device where d: "s03_arg_accelerator_device args = Some device" "device \<noteq> []"
    by (auto simp: absent_def)
  show ?thesis
    unfolding s03_main_def using assms d
    by (auto simp: exit_unless io_iff Let_def absent_def s03_validate_artifacts_iff [OF s03_loaded_good])
qed

theorem s03_verify_only_exit_witness:
  "\<exists>t. s03_main demo_host False (path_of ''a'') \<lparr>s03_arg_manifest = ''m'', s03_arg_output_dir = Some ''o'',
      s03_arg_binary = None, s03_arg_accelerator_device = Some ''dev'', s03_arg_validate_only = False,
      s03_arg_verify_only = True, s03_arg_server_start_timeout = Fin 10, s03_arg_client_timeout = Fin 20,
      s03_arg_server_flush_timeout = Fin 10\<rparr> (demo_mach\<lparr>files := s03_demo_world\<rparr>) = Some (Inr 0, t)"
proof -
  have r: "fs_resolve s03_demo_world q = q" for q by (simp add: s03_demo_world_def)
  show ?thesis
    by (subst s03_verify_only_exit [of _ "''o''"]) (use s03_demo_matrix s03_demo_loads r in auto)
qed

section \<open>Properties of the run\<close>

lemma s03_reserve_addr_tame [calm]: "tame (s03_reserve_addr h)"
  by (auto simp: tame_def s03_reserve_addr_def split: prod.splits)

lemma s03_run_one_clean [calm]: "clean (s03_run_one h launch bin dir device st ct ft entry)"
  unfolding s03_run_one_def Let_def
  by (intro iobnd_clean lift_clean tame_clean [OF s03_reserve_addr_tame] tame_clean [OF time_us_calm(1)]
      pair_clean)


definition s03_demo_single :: obj where
  "s03_demo_single = demo_workload @ [(''instrumentation'', JStr ''on''), (''accelerated_path'', JStr ''idxd''),
     (''endpoint_artifacts'', JObj (map (\<lambda>r. (r, JStr r)) EXPECTED_ENDPOINT_ROLES))]"

lemma s03_demo_run:
  "\<exists>t. s03_run_manifest demo_host True \<lparr>s03_version = JNull, s03_defaults = [], s03_expected_metadata = [],
      s03_workloads = [s03_demo_single]\<rparr> (path_of ''bin'') (path_of ''o'') ''dev'' (Fin 10) (Fin 20) (Fin 10)
      demo_mach = Some (Inr (), t) \<and> next_pid t = 1"
proof -
  have addr: "h_addr demo_host n = (''127.0.0.1'', 4000)" for n by (simp add: demo_host_def)
  have a: "split_addr (CHR ''1'' # CHR ''2'' # CHR ''7'' # CHR ''.'' # CHR ''0'' # CHR ''.'' # CHR ''0'' #
      CHR ''.'' # CHR ''1'' # CHR '':'' # str_int 4000) = Inr (''127.0.0.1'', 4000)"
    using split_addr_reserved [of "''127.0.0.1''" 4000] by simp
  have ready: "rpc_ready s03_demo_single" by code_simp
  have it: "item s03_demo_single ''label'' = Inr (JStr ''a'')" "item s03_demo_single ''requests'' = Inr (JInt 5)"
    "item s03_demo_single ''instrumentation'' = Inr (JStr ''on'')"
    "item s03_demo_single ''accelerated_path'' = Inr (JStr ''idxd'')"
    "item s03_demo_single ''endpoint_artifacts'' = Inr (JObj (map (\<lambda>r. (r, JStr r)) EXPECTED_ENDPOINT_ROLES))"
    by (simp_all add: item_def s03_demo_single_def demo_workload_def)
  have ic: "item ((k, v) # d) x = (if k = x then Inr v else item d x)" for k v d x
    by (auto simp: item_def)
  note defs = s03_run_manifest_def s03_run_one_def s03_launch_prefix_def s03_build_common_args_def
    build_rpc_args_ready [OF ready] it ic s03_artifact_def run_server_client_pair_def
    pair_start_def pair_guarded_def pair_body_def wait_for_port_def terminate_process_def
    stop_process_def wait_loop.simps iobnd_def try_except_def try_finally_def mkdir_p_def say_def
    popen_def monotonic_def poll_def connect_ex_def run_cmd_def wait_proc_def returncode_def ret_def
    lift_def time_us_def s03_reserve_addr_def
  show ?thesis
    by (simp add: defs addr a demo_deadline demo_mach_def ext_def Let_def
        EXPECTED_ENDPOINT_ROLES_def del: fadd.simps)
qed


text \<open>For a validated workload the S03 run starts both endpoints through the launcher with
  consistent commands: the same run id and device, the idxd path with instrumentation on, one
  reserved address on both sides, a server that stops after the client's requests, and the report
  files that are checked afterwards.\<close>

theorem s03_run_one_commands:
  assumes "s03_good (s03_metadata_const b) entry"
    and "n = Suc (length launch)"
  shows "\<exists>q addr. h_addr h (tick s) = addr \<and>
    s03_run_one h launch binary output_dir device st ct ft entry s = run_server_client_pair h q (ext h Bind s) \<and>
    take n (pa_server_cmd q) = launch @ [lit (path_str binary)] \<and>
    take n (pa_client_cmd q) = launch @ [lit (path_str binary)] \<and>
    pa_bind_addr q = fst addr @ '':'' @ str_int (snd addr) \<and> pa_target_addr q = pa_bind_addr q \<and>
    option_value ''--bind'' (drop n (pa_server_cmd q)) = Some (lit (pa_bind_addr q)) \<and>
    option_value ''--target'' (drop n (pa_client_cmd q)) = Some (lit (pa_target_addr q)) \<and>
    option_value ''--run-id'' (drop n (pa_server_cmd q)) = option_value ''--run-id'' (drop n (pa_client_cmd q)) \<and>
    option_value ''--run-id'' (drop n (pa_client_cmd q)) \<noteq> None \<and>
    (\<forall>cmd \<in> {pa_server_cmd q, pa_client_cmd q}.
       option_value ''--instrumentation'' (drop n cmd) = Some (lit ''on'') \<and>
       option_value ''--accelerated-path'' (drop n cmd) = Some (lit ''idxd'') \<and>
       option_value ''--accelerator-device'' (drop n cmd) = Some (lit device)) \<and>
    option_value ''--shutdown-after-requests'' (drop n (pa_server_cmd q)) =
      option_value ''--requests'' (drop n (pa_client_cmd q)) \<and>
    option_value ''--json-out'' (drop n (pa_client_cmd q)) =
      Some (lit (path_str (s03_path output_dir entry ''client''))) \<and>
    option_value ''--server-json-out'' (drop n (pa_server_cmd q)) =
      Some (lit (path_str (s03_path output_dir entry ''server'')))"
proof -
  note g = s03_good_fields [OF assms(1)]
  have k: "''client'' \<in> set EXPECTED_ENDPOINT_ROLES" "''server'' \<in> set EXPECTED_ENDPOINT_ROLES"
    by (simp_all add: EXPECTED_ENDPOINT_ROLES_def)
  have l: "bnd (item entry ''label'') as_str = Inr (label_of entry)"
    using g(1) by (simp add: item_def)
  have rq: "item entry ''requests'' = Inr (dget entry ''requests'')"
    using g(4) by (rule item_field)
  obtain a port where ap: "h_addr h (tick s) = (a, port)" by (cases "h_addr h (tick s)")
  define opts where "opts = (\<lambda>addr. ready_args entry addr @ [lit ''--instrumentation'', lit ''on'',
    lit ''--accelerated-path'', lit ''idxd'', lit ''--accelerator-device'', lit device])"
  have cmd: "s03_build_common_args entry addr device = Inr (opts addr)" for addr
    using g(6,7) by (simp add: s03_build_common_args_def build_rpc_args_ready [OF g(5)] item_def opts_def)
  note art = s03_artifact_path [OF assms(1) k(1)] s03_artifact_path [OF assms(1) k(2)]
  define addr where "addr = a @ '':'' @ str_int port"
  define run_id where "run_id = s03_run_id h (h_now_us h (tick (ext h Bind s))) (label_of entry) addr device"
  let ?c = "s03_path output_dir entry ''client''" and ?s = "s03_path output_dir entry ''server''"
  define q where "q = \<lparr>pa_label = label_of entry,
       pa_server_cmd = s03_server_cmd launch binary (opts addr) run_id (dget entry ''requests'') ?s,
       pa_client_cmd = s03_client_cmd launch binary (opts addr) run_id ?c,
       pa_server_artifact = ?s, pa_client_artifact = ?c, pa_bind_addr = addr, pa_target_addr = addr,
       pa_server_start_timeout = st, pa_client_timeout = ct, pa_server_flush_timeout = ft,
       pa_error_cls = RunError, pa_context = [(''device_path'', device), (''launcher'', ''launch'')],
       pa_cleanup_phase = ''cleanup''\<rparr>"
  have run: "s03_run_one h launch binary output_dir device st ct ft entry s = run_server_client_pair h q (ext h Bind s)"
    unfolding s03_run_one_def l rq cmd art
    by (simp add: iobnd_def lift_def time_us_def s03_reserve_addr_def ap Let_def q_def addr_def run_id_def)
  have sv: "pa_server_cmd q = s03_server_cmd launch binary (opts addr) run_id (dget entry ''requests'') ?s"
    and cl: "pa_client_cmd q = s03_client_cmd launch binary (opts addr) run_id ?c"
    and ba: "pa_bind_addr q = addr" "pa_target_addr q = addr"
    by (simp_all add: q_def)
  note ov = s03_server_cmd_def s03_client_cmd_def option_value_append opts_def ready_args_options
  have ad: "a @ CHR '':'' # str_int port = addr" by (simp add: addr_def)
  show ?thesis
    by (rule exI [of _ q], rule exI [of _ "(a, port)"]) (simp add: run ap sv cl ba ov ad assms(2))
qed

theorem s03_run_one_commands_witness:
  "\<exists>q. s03_run_one demo_host [] (path_of ''bin'') (path_of ''o'') ''dev'' (Fin 10) (Fin 20) (Fin 10)
      (hd (s03_workloads s03_demo_loaded)) demo_mach = run_server_client_pair demo_host q (ext demo_host Bind demo_mach) \<and>
    option_value ''--accelerator-device'' (drop 1 (pa_client_cmd q)) = Some (lit ''dev'')"
proof -
  have "s03_workloads s03_demo_loaded \<noteq> []" using s03_demo_length by auto
  then have g: "s03_good (s03_metadata_const (s03_require_device s03_demo_loaded)) (hd (s03_workloads s03_demo_loaded))"
    using s03_loaded_good(1) [OF s03_demo_loads] by (simp add: list_all_iff)
  show ?thesis using s03_run_one_commands [OF g, of 1 "[]" demo_host demo_mach "path_of ''bin''" "path_of ''o''" "''dev''"]
    by (simp del: One_nat_def) blast
qed

end
