(* ===== verification/ControlFloor.thy ===== *)
theory ControlFloor
  imports WorkloadSpec
begin

text \<open>
  The exporter of the async control floor (accel-rpc/async-bench/scripts/export_control_floor.py):
  it reads Criterion's output directories, writes one JSON summary, and can validate a summary that
  was written before. \<open>fs_list\<close> and \<open>fs_is_dir\<close> are the directory as \<open>iterdir\<close> shows it.
\<close>

section \<open>Reading\<close>

record benchmark_summary =
  bs_name :: string
  bs_benchmark_id :: string
  bs_criterion_directory :: string
  bs_benchmark_source :: string
  bs_estimates_source :: string
  bs_sample_source :: string
  bs_mean_ns :: pyfloat
  bs_median_ns :: pyfloat
  bs_slope_ns :: pyfloat
  bs_std_dev_ns :: pyfloat
  bs_sample_count :: int
  bs_sampling_mode :: string

definition to_json :: "benchmark_summary \<Rightarrow> obj" where
  "to_json b = [(''benchmark_name'', JStr (bs_name b)), (''benchmark_id'', JStr (bs_benchmark_id b)),
     (''criterion_directory'', JStr (bs_criterion_directory b)),
     (''benchmark_source'', JStr (bs_benchmark_source b)),
     (''estimates_source'', JStr (bs_estimates_source b)), (''sample_source'', JStr (bs_sample_source b)),
     (''mean_ns'', JFloat (bs_mean_ns b)), (''median_ns'', JFloat (bs_median_ns b)),
     (''slope_ns'', JFloat (bs_slope_ns b)), (''std_dev_ns'', JFloat (bs_std_dev_ns b)),
     (''sample_count'', JInt (bs_sample_count b)), (''sampling_mode'', JStr (bs_sampling_mode b))]"

text \<open>\<open>except FileNotFoundError\<close>\<close>

fun missing_file_text :: "exn \<Rightarrow> string option" where
  "missing_file_text (FileNotFoundError t) = Some t"
| "missing_file_text _ = None"

definition cf_load_json :: "world \<Rightarrow> path \<Rightarrow> json res" where
  "cf_load_json w p = except_as (except_as (bnd (fs_read w p) (json_loads w)) missing_file_text (\<lambda>_.
       ExportError [Txt (''missing JSON input: '' @ path_str p)]))
     json_error_text (\<lambda>exc. ExportError [Txt (''failed to parse JSON from '' @ path_str p @ '': '' @ exc)])"

definition require_mapping :: "json \<Rightarrow> string \<Rightarrow> obj res" where
  "require_mapping v description = (case v of JObj d \<Rightarrow> Inr d
     | _ \<Rightarrow> Inl (ExportError [Txt (description @ '' must be a JSON object'')]))"

definition require_non_empty_string :: "json \<Rightarrow> string \<Rightarrow> string res" where
  "require_non_empty_string v description = (let bad = ExportError [Txt (description @ '' must be a non-empty string'')] in
     case v of JStr t \<Rightarrow> (if strip t = [] then Inl bad else Inr t) | _ \<Rightarrow> Inl bad)"

definition cf_require_number :: "json \<Rightarrow> string \<Rightarrow> pyfloat res" where
  "cf_require_number v description = (if \<not> is_number v then
     Inl (ExportError [Txt (description @ '' must be numeric'')]) else num_float v)"

definition benchmark_name_from_metadata :: "obj \<Rightarrow> string \<Rightarrow> (string \<times> string) res" where
  "benchmark_name_from_metadata metadata suite_name =
    bnd (require_non_empty_string (dget metadata ''group_id'') ''benchmark group_id'') (\<lambda>group_id.
    if group_id \<noteq> suite_name then Inl (ExportError [Txt (''benchmark group_id mismatch: expected '' @
      suite_name @ '', found '' @ group_id)]) else
    let function_id = dget metadata ''function_id'' in
    bnd (if function_id = JNull then Inr group_id
         else require_non_empty_string function_id ''benchmark function_id'') (\<lambda>name.
    bnd (require_non_empty_string (let v = dget metadata ''full_id'' in
           if truthy v then v else dget metadata ''title'') ''benchmark id'') (\<lambda>benchmark_id.
    Inr (name, benchmark_id))))"

definition summarize_benchmark :: "world \<Rightarrow> path \<Rightarrow> string \<Rightarrow> benchmark_summary res" where
  "summarize_benchmark w directory suite_name =
    (let dir = path_str directory; new = path_div directory ''new'' in
    bnd (cf_load_json w (path_div new ''benchmark.json'')) (\<lambda>benchmark_json.
    bnd (cf_load_json w (path_div new ''estimates.json'')) (\<lambda>estimates_json.
    bnd (cf_load_json w (path_div new ''sample.json'')) (\<lambda>sample_json.
    bnd (require_mapping benchmark_json (''benchmark metadata in '' @ dir)) (\<lambda>benchmark_meta.
    bnd (require_mapping estimates_json (''estimates in '' @ dir)) (\<lambda>estimates.
    bnd (require_mapping sample_json (''sample metadata in '' @ dir)) (\<lambda>sample.
    bnd (benchmark_name_from_metadata benchmark_meta suite_name) (\<lambda>(name, benchmark_id).
    bnd (require_mapping (dget estimates ''mean'') (''mean estimate for '' @ name)) (\<lambda>mean.
    bnd (require_mapping (dget estimates ''median'') (''median estimate for '' @ name)) (\<lambda>median.
    bnd (require_mapping (dget estimates ''slope'') (''slope estimate for '' @ name)) (\<lambda>slope.
    bnd (require_mapping (dget estimates ''std_dev'') (''std_dev estimate for '' @ name)) (\<lambda>std_dev.
    bnd (require_non_empty_string (dget sample ''sampling_mode'') (''sampling mode for '' @ name)) (\<lambda>sampling_mode.
    let empty = ExportError [Txt (''sample times for '' @ name @ '' must be a non-empty list'')] in
    case dget sample ''times'' of JArr sample_times \<Rightarrow> (if sample_times = [] then Inl empty else
      bnd (cf_require_number (dget mean ''point_estimate'') (''mean point_estimate for '' @ name)) (\<lambda>mean_ns.
      bnd (cf_require_number (dget median ''point_estimate'') (''median point_estimate for '' @ name)) (\<lambda>median_ns.
      bnd (cf_require_number (dget slope ''point_estimate'') (''slope point_estimate for '' @ name)) (\<lambda>slope_ns.
      bnd (cf_require_number (dget std_dev ''point_estimate'') (''std_dev point_estimate for '' @ name)) (\<lambda>std_dev_ns.
      Inr \<lparr>bs_name = name, bs_benchmark_id = benchmark_id, bs_criterion_directory = dir,
           bs_benchmark_source = path_str (path_div new ''benchmark.json''),
           bs_estimates_source = path_str (path_div new ''estimates.json''),
           bs_sample_source = path_str (path_div new ''sample.json''),
           bs_mean_ns = mean_ns, bs_median_ns = median_ns, bs_slope_ns = slope_ns,
           bs_std_dev_ns = std_dev_ns, bs_sample_count = int (length sample_times),
           bs_sampling_mode = sampling_mode\<rparr>)))))
    | _ \<Rightarrow> Inl empty)))))))))))))"


section \<open>Exporting\<close>

text \<open>The sorted directories of the suite; they share their parent, so they sort by name.\<close>

definition benchmark_directories :: "world \<Rightarrow> path \<Rightarrow> path list" where
  "benchmark_directories w suite_root = map (path_div suite_root) (sort (filter (\<lambda>n.
     let entry = path_div suite_root n in
     fs_is_dir w entry \<and> fs_exists w (path_div (path_div entry ''new'') ''benchmark.json'')) (fs_list w suite_root)))"

definition missing_benchmarks :: "obj \<Rightarrow> string list \<Rightarrow> string list" where
  "missing_benchmarks benchmarks expected = filter (\<lambda>name. \<not> has_key benchmarks name) expected"

definition export_payload :: "world \<Rightarrow> path \<Rightarrow> string \<Rightarrow> string list \<Rightarrow> string \<Rightarrow> obj res" where
  "export_payload w criterion_root suite_name expected_benchmarks now =
    (let suite_root = path_div criterion_root suite_name in
    if \<not> fs_exists w suite_root then
      Inl (ExportError [Txt (''missing Criterion suite directory: '' @ path_str suite_root)]) else
    let directories = benchmark_directories w suite_root in
    if directories = [] then
      Inl (ExportError [Txt (''no benchmark directories found under '' @ path_str suite_root)]) else
    bnd (mapm (\<lambda>d. summarize_benchmark w d suite_name) directories) (\<lambda>summaries.
    let benchmark_map = foldl (\<lambda>d b. AList.update (bs_name b) (JObj (to_json b)) d) [] summaries;
        missing = missing_benchmarks benchmark_map expected_benchmarks in
    if missing \<noteq> [] then
      Inl (ExportError [Txt (''missing expected benchmark ids: '' @ joined '', '' missing)]) else
    Inr [(''schema_version'', JInt 1), (''suite_name'', JStr suite_name),
         (''criterion_root'', JStr (path_str criterion_root)), (''generated_at_utc'', JStr now),
         (''benchmarks'', JObj benchmark_map)]))"

definition export_summary :: "host \<Rightarrow> path \<Rightarrow> path \<Rightarrow> string \<Rightarrow> string list \<Rightarrow> obj io" where
  "export_summary h criterion_root out_path suite_name expected_benchmarks =
    iobnd (utc_now h) (\<lambda>now.
    iobnd (look (\<lambda>w. export_payload w criterion_root suite_name expected_benchmarks now)) (\<lambda>payload.
    iobnd (mkdir_p h (path_parent out_path)) (\<lambda>_.
    iobnd (write_text h out_path (h_dumps h (JObj payload) @ [CHR 0x0A])) (\<lambda>_. ret payload))))"


section \<open>Validating\<close>

definition cf_check_benchmark :: "string \<times> json \<Rightarrow> unit res" where
  "cf_check_benchmark = (\<lambda>(name, entry).
    bnd (require_mapping entry (''benchmark entry for '' @ name)) (\<lambda>benchmark.
    bnd (each (\<lambda>k. bnd (require_non_empty_string (dget benchmark k) (k @ '' for '' @ name)) (\<lambda>_. Inr ()))
           [''benchmark_name'', ''benchmark_id'', ''criterion_directory'', ''benchmark_source'',
            ''estimates_source'', ''sample_source'', ''sampling_mode'']) (\<lambda>_.
    bnd (each (\<lambda>k. bnd (cf_require_number (dget benchmark k) (k @ '' for '' @ name)) (\<lambda>_. Inr ()))
           [''mean_ns'', ''median_ns'', ''slope_ns'', ''std_dev_ns'']) (\<lambda>_.
    if \<not> positive_int (dget benchmark ''sample_count'') then
      Inl (ExportError [Txt (''sample_count for '' @ name @ '' must be a positive integer'')])
    else Inr ()))))"

definition validate_summary :: "world \<Rightarrow> path \<Rightarrow> string \<Rightarrow> string list \<Rightarrow> obj res" where
  "validate_summary w p suite_name expected_benchmarks =
    bnd (bnd (cf_load_json w p) (\<lambda>v. require_mapping v (''exported summary '' @ path_str p))) (\<lambda>payload.
    let schema_version = dget payload ''schema_version'' in
    if \<not> py_eq schema_version (JInt 1) then Inl (ExportError
      [Txt ''summary schema_version mismatch: expected 1, found '', str_frag schema_version]) else
    bnd (require_non_empty_string (dget payload ''suite_name'') ''suite_name'') (\<lambda>suite.
    if suite \<noteq> suite_name then Inl (ExportError [Txt (''suite_name mismatch: expected '' @ suite_name @
      '', found '' @ suite)]) else
    bnd (require_mapping (dget payload ''benchmarks'') ''benchmarks'') (\<lambda>benchmarks.
    let missing = missing_benchmarks benchmarks expected_benchmarks in
    if missing \<noteq> [] then
      Inl (ExportError [Txt (''missing expected benchmark ids: '' @ joined '', '' missing)]) else
    bnd (each cf_check_benchmark benchmarks) (\<lambda>_. Inr payload))))"

record cf_args =
  cf_arg_criterion_root :: "path option"
  cf_arg_out :: "path option"
  cf_arg_suite_name :: string
  cf_arg_expected :: "string list"
  cf_arg_validate_existing :: "path option"

text \<open>The line printed at the end: \<open>payload['suite_name']\<close> and \<open>len(payload['benchmarks'])\<close>.\<close>

definition cf_done_line :: "string \<Rightarrow> obj \<Rightarrow> path \<Rightarrow> unit io" where
  "cf_done_line verb payload p =
    iobnd (lift (item payload ''suite_name'')) (\<lambda>suite.
    iobnd (lift (bnd (item payload ''benchmarks'') (\<lambda>v. require_mapping v ''benchmarks''))) (\<lambda>benchmarks.
    say [Txt (verb @ '' control-floor summary: suite=''), str_frag suite,
         Txt ('' benchmarks='' @ str_nat (length benchmarks) @ '' path='' @ path_str p)]))"

fun is_export_error :: "exn \<Rightarrow> bool" where
  "is_export_error (ExportError _) = True"
| "is_export_error _ = False"

definition cf_main :: "host \<Rightarrow> cf_args \<Rightarrow> int io" where
  "cf_main h args = try_except
     (case cf_arg_validate_existing args of
        Some p \<Rightarrow>
          iobnd (look (\<lambda>w. validate_summary w p (cf_arg_suite_name args) (cf_arg_expected args))) (\<lambda>payload.
          iobnd (cf_done_line ''validated'' payload p) (\<lambda>_. ret 0))
      | None \<Rightarrow> (case (cf_arg_criterion_root args, cf_arg_out args) of
          (Some criterion_root, Some out) \<Rightarrow>
            iobnd (export_summary h criterion_root out (cf_arg_suite_name args) (cf_arg_expected args)) (\<lambda>payload.
            iobnd (cf_done_line ''exported'' payload out) (\<lambda>_. ret 0))
        | _ \<Rightarrow> raise_io (ExportError [Txt ''--criterion-root and --out are required in export mode''])))
     is_export_error
     (\<lambda>exc. iobnd (complain ([Txt ''export_control_floor.py: ''] @ exn_msg exc)) (\<lambda>_. ret 1))"

section \<open>Lemmas: what validation demands\<close>

lemma strip_Nil_iff: "strip t = [] \<longleftrightarrow> (\<forall>c \<in> set t. is_space c)"
proof
  assume "strip t = []"
  then have all: "\<forall>c \<in> set (dropWhile is_space t). is_space c"
    by (simp add: strip_def dropWhile_eq_Nil_conv)
  then have "dropWhile is_space t = []" using hd_dropWhile [of is_space t] hd_in_set by blast
  then show "\<forall>c \<in> set t. is_space c" by (simp add: dropWhile_eq_Nil_conv)
next
  assume "\<forall>c \<in> set t. is_space c"
  then have e: "dropWhile is_space t = []" by (simp add: dropWhile_eq_Nil_conv)
  show "strip t = []" unfolding strip_def e by simp
qed

definition text_field :: "obj \<Rightarrow> string \<Rightarrow> bool" where
  "text_field d k \<longleftrightarrow> (case dget d k of JStr t \<Rightarrow> strip t \<noteq> [] | _ \<Rightarrow> False)"

definition number_field :: "obj \<Rightarrow> string \<Rightarrow> bool" where
  "number_field d k \<longleftrightarrow> \<not> isl (num_float (dget d k))"

lemma require_mapping_iff [res_iff]: "require_mapping v s = Inr d \<longleftrightarrow> v = JObj d"
  by (cases v) (simp_all add: require_mapping_def)

lemma require_non_empty_string_iff [res_iff]:
  "require_non_empty_string v s = Inr t \<longleftrightarrow> v = JStr t \<and> strip t \<noteq> []"
  by (cases v) (auto simp: require_non_empty_string_def Let_def)

lemma cf_require_number_iff [res_iff]: "cf_require_number v s = Inr f \<longleftrightarrow> num_float v = Inr f"
  by (cases v) (simp_all add: cf_require_number_def)

text \<open>A benchmark entry, and a whole summary, that validation accepts.\<close>

definition benchmark_ok :: "json \<Rightarrow> bool" where
  "benchmark_ok v \<longleftrightarrow> (case v of JObj d \<Rightarrow>
     list_all (text_field d) [''benchmark_name'', ''benchmark_id'', ''criterion_directory'',
       ''benchmark_source'', ''estimates_source'', ''sample_source'', ''sampling_mode''] \<and>
     list_all (number_field d) [''mean_ns'', ''median_ns'', ''slope_ns'', ''std_dev_ns''] \<and>
     posint_field d ''sample_count'' | _ \<Rightarrow> False)"

definition summary_ok :: "string \<Rightarrow> string list \<Rightarrow> obj \<Rightarrow> bool" where
  "summary_ok suite_name expected payload \<longleftrightarrow>
     py_eq (dget payload ''schema_version'') (JInt 1) \<and>
     dget payload ''suite_name'' = JStr suite_name \<and> strip suite_name \<noteq> [] \<and>
     obj_field payload ''benchmarks'' \<and>
     list_all (has_key (sub payload ''benchmarks'')) expected \<and>
     list_all (\<lambda>x. benchmark_ok (snd x)) (sub payload ''benchmarks'')"

lemma cf_check_benchmark_iff [res_iff]: "cf_check_benchmark x = Inr u \<longleftrightarrow> benchmark_ok (snd x)"
proof (cases x)
  case (Pair name v)
  have t: "(\<exists>t. v = JStr t \<and> strip t \<noteq> []) \<longleftrightarrow> (case v of JStr t \<Rightarrow> strip t \<noteq> [] | _ \<Rightarrow> False)" for v
    by (cases v) auto
  have n: "(\<exists>f. num_float v = Inr f) \<longleftrightarrow> \<not> isl (num_float v)" for v
    by (cases "num_float v") auto
  show ?thesis
    by (cases v) (simp_all add: Pair cf_check_benchmark_def benchmark_ok_def res_iff text_field_def
        number_field_def posint_field_def t n list_all_iff)
qed

lemma cf_load_json_iff [res_iff]: "cf_load_json w p = Inr v \<longleftrightarrow> bnd (fs_read w p) (json_loads w) = Inr v"
  by (auto simp: cf_load_json_def res_iff)

lemma missing_benchmarks_iff: "missing_benchmarks d expected = [] \<longleftrightarrow> list_all (has_key d) expected"
  by (simp add: missing_benchmarks_def filter_empty_conv list_all_iff)

lemma validate_summary_iff:
  "validate_summary w p suite_name expected = Inr payload \<longleftrightarrow>
     bnd (fs_read w p) (json_loads w) = Inr (JObj payload) \<and> summary_ok suite_name expected payload"
  by (auto simp: validate_summary_def res_iff Let_def summary_ok_def missing_benchmarks_iff obj_field_def
      sub_def list_all_iff split: json.splits) (metis snd_conv)

section \<open>Lemmas: what the exporter writes\<close>

lemma set_joined: "w \<in> set ws \<Longrightarrow> set w \<subseteq> set (joined sep ws)"
  by (induction sep ws rule: joined.induct) auto

lemma path_str_part: "w \<in> set (path_parts p) \<Longrightarrow> set w \<subseteq> set (path_str p)"
  using set_joined [of w "path_parts p" "''/''"] by (auto simp: path_str_def Let_def)

lemma strip_path_str: "w \<in> set (path_parts p) \<Longrightarrow> c \<in> set w \<Longrightarrow> \<not> is_space c \<Longrightarrow> strip (path_str p) \<noteq> []"
  using path_str_part [of w p] by (auto simp: strip_Nil_iff)

text \<open>What is known of a benchmark that was summarised.\<close>

definition summarized :: "string \<Rightarrow> path \<Rightarrow> benchmark_summary \<Rightarrow> bool" where
  "summarized suite_name directory b \<longleftrightarrow> strip suite_name \<noteq> [] \<and> strip (bs_name b) \<noteq> [] \<and>
     strip (bs_benchmark_id b) \<noteq> [] \<and> bs_criterion_directory b = path_str directory \<and>
     strip (bs_benchmark_source b) \<noteq> [] \<and> strip (bs_estimates_source b) \<noteq> [] \<and>
     strip (bs_sample_source b) \<noteq> [] \<and> 0 < bs_sample_count b \<and> strip (bs_sampling_mode b) \<noteq> []"

lemma summarize_benchmark_Inr:
  assumes "summarize_benchmark w directory suite_name = Inr b"
  shows "summarized suite_name directory b"
proof -
  have n: "strip (path_str (path_div (path_div directory ''new'') f)) \<noteq> []"
    if f: "f \<in> {''benchmark.json'', ''estimates.json'', ''sample.json''}" for f
  proof (rule strip_path_str [of f _ "CHR ''j''"])
    show "f \<in> set (path_parts (path_div (path_div directory ''new'') f))" using f
      by (auto simp: path_join_def path_of_def root_of_def is_absolute_def startswith_def)
  qed (use f in \<open>auto simp: is_space_def\<close>)
  have name: "benchmark_name_from_metadata m suite_name = Inr (nm, i) \<Longrightarrow>
      strip suite_name \<noteq> [] \<and> strip nm \<noteq> [] \<and> strip i \<noteq> []" for m nm i
    by (auto simp: benchmark_name_from_metadata_def res_iff Let_def split: if_splits)
  from assms show ?thesis
    by (auto simp: summarize_benchmark_def bnd_Inr_iff case_arr_iff if_raise_iff Let_def summarized_def
        require_non_empty_string_iff n dest!: name split: prod.splits)
qed

lemma to_json_ok:
  assumes "summarized suite_name directory b" "strip (path_str directory) \<noteq> []"
  shows "benchmark_ok (sort_keys (JObj (to_json b)))"
proof -
  have d: "distinct (map fst (to_json b))" by (simp add: to_json_def)
  obtain e where e: "sort_keys (JObj (to_json b)) = JObj e" by simp
  have m: "map_of e k = map_option sort_keys (map_of (to_json b) k)" for k
    using map_of_sort_keys [OF d e] .
  show ?thesis unfolding e using assms
    by (simp add: benchmark_ok_def text_field_def number_field_def posint_field_def positive_int_def dget_def m
        to_json_def summarized_def del: sort_keys.simps(1))
qed

text \<open>The dictionary of benchmarks: every value belongs to a summary, every summary's name is a key.\<close>

lemma benchmark_map:
  defines "bm bs \<equiv> foldl (\<lambda>d b. AList.update (bs_name b) (JObj (to_json b)) d) [] bs"
  shows "distinct (map fst (bm bs))" "\<forall>(k, v) \<in> set (bm bs). \<exists>b \<in> set bs. k = bs_name b \<and> v = JObj (to_json b)"
    "fst ` set (bm bs) = bs_name ` set bs"
proof -
  have "distinct (map fst (bm bs)) \<and> (\<forall>(k, v) \<in> set (bm bs). \<exists>b \<in> set bs. k = bs_name b \<and> v = JObj (to_json b)) \<and>
    fst ` set (bm bs) = bs_name ` set bs"
    unfolding bm_def
  proof (induction bs rule: rev_induct)
    case (snoc b bs)
    let ?d = "foldl (\<lambda>d b. AList.update (bs_name b) (JObj (to_json b)) d) [] bs"
    have "(k, v) \<in> set (AList.update x y d) \<Longrightarrow> (k, v) \<in> set d \<or> (k = x \<and> v = y)" for k v x y
      and d :: "(string \<times> json) list" by (induction d) (auto split: if_splits)
    then have "\<forall>(k, v) \<in> set (AList.update (bs_name b) (JObj (to_json b)) ?d).
        \<exists>c \<in> set (bs @ [b]). k = bs_name c \<and> v = JObj (to_json c)" using snoc by fastforce
    moreover have "distinct (map fst (AList.update (bs_name b) (JObj (to_json b)) ?d))"
      using snoc by (simp add: distinct_update)
    moreover have "fst ` set (AList.update (bs_name b) (JObj (to_json b)) ?d) = bs_name ` set (bs @ [b])"
      using snoc by (simp add: dom_update [symmetric] dom_map_of_conv_image_fst [symmetric])
    ultimately show ?case by simp
  qed simp
  then show "distinct (map fst (bm bs))" "fst ` set (bm bs) = bs_name ` set bs"
    "\<forall>(k, v) \<in> set (bm bs). \<exists>b \<in> set bs. k = bs_name b \<and> v = JObj (to_json b)" by blast+
qed

lemma export_payload_Inr:
  assumes "export_payload w criterion_root suite_name expected now = Inr payload"
  obtains bs where "bs \<noteq> []"
    "list_all2 (summarized suite_name) (benchmark_directories w (path_div criterion_root suite_name)) bs"
    "payload = [(''schema_version'', JInt 1), (''suite_name'', JStr suite_name),
       (''criterion_root'', JStr (path_str criterion_root)), (''generated_at_utc'', JStr now),
       (''benchmarks'', JObj (foldl (\<lambda>d b. AList.update (bs_name b) (JObj (to_json b)) d) [] bs))]"
    "set expected \<subseteq> bs_name ` set bs"
proof -
  let ?ds = "benchmark_directories w (path_div criterion_root suite_name)"
  let ?bm = "foldl (\<lambda>d b. AList.update (bs_name b) (JObj (to_json b)) d) []"
  from assms obtain bs where ne: "?ds \<noteq> []" and bs: "mapm (\<lambda>d. summarize_benchmark w d suite_name) ?ds = Inr bs"
    and keys: "list_all (has_key (?bm bs)) expected"
    and p: "payload = [(''schema_version'', JInt 1), (''suite_name'', JStr suite_name),
       (''criterion_root'', JStr (path_str criterion_root)), (''generated_at_utc'', JStr now),
       (''benchmarks'', JObj (?bm bs))]"
    by (auto simp: export_payload_def bnd_Inr_iff if_raise_iff Let_def missing_benchmarks_iff)
  have "list_all2 (summarized suite_name) ?ds bs"
    using bs unfolding mapm_Inr_iff by (rule list_all2_mono) (rule summarize_benchmark_Inr)
  moreover have "bs \<noteq> []" using mapm_length [OF bs] ne by auto
  moreover have "set expected \<subseteq> bs_name ` set bs"
  proof
    fix n
    assume "n \<in> set expected"
    then have "n \<in> fst ` set (?bm bs)" using keys by (auto simp: list_all_iff has_key_def map_of_eq_None_iff)
    then show "n \<in> bs_name ` set bs" using benchmark_map(3) by simp
  qed
  ultimately show thesis using that p by blast
qed

lemma export_payload_valid:
  assumes "export_payload w criterion_root suite_name expected now = Inr payload"
    and dirs: "\<forall>d \<in> set (benchmark_directories w (path_div criterion_root suite_name)). strip (path_str d) \<noteq> []"
    and sorted: "sort_keys (JObj payload) = JObj payload'"
  shows "summary_ok suite_name expected payload'"
  using assms(1)
proof (rule export_payload_Inr)
  fix bs
  define bm where "bm = foldl (\<lambda>d b. AList.update (bs_name b) (JObj (to_json b)) d) [] bs"
  assume ne: "bs \<noteq> []"
    and bs: "list_all2 (summarized suite_name) (benchmark_directories w (path_div criterion_root suite_name)) bs"
    and p: "payload = [(''schema_version'', JInt 1), (''suite_name'', JStr suite_name),
       (''criterion_root'', JStr (path_str criterion_root)), (''generated_at_utc'', JStr now),
       (''benchmarks'', JObj (foldl (\<lambda>d b. AList.update (bs_name b) (JObj (to_json b)) d) [] bs))]"
    and keys: "set expected \<subseteq> bs_name ` set bs"
  note map = benchmark_map [of bs, folded bm_def]
  have d: "distinct (map fst payload)" by (simp add: p)
  have m: "map_of payload' k = map_option sort_keys (map_of payload k)" for k
    using map_of_sort_keys [OF d sorted] .
  obtain bm' where bm': "sort_keys (JObj bm) = JObj bm'" by simp
  have lookup: "map_of bm' k = map_option sort_keys (map_of bm k)" for k
    using map_of_sort_keys [OF map(1) bm'] .
  have each: "\<forall>b \<in> set bs. \<exists>d. summarized suite_name d b \<and> strip (path_str d) \<noteq> []"
    using bs dirs by (metis in_set_conv_nth list_all2_conv_all_nth)
  have suite: "strip suite_name \<noteq> []" using each ne by (force simp: summarized_def neq_Nil_conv)
  have ok: "benchmark_ok (snd x)" if "x \<in> set bm'" for x
  proof -
    have "x \<in> set (map (\<lambda>(k, v). (k, sort_keys v)) bm)" using that bm' by auto
    then obtain k v where "(k, v) \<in> set bm" "x = (k, sort_keys v)" by auto
    then obtain b where "b \<in> set bs" "snd x = sort_keys (JObj (to_json b))" using map(2) by fastforce
    then show ?thesis using each to_json_ok by metis
  qed
  have sub: "sub payload' ''benchmarks'' = bm'" "obj_field payload' ''benchmarks''"
    using bm' by (auto simp: sub_def obj_field_def dget_def m p bm_def [symmetric])
  have has: "has_key bm' n" if "n \<in> set expected" for n
    using that keys map(3) by (auto simp: has_key_def lookup map_of_eq_None_iff)
  show ?thesis unfolding summary_ok_def sub
    using suite ok has sub(2) by (auto simp: m p dget_def list_all_iff py_eq.simps)
qed

lemma export_summary_written:
  assumes "export_summary h criterion_root out suite_name expected s = Some (Inr payload, t)"
  shows "export_payload (files s) criterion_root suite_name expected (h_utc h (tick s)) = Inr payload"
    "fs_read (files t) out = Inr (h_dumps h (JObj payload) @ [CHR 0x0A])"
  using assms by (auto simp: export_summary_def iobnd_iff look_iff ret_iff utc_now_def write_text_def write_with_def
      put_text_def mkdir_p_def split: option.splits)

text \<open>C15. What \<open>export_summary\<close> writes, \<open>--validate-existing\<close> accepts: after a successful export,
  validating the written file for the same suite and the same expected benchmarks returns the
  payload (with its keys sorted, as \<open>json.dump\<close> wrote them). Assumed of \<open>json\<close>: reading what was
  dumped gives the value back; and no directory of the suite has a blank path.\<close>

theorem export_validate_roundtrip:
  assumes "export_summary h criterion_root out suite_name expected s = Some (Inr payload, t)"
    and json: "json_loads (files t) (h_dumps h (JObj payload) @ [CHR 0x0A]) = Inr (sort_keys (JObj payload))"
    and "\<forall>d \<in> set (benchmark_directories (files s) (path_div criterion_root suite_name)). strip (path_str d) \<noteq> []"
  shows "\<exists>payload'. sort_keys (JObj payload) = JObj payload' \<and>
    validate_summary (files t) out suite_name expected = Inr payload'"
proof -
  obtain payload' where s: "sort_keys (JObj payload) = JObj payload'" by simp
  note w = export_summary_written [OF assms(1)]
  have "validate_summary (files t) out suite_name expected = Inr payload'"
    unfolding validate_summary_iff using export_payload_valid [OF w(1) assms(3) s] json s w(2) by simp
  with s show ?thesis by blast
qed

text \<open>An example: one benchmark directory, exported and validated. The text that the host dumps is read
  back as the sorted payload.\<close>

definition cf_demo_docs :: "(string \<times> json) list" where
  "cf_demo_docs = [(''c/suite/b'', JNull), (''c/suite'', JNull),
     (''out/m'', JObj [(''expected_benchmarks'', JArr [JStr ''spawn''])]),
     (''c/suite/b/new/benchmark.json'', JObj [(''group_id'', JStr ''suite''), (''function_id'', JStr ''spawn''),
        (''full_id'', JStr ''suite/spawn'')]),
     (''c/suite/b/new/estimates.json'', JObj (map (\<lambda>k. (k, JObj [(''point_estimate'', JFloat (Fin 1))]))
        [''mean'', ''median'', ''slope'', ''std_dev''])),
     (''c/suite/b/new/sample.json'', JObj [(''sampling_mode'', JStr ''Linear''), (''times'', JArr [JFloat (Fin 1)])])]"

definition cf_demo_files :: "(string \<times> json) list \<Rightarrow> world" where
  "cf_demo_files docs = (table_world docs)\<lparr>fs_list := (\<lambda>_. [''b'']), fs_is_dir := (\<lambda>_. True)\<rparr>"

definition cf_demo_payload :: obj where
  "cf_demo_payload = (case export_payload (cf_demo_files cf_demo_docs) (path_of ''c'') ''suite'' [''spawn''] ''now'' of
     Inr d \<Rightarrow> d | Inl _ \<Rightarrow> [])"

definition cf_demo_world :: world where
  "cf_demo_world = cf_demo_files (cf_demo_docs @ [(''S'' @ [CHR 0x0A], sort_keys (JObj cf_demo_payload))])"

definition cf_demo_host :: host where
  "cf_demo_host = demo_host\<lparr>h_dumps := (\<lambda>_. ''S''), h_utc := (\<lambda>_. ''now'')\<rparr>"

lemma cf_demo_exported:
  "export_payload cf_demo_world (path_of ''c'') ''suite'' [''spawn''] ''now'' = Inr cf_demo_payload"
  by code_simp

lemma cf_demo_dirs: "\<forall>d \<in> set (benchmark_directories cf_demo_world (path_div (path_of ''c'') ''suite'')).
    strip (path_str d) \<noteq> []"
  by code_simp

lemma cf_demo_parsed: "json_loads cf_demo_world (''S'' @ [CHR 0x0A]) = Inr (sort_keys (JObj cf_demo_payload))"
  by (simp add: cf_demo_world_def cf_demo_files_def dget_def cf_demo_docs_def del: sort_keys.simps)

lemma cf_demo_reads: "fs_read cf_demo_world p = Inr (path_str p)"
  by (simp add: cf_demo_world_def cf_demo_files_def)

lemma cf_demo_exports:
  obtains t where "export_summary cf_demo_host (path_of ''c'') (path_of ''out/f'') ''suite'' [''spawn'']
      (demo_mach\<lparr>files := cf_demo_world\<rparr>) = Some (Inr cf_demo_payload, t)" "json_loads (files t) = json_loads cf_demo_world"
    "fs_read (files t) (path_of ''out/m'') = Inr ''out/m''"
    "json_loads (files t) (h_dumps cf_demo_host (JObj cf_demo_payload) @ [CHR 0x0A]) = Inr (sort_keys (JObj cf_demo_payload))"
proof -
  have "path_of ''out/f'' \<noteq> path_of ''out/m''" "path_str (path_of ''out/m'') = ''out/m''" by code_simp+
  then show thesis
    using cf_demo_parsed that
    by (simp add: export_summary_def iobnd_def look_def utc_now_def mkdir_p_def write_text_def write_with_def
        ret_def cf_demo_host_def cf_demo_exported put_text_def ext_def cf_demo_reads del: sort_keys.simps)
qed

theorem export_validate_witness:
  "\<exists>t payload'. export_summary cf_demo_host (path_of ''c'') (path_of ''out/f'') ''suite'' [''spawn'']
      (demo_mach\<lparr>files := cf_demo_world\<rparr>) = Some (Inr cf_demo_payload, t) \<and>
    validate_summary (files t) (path_of ''out/f'') ''suite'' [''spawn''] = Inr payload'"
proof (rule cf_demo_exports)
  fix t
  assume t: "export_summary cf_demo_host (path_of ''c'') (path_of ''out/f'') ''suite'' [''spawn'']
      (demo_mach\<lparr>files := cf_demo_world\<rparr>) = Some (Inr cf_demo_payload, t)"
    "json_loads (files t) (h_dumps cf_demo_host (JObj cf_demo_payload) @ [CHR 0x0A]) = Inr (sort_keys (JObj cf_demo_payload))"
  from export_validate_roundtrip [OF t] cf_demo_dirs t(1) show ?thesis by auto
qed

text \<open>\<open>export_control_floor.py --validate-existing FILE\<close> exits with status 0 exactly when the file
  holds a summary of the schema, for the suite, with every expected benchmark and well-formed
  entries; status 1 is an \<open>ExportError\<close>, and nothing is written in either case.\<close>

theorem validate_existing_exit:
  assumes "cf_arg_validate_existing args = Some p"
  shows "((\<exists>t. cf_main h args s = Some (Inr 0, t)) \<longleftrightarrow>
    (\<exists>payload. bnd (fs_read (files s) p) (json_loads (files s)) = Inr (JObj payload) \<and>
       summary_ok (cf_arg_suite_name args) (cf_arg_expected args) payload)) \<and>
    (\<forall>r t. cf_main h args s = Some (r, t) \<longrightarrow> files t = files s)"
proof -
  have line: "\<exists>t. cf_done_line verb payload p s = Some (Inr (), t)" if ok: "summary_ok suite expected payload"
    for verb payload s suite expected
  proof -
    obtain d where "map_of payload ''benchmarks'' = Some (JObj d)" "map_of payload ''suite_name'' = Some (JStr suite)"
      using ok by (auto simp: summary_ok_def obj_field_iff dget_eq_iff)
    then show ?thesis
      by (simp add: cf_done_line_def iobnd_def lift_def item_def require_mapping_def say_def)
  qed
  have quiet: "files t = files s" if "cf_done_line verb payload p s = Some (r, t)" for verb payload s r t
    using that by (auto simp: cf_done_line_def iobnd_def lift_def say_def split: sum.splits)
  have "(\<exists>t. cf_main h args s = Some (Inr 0, t)) \<longleftrightarrow>
    (\<exists>payload. validate_summary (files s) p (cf_arg_suite_name args) (cf_arg_expected args) = Inr payload)"
    using assms line
    by (auto simp: cf_main_def exit_unless [unfolded fail_def] iobnd_iff look_iff ret_iff validate_summary_iff)
  moreover have "files t = files s" if m: "cf_main h args s = Some (r, t)" for r t
    using m assms quiet
    by (auto simp: cf_main_def try_except_def iobnd_def look_def complain_def ret_def
        split: option.splits sum.splits if_splits prod.splits)
  ultimately show ?thesis unfolding validate_summary_iff by blast
qed

lemma cf_demo_ok:
  "summary_ok ''suite'' [''spawn''] cf_demo_payload"
  by code_simp

theorem validate_existing_exit_witness:
  "\<exists>t. cf_main cf_demo_host \<lparr>cf_arg_criterion_root = None, cf_arg_out = None, cf_arg_suite_name = ''suite'',
      cf_arg_expected = [''spawn''], cf_arg_validate_existing = Some (path_of ''f'')\<rparr>
      (demo_mach\<lparr>files := table_world [(''f'', JObj cf_demo_payload)]\<rparr>) = Some (Inr 0, t)"
proof -
  have "path_str (path_of ''f'') = ''f''" by code_simp
  then show ?thesis
    by (subst validate_existing_exit [of _ "path_of ''f''", THEN conjunct1])
      (use cf_demo_ok in \<open>auto simp: dget_def\<close>)
qed

end
