(* ===== verification/ClaimContract.thy ===== *)
theory ClaimContract
  imports WorkloadSpec "HOL-Library.Product_Lexorder"
begin

text \<open>
  The contract of the S04 claim package (accel-rpc/tonic-profile/scripts/claim_package_contract.py):
  the manifest \<open>s04_claim_package.json\<close> names three families of reports, and \<open>load_manifest\<close> accepts
  it only if every family covers the curated workloads and agrees with the S02 and S03 manifests it
  is drawn from. \<open>repo\<close> stands for \<open>REPO_ROOT\<close>, which the module computes from its own location.
\<close>

section \<open>Constants\<close>

definition S04_LABELS :: "string list" where
  "S04_LABELS = [''ordinary/unary-bytes/repeated-64'',
     ''ordinary/unary-proto-shape/fleet-small-to-fleet-response-heavy'']"

definition REQUIRED_PAIRING_KEYS :: "string list" where
  "REQUIRED_PAIRING_KEYS = [''workload_label'', ''endpoint_role'', ''run_family'']"

record family_spec =
  ef_source_key :: string
  ef_instrumentation :: string
  ef_selected_path :: string
  ef_prefix :: string

definition EXPECTED_FAMILIES :: "(string, family_spec) dict" where
  "EXPECTED_FAMILIES =
    [(''software_baseline'', \<lparr>ef_source_key = ''software_manifest'', ef_instrumentation = ''off'',
        ef_selected_path = ''software'', ef_prefix = ''software/''\<rparr>),
     (''software_attribution'', \<lparr>ef_source_key = ''software_manifest'', ef_instrumentation = ''on'',
        ef_selected_path = ''software'', ef_prefix = ''software/''\<rparr>),
     (''idxd_attribution'', \<lparr>ef_source_key = ''idxd_manifest'', ef_instrumentation = ''on'',
        ef_selected_path = ''idxd'', ef_prefix = ''idxd/''\<rparr>)]"

definition EXPECTED_DERIVED_OUTPUTS :: "(string, string) dict" where
  "EXPECTED_DERIVED_OUTPUTS = [(''comparison_summary_json'', ''summary/comparison_summary.json''),
     (''ordinary_vs_idxd_csv'', ''summary/ordinary_vs_idxd.csv''),
     (''claim_table_md'', ''summary/claim_table.md'')]"

definition EXPECTED_REPORT_PATH :: string where
  "EXPECTED_REPORT_PATH = ''docs/report/benchmarking/014.idxd_tonic_same_repo_claim_package.md''"

definition S04_RUN_ROOT :: string where
  "S04_RUN_ROOT = ''accel-rpc/target/s04-claim-package/latest''"


section \<open>The validated manifest\<close>

record report_entry =
  re_workload_label :: string
  re_endpoint_role :: string
  re_artifact :: string

record report_family =
  rf_run_family :: string
  rf_source_manifest :: string
  rf_instrumentation :: string
  rf_selected_path :: string
  rf_endpoint_reports :: "report_entry list"

record claim_manifest =
  cm_version :: json
  cm_run_root :: string
  cm_workload_labels :: "string list"
  cm_pairing_keys :: "string list"
  cm_inputs :: "(string, string) dict"
  cm_artifact_families :: "report_family list"
  cm_derived_outputs :: "(string, string) dict"
  cm_report_path :: string
  cm_required_references :: "string list"

text \<open>\<open>d[key]\<close> on the dictionaries of texts and of tables that the contract builds itself.\<close>

definition key_item :: "(string, 'v) dict \<Rightarrow> string \<Rightarrow> 'v res" where
  "key_item d k = (case map_of d k of Some v \<Rightarrow> Inr v | None \<Rightarrow> Inl (KeyError (JStr k)))"


section \<open>Reading\<close>

definition resolve_repo_path :: "path \<Rightarrow> string \<Rightarrow> path" where
  "resolve_repo_path repo raw = (let p = path_of raw in if is_absolute p then p else path_join repo p)"

definition contract_required_str :: "obj \<Rightarrow> string \<Rightarrow> string \<Rightarrow> string res" where
  "contract_required_str d key scope = (case dget d key of
       JStr v \<Rightarrow> (if v = [] then Inl (ManifestError [Txt (scope @ '' missing '' @ key)]) else Inr v)
     | _ \<Rightarrow> Inl (ManifestError [Txt (scope @ '' missing '' @ key)]))"

definition contract_required_list :: "obj \<Rightarrow> string \<Rightarrow> string \<Rightarrow> json list res" where
  "contract_required_list d key scope = (case dget d key of
       JArr v \<Rightarrow> (if v = [] then Inl (ManifestError [Txt (scope @ ''.'' @ key @ '' must be a non-empty array'')])
                 else Inr v)
     | _ \<Rightarrow> Inl (ManifestError [Txt (scope @ ''.'' @ key @ '' must be a non-empty array'')]))"

definition contract_load_json :: "world \<Rightarrow> path \<Rightarrow> string \<Rightarrow> obj res" where
  "contract_load_json w p scope =
    bnd (except_as (fs_read w p) os_error_text (\<lambda>err.
           ManifestError [Txt (scope @ '' read failed ('' @ path_str p @ ''): '' @ err)])) (\<lambda>raw.
    bnd (except_as (json_loads w raw) json_error_text (\<lambda>err.
           ManifestError [Txt (scope @ '' parse failed ('' @ path_str p @ ''): '' @ err)])) (\<lambda>value.
    case value of JObj d \<Rightarrow> Inr d
    | _ \<Rightarrow> Inl (ManifestError [Txt (scope @ '' root must be an object'')])))"

definition load_upstream_manifest :: "world \<Rightarrow> path \<Rightarrow> string \<Rightarrow> string \<Rightarrow> obj res" where
  "load_upstream_manifest w repo path_raw scope =
    bnd (contract_load_json w (resolve_repo_path repo path_raw) scope) (\<lambda>manifest.
    case dget manifest ''workloads'' of
      JArr workloads \<Rightarrow> (if workloads = [] then
          Inl (ManifestError [Txt (scope @ '' workloads must be a non-empty array'')]) else Inr manifest)
    | _ \<Rightarrow> Inl (ManifestError [Txt (scope @ '' workloads must be a non-empty array'')]))"

text \<open>The names of one endpoint pair.\<close>

definition index_roles :: "obj \<Rightarrow> string \<Rightarrow> (string, string) dict res" where
  "index_roles pair scope = foldm (\<lambda>d role.
     bnd (contract_required_str pair role scope) (\<lambda>artifact. Inr (AList.update role artifact d)))
     [] EXPECTED_ENDPOINT_ROLES"

text \<open>\<open>manifest["workloads"]\<close> is an array here: \<open>load_upstream_manifest\<close> has checked it.\<close>

definition upstream_workloads :: "obj \<Rightarrow> json list res" where
  "upstream_workloads manifest = bnd (item manifest ''workloads'') (\<lambda>v.
     case v of JArr ws \<Rightarrow> Inr ws | _ \<Rightarrow> Inl TypeError)"

definition index_s02_entry ::
    "(string, (string, (string, string) dict) dict) dict \<Rightarrow> nat \<times> json \<Rightarrow>
      (string, (string, (string, string) dict) dict) dict res" where
  "index_s02_entry indexed = (\<lambda>(index, v).
    let pos = ''workloads['' @ str_nat index @ '']'' in
    case v of JObj entry \<Rightarrow>
      bnd (contract_required_str entry ''label'' (''inputs.software_manifest.'' @ pos)) (\<lambda>label.
      let head = [Txt (''inputs.software_manifest '' @ pos @ '' label=''), Rep (JStr label)] in
      case dget entry ''endpoint_artifacts'' of JObj endpoint_artifacts \<Rightarrow>
        bnd (foldm (\<lambda>d instrumentation. case dget endpoint_artifacts instrumentation of
               JObj pair \<Rightarrow>
                 bnd (index_roles pair (''inputs.software_manifest.'' @ pos @ ''.endpoint_artifacts.'' @
                        instrumentation)) (\<lambda>roles. Inr (AList.update instrumentation roles d))
             | _ \<Rightarrow> Inl (ManifestError (head @ [Txt ('' endpoint_artifacts missing '' @ instrumentation)])))
             [] [''off'', ''on'']) (\<lambda>pairs.
        Inr (AList.update label pairs indexed))
      | _ \<Rightarrow> Inl (ManifestError (head @ [Txt '' missing endpoint_artifacts''])))
    | _ \<Rightarrow> Inl (ManifestError [Txt (''inputs.software_manifest '' @ pos @ '' must be an object'')]))"

definition index_s02_workloads :: "obj \<Rightarrow> (string, (string, (string, string) dict) dict) dict res" where
  "index_s02_workloads manifest = bnd (upstream_workloads manifest) (\<lambda>ws.
     foldm index_s02_entry [] (enumerate 0 ws))"

definition index_s03_entry ::
    "(string, (string, string) dict) dict \<Rightarrow> nat \<times> json \<Rightarrow> (string, (string, string) dict) dict res" where
  "index_s03_entry indexed = (\<lambda>(index, v).
    let pos = ''workloads['' @ str_nat index @ '']'' in
    case v of JObj entry \<Rightarrow>
      bnd (contract_required_str entry ''label'' (''inputs.idxd_manifest.'' @ pos)) (\<lambda>label.
      case dget entry ''endpoint_artifacts'' of JObj endpoint_artifacts \<Rightarrow>
        bnd (index_roles endpoint_artifacts (''inputs.idxd_manifest.'' @ pos @ ''.endpoint_artifacts'')) (\<lambda>roles.
        Inr (AList.update label roles indexed))
      | _ \<Rightarrow> Inl (ManifestError [Txt (''inputs.idxd_manifest '' @ pos @ '' label=''), Rep (JStr label),
                                 Txt '' missing endpoint_artifacts'']))
    | _ \<Rightarrow> Inl (ManifestError [Txt (''inputs.idxd_manifest '' @ pos @ '' must be an object'')]))"

definition index_s03_workloads :: "obj \<Rightarrow> (string, (string, string) dict) dict res" where
  "index_s03_workloads manifest = bnd (upstream_workloads manifest) (\<lambda>ws.
     foldm index_s03_entry [] (enumerate 0 ws))"


section \<open>The parts of the manifest\<close>

text \<open>The loop that \<open>validate_scope\<close> (twice) and \<open>validate_report\<close> run over an array of texts.\<close>

definition contract_strings :: "string \<Rightarrow> json list \<Rightarrow> string list res" where
  "contract_strings scope xs = mapm (\<lambda>(index, v). case v of
       JStr s \<Rightarrow> (if s = [] then
           Inl (ManifestError [Txt (scope @ ''['' @ str_nat index @ ''] must be a non-empty string'')])
         else Inr s)
     | _ \<Rightarrow> Inl (ManifestError [Txt (scope @ ''['' @ str_nat index @ ''] must be a non-empty string'')]))
     (enumerate 0 xs)"

definition validate_scope :: "json \<Rightarrow> (string list \<times> string list) res" where
  "validate_scope v = (case v of JObj scope_obj \<Rightarrow>
      bnd (contract_required_list scope_obj ''workload_labels'' ''manifest.scope'') (\<lambda>labels.
      bnd (contract_strings ''manifest.scope.workload_labels'' labels) (\<lambda>validated_labels.
      if set validated_labels \<noteq> set S04_LABELS then Inl (ManifestError
        [Txt (''manifest.scope.workload_labels must match the curated S04 workloads: '' @
              joined '', '' (sort S04_LABELS))]) else
      bnd (contract_required_list scope_obj ''pairing_keys'' ''manifest.scope'') (\<lambda>pairing_keys.
      bnd (contract_strings ''manifest.scope.pairing_keys'' pairing_keys) (\<lambda>validated_pairing_keys.
      if validated_pairing_keys \<noteq> REQUIRED_PAIRING_KEYS then Inl (ManifestError
        [Txt (''manifest.scope.pairing_keys must be exactly: '' @ joined '', '' REQUIRED_PAIRING_KEYS)])
      else Inr (validated_labels, validated_pairing_keys)))))
    | _ \<Rightarrow> Inl (ManifestError [Txt ''manifest.scope must be an object'']))"

definition INPUT_KEYS :: "string list" where
  "INPUT_KEYS = [''software_manifest'', ''idxd_manifest'', ''control_floor_summary'', ''report_contract'']"

definition validate_inputs :: "world \<Rightarrow> path \<Rightarrow> json \<Rightarrow> (string, string) dict res" where
  "validate_inputs w repo v = (case v of JObj inputs_obj \<Rightarrow>
      foldm (\<lambda>validated key.
        bnd (contract_required_str inputs_obj key ''manifest.inputs'') (\<lambda>raw.
        if \<not> fs_exists w (resolve_repo_path repo raw) then Inl (ManifestError
          [Txt (''manifest.inputs.'' @ key @ '' path does not exist: '' @ raw)])
        else Inr (AList.update key raw validated))) [] INPUT_KEYS
    | _ \<Rightarrow> Inl (ManifestError [Txt ''manifest.inputs must be an object'']))"

definition expected_report_references :: "string \<Rightarrow> string list" where
  "expected_report_references run_root = map (\<lambda>(k, v). run_root @ ''/'' @ v) EXPECTED_DERIVED_OUTPUTS"

definition contract_validate_report :: "json \<Rightarrow> string \<Rightarrow> (string \<times> string list) res" where
  "contract_validate_report v run_root = (case v of JObj report_obj \<Rightarrow>
      bnd (contract_required_str report_obj ''path'' ''manifest.report'') (\<lambda>p.
      if p \<noteq> EXPECTED_REPORT_PATH then Inl (ManifestError [Txt ''manifest.report.path='', Rep (JStr p),
        Txt '' expected '', Rep (JStr EXPECTED_REPORT_PATH)]) else
      bnd (contract_required_list report_obj ''required_references'' ''manifest.report'') (\<lambda>references.
      bnd (contract_strings ''manifest.report.required_references'' references) (\<lambda>validated_references.
      let expected = expected_report_references run_root in
      if validated_references \<noteq> expected then Inl (ManifestError
        [Txt (''manifest.report.required_references must point at the stable generated outputs: '' @
              joined '', '' expected)])
      else Inr (p, validated_references))))
    | _ \<Rightarrow> Inl (ManifestError [Txt ''manifest.report must be an object'']))"

definition validate_derived_outputs :: "json \<Rightarrow> (string, string) dict res" where
  "validate_derived_outputs v = (case v of JObj derived_outputs_obj \<Rightarrow>
      bnd (foldm (\<lambda>(validated, seen_paths) (key, expected).
        bnd (contract_required_str derived_outputs_obj key ''manifest.derived_outputs'') (\<lambda>actual.
        let head = Txt (''manifest.derived_outputs.'' @ key) in
        if actual \<noteq> expected then Inl (ManifestError [head, Txt ''='', Rep (JStr actual),
          Txt '' expected '', Rep (JStr expected)]) else
        if actual \<in> seen_paths then Inl (ManifestError [head, Txt '' duplicates output path '',
          Rep (JStr actual)])
        else Inr (AList.update key actual validated, insert actual seen_paths)))
        ([], {}) EXPECTED_DERIVED_OUTPUTS) (\<lambda>(validated, seen_paths). Inr validated)
    | _ \<Rightarrow> Inl (ManifestError [Txt ''manifest.derived_outputs must be an object'']))"

text \<open>The families. A table \<open>upstream_artifacts\<close> maps a label to the names of its two endpoints.\<close>

definition validate_family_entry ::
    "string \<Rightarrow> string list \<Rightarrow> string \<Rightarrow> (string, (string, string) dict) dict \<Rightarrow>
      report_entry list \<times> (string \<times> string) set \<times> string set \<Rightarrow> nat \<times> json \<Rightarrow>
      (report_entry list \<times> (string \<times> string) set \<times> string set) res" where
  "validate_family_entry family_name expected_labels expected_prefix upstream_artifacts =
    (\<lambda>(validated, seen_pairs, global_artifacts) (index, v).
    let scope = ''artifact_families.'' @ family_name @ ''.endpoint_reports['' @ str_nat index @ '']'' in
    case v of JObj entry \<Rightarrow>
      bnd (contract_required_str entry ''workload_label'' scope) (\<lambda>workload_label.
      bnd (contract_required_str entry ''endpoint_role'' scope) (\<lambda>endpoint_role.
      bnd (contract_required_str entry ''artifact'' scope) (\<lambda>artifact.
      if workload_label \<notin> set expected_labels then Inl (ManifestError [Txt (scope @ ''.workload_label=''),
        Rep (JStr workload_label), Txt '' is outside the curated S04 scope'']) else
      if endpoint_role \<notin> set EXPECTED_ENDPOINT_ROLES then Inl (ManifestError [Txt (scope @ ''.endpoint_role=''),
        Rep (JStr endpoint_role), Txt ('' expected one of '' @ joined '', '' EXPECTED_ENDPOINT_ROLES)]) else
      if (workload_label, endpoint_role) \<in> seen_pairs then Inl (ManifestError
        [Txt (scope @ '' duplicates workload_label=''), Rep (JStr workload_label), Txt '' endpoint_role='',
         Rep (JStr endpoint_role)]) else
      if artifact \<in> global_artifacts then Inl (ManifestError
        [Txt (scope @ ''.artifact duplicates artifact path ''), Rep (JStr artifact)]) else
      if \<not> startswith artifact expected_prefix then Inl (ManifestError [Txt (scope @ ''.artifact=''),
        Rep (JStr artifact), Txt '' expected to live under '', Rep (JStr expected_prefix)]) else
      bnd (key_item upstream_artifacts workload_label) (\<lambda>names.
      bnd (key_item names endpoint_role) (\<lambda>expected_upstream.
      if path_name (path_of artifact) \<noteq> expected_upstream then Inl (ManifestError
        [Txt (scope @ ''.artifact=''), Rep (JStr artifact), Txt '' expected basename '',
         Rep (JStr expected_upstream), Txt '' from upstream manifest'']) else
      Inr (validated @ [\<lparr>re_workload_label = workload_label, re_endpoint_role = endpoint_role,
                         re_artifact = artifact\<rparr>],
           insert (workload_label, endpoint_role) seen_pairs, insert artifact global_artifacts))))))
    | _ \<Rightarrow> Inl (ManifestError [Txt (scope @ '' must be an object'')]))"

definition validate_family_entries ::
    "string \<Rightarrow> json \<Rightarrow> string list \<Rightarrow> string \<Rightarrow> (string, (string, string) dict) dict \<Rightarrow> string set \<Rightarrow>
      (report_entry list \<times> string set) res" where
  "validate_family_entries family_name v expected_labels expected_prefix upstream_artifacts global_artifacts =
    (let head = ''artifact_families.'' @ family_name @ ''.endpoint_reports'';
         empty = ManifestError [Txt (head @ '' must be a non-empty array'')] in
    case v of JArr entries \<Rightarrow>
      (if entries = [] then Inl empty else
       bnd (foldm (validate_family_entry family_name expected_labels expected_prefix upstream_artifacts)
              ([], {}, global_artifacts) (enumerate 0 entries)) (\<lambda>(validated, seen_pairs, global_artifacts').
       let expected_pairs = List.product expected_labels EXPECTED_ENDPOINT_ROLES;
           missing_pairs = sort (remdups (filter (\<lambda>p. p \<notin> seen_pairs) expected_pairs)) in
       if missing_pairs \<noteq> [] then Inl (ManifestError [Txt (head @ '' missing curated entries: '' @
         joined '', '' (map (\<lambda>(label, role). label @ '':'' @ role) missing_pairs))])
       else Inr (validated, global_artifacts')))
    | _ \<Rightarrow> Inl empty)"

text \<open>\<open>{label: values[instrumentation] for label, values in s02_artifacts.items()}\<close>\<close>

definition upstream_for ::
    "string \<Rightarrow> string \<Rightarrow> (string, (string, (string, string) dict) dict) dict \<Rightarrow>
      (string, (string, string) dict) dict \<Rightarrow> (string, (string, string) dict) dict res" where
  "upstream_for run_family instrumentation s02_artifacts s03_artifacts =
    (if run_family \<in> {''software_baseline'', ''software_attribution''} then
       mapm (\<lambda>(label, values). bnd (key_item values instrumentation) (\<lambda>names. Inr (label, names))) s02_artifacts
     else Inr s03_artifacts)"

definition validate_family ::
    "(string, string) dict \<Rightarrow> string list \<Rightarrow> (string, (string, (string, string) dict) dict) dict \<Rightarrow>
      (string, (string, string) dict) dict \<Rightarrow> report_family list \<times> string set \<times> string set \<Rightarrow> nat \<times> json \<Rightarrow>
      (report_family list \<times> string set \<times> string set) res" where
  "validate_family inputs labels s02_artifacts s03_artifacts =
    (\<lambda>(validated, seen_families, global_artifacts) (index, v).
    let scope_name = ''manifest.artifact_families['' @ str_nat index @ '']'';
        mismatch = (\<lambda>field actual expected. ManifestError [Txt (scope_name @ ''.'' @ field @ ''=''),
          Rep (JStr actual), Txt '' expected '', Rep (JStr expected)]) in
    case v of JObj family \<Rightarrow>
      bnd (contract_required_str family ''run_family'' scope_name) (\<lambda>run_family.
      if run_family \<in> seen_families then Inl (ManifestError [Txt (scope_name @ ''.run_family=''),
        Rep (JStr run_family), Txt '' is duplicated'']) else
      case map_of EXPECTED_FAMILIES run_family of
        None \<Rightarrow> Inl (ManifestError [Txt (scope_name @ ''.run_family=''), Rep (JStr run_family),
                  Txt '' is not a tracked S04 family''])
      | Some expected \<Rightarrow>
          bnd (contract_required_str family ''source_manifest'' scope_name) (\<lambda>source_manifest.
          bnd (key_item inputs (ef_source_key expected)) (\<lambda>expected_source.
          if source_manifest \<noteq> expected_source then
            Inl (mismatch ''source_manifest'' source_manifest expected_source) else
          bnd (contract_required_str family ''instrumentation'' scope_name) (\<lambda>instrumentation.
          if instrumentation \<noteq> ef_instrumentation expected then
            Inl (mismatch ''instrumentation'' instrumentation (ef_instrumentation expected)) else
          bnd (contract_required_str family ''selected_path'' scope_name) (\<lambda>selected_path.
          if selected_path \<noteq> ef_selected_path expected then
            Inl (mismatch ''selected_path'' selected_path (ef_selected_path expected)) else
          bnd (upstream_for run_family instrumentation s02_artifacts s03_artifacts) (\<lambda>upstream.
          bnd (validate_family_entries run_family (dget family ''endpoint_reports'') labels
                 (ef_prefix expected) upstream global_artifacts) (\<lambda>(endpoint_reports, global_artifacts').
          Inr (validated @ [\<lparr>rf_run_family = run_family, rf_source_manifest = source_manifest,
                 rf_instrumentation = instrumentation, rf_selected_path = selected_path,
                 rf_endpoint_reports = endpoint_reports\<rparr>],
               insert run_family seen_families, global_artifacts'))))))))
    | _ \<Rightarrow> Inl (ManifestError [Txt (scope_name @ '' must be an object'')]))"

definition validate_artifact_families ::
    "world \<Rightarrow> path \<Rightarrow> json \<Rightarrow> (string, string) dict \<Rightarrow> string list \<Rightarrow> report_family list res" where
  "validate_artifact_families w repo v inputs labels =
    (let empty = ManifestError [Txt ''manifest.artifact_families must be a non-empty array''] in
    case v of JArr families \<Rightarrow>
      (if families = [] then Inl empty else
       bnd (bnd (key_item inputs ''software_manifest'') (\<lambda>p.
              load_upstream_manifest w repo p ''inputs.software_manifest'')) (\<lambda>software_manifest.
       bnd (bnd (key_item inputs ''idxd_manifest'') (\<lambda>p.
              load_upstream_manifest w repo p ''inputs.idxd_manifest'')) (\<lambda>idxd_manifest.
       bnd (index_s02_workloads software_manifest) (\<lambda>s02_artifacts.
       bnd (index_s03_workloads idxd_manifest) (\<lambda>s03_artifacts.
       bnd (foldm (validate_family inputs labels s02_artifacts s03_artifacts) ([], {}, {})
              (enumerate 0 families)) (\<lambda>(validated, seen_families, global_artifacts).
       let missing_families = sort (filter (\<lambda>f. f \<notin> seen_families) (map fst EXPECTED_FAMILIES)) in
       if missing_families \<noteq> [] then Inl (ManifestError
         [Txt (''manifest.artifact_families missing required S04 families: '' @
               joined '', '' missing_families)])
       else Inr validated))))))
    | _ \<Rightarrow> Inl empty)"

definition claim_load_manifest :: "world \<Rightarrow> path \<Rightarrow> path \<Rightarrow> claim_manifest res" where
  "claim_load_manifest w repo p =
    bnd (contract_load_json w p ''phase=manifest-parse manifest'') (\<lambda>manifest.
    let version = dget manifest ''version'' in
    if \<not> py_eq version (JInt 1) then
      Inl (ManifestError [Txt ''manifest.version='', Rep version, Txt '' expected 1'']) else
    bnd (contract_required_str manifest ''run_root'' ''manifest'') (\<lambda>run_root.
    if run_root \<noteq> S04_RUN_ROOT then Inl (ManifestError [Txt ''manifest.run_root='', Rep (JStr run_root),
      Txt '' expected '', Rep (JStr S04_RUN_ROOT)]) else
    bnd (validate_scope (dget manifest ''scope'')) (\<lambda>(labels, pairing_keys).
    bnd (validate_inputs w repo (dget manifest ''inputs'')) (\<lambda>inputs.
    bnd (validate_derived_outputs (dget manifest ''derived_outputs'')) (\<lambda>derived_outputs.
    bnd (validate_artifact_families w repo (dget manifest ''artifact_families'') inputs labels)
      (\<lambda>artifact_families.
    bnd (contract_validate_report (dget manifest ''report'') run_root) (\<lambda>(report_path, references).
    Inr \<lparr>cm_version = version, cm_run_root = run_root, cm_workload_labels = labels,
         cm_pairing_keys = pairing_keys, cm_inputs = inputs, cm_artifact_families = artifact_families,
         cm_derived_outputs = derived_outputs, cm_report_path = report_path,
         cm_required_references = references\<rparr>)))))))"

definition summary_path :: "claim_manifest \<Rightarrow> string res" where
  "summary_path manifest = bnd (key_item (cm_derived_outputs manifest) ''comparison_summary_json'') (\<lambda>p.
     Inr (cm_run_root manifest @ ''/'' @ p))"

definition resolve_run_root :: "world \<Rightarrow> path \<Rightarrow> string \<Rightarrow> path" where
  "resolve_run_root w repo raw = fs_resolve w (resolve_repo_path repo raw)"

definition manifest_copy_path :: "path \<Rightarrow> path" where
  "manifest_copy_path run_root = path_div run_root ''manifest.json''"

definition summary_output_paths :: "claim_manifest \<Rightarrow> path \<Rightarrow> (string, path) dict" where
  "summary_output_paths manifest run_root =
    map (\<lambda>(key, relpath). (key, path_div run_root relpath)) (cm_derived_outputs manifest)"

section \<open>Collecting loops\<close>

text \<open>
  Both loops over the families have the same shape: they collect what they accept and refuse an
  element whose key, or one of whose claims, has been seen before. \<open>body\<close> is the loop body on the
  triple of the list built so far, the keys seen and the names claimed.
\<close>

locale collector =
  fixes body :: "'r list \<times> 'k set \<times> string set \<Rightarrow> 'x \<Rightarrow> ('r list \<times> 'k set \<times> string set) res"
    and accepted :: "'r \<Rightarrow> bool"
    and key :: "'r \<Rightarrow> 'k"
    and claims :: "'r \<Rightarrow> string list"
  assumes collects: "body (rs, seen, claimed) x = Inr st \<Longrightarrow>
      \<exists>r. accepted r \<and> key r \<notin> seen \<and> distinct (claims r) \<and> set (claims r) \<inter> claimed = {} \<and>
        st = (rs @ [r], insert (key r) seen, claimed \<union> set (claims r))"
begin

lemma collected:
  assumes "foldm body (rs, seen, claimed) xs = Inr (rs', seen', claimed')"
  obtains new where "rs' = rs @ new" "length new = length xs" "list_all accepted new"
    "distinct (map key new)" "set (map key new) \<inter> seen = {}" "seen' = seen \<union> set (map key new)"
    "distinct (concat (map claims new))" "set (concat (map claims new)) \<inter> claimed = {}"
    "claimed' = claimed \<union> set (concat (map claims new))"
proof -
  have "\<exists>new. rs' = rs @ new \<and> length new = length xs \<and> list_all accepted new \<and>
    distinct (map key new) \<and> set (map key new) \<inter> seen = {} \<and> seen' = seen \<union> set (map key new) \<and>
    distinct (concat (map claims new)) \<and> set (concat (map claims new)) \<inter> claimed = {} \<and>
    claimed' = claimed \<union> set (concat (map claims new))"
    using assms
  proof (induction xs arbitrary: rs seen claimed)
    case Nil
    then show ?case by (intro exI [of _ "[]"]) simp
  next
    case (Cons x xs)
    then obtain st where st: "body (rs, seen, claimed) x = Inr st" "foldm body st xs = Inr (rs', seen', claimed')"
      by (auto simp: res_iff)
    then obtain r where r: "accepted r" "key r \<notin> seen" "distinct (claims r)" "set (claims r) \<inter> claimed = {}"
      "st = (rs @ [r], insert (key r) seen, claimed \<union> set (claims r))"
      using collects by blast
    from Cons.IH [OF st(2) [unfolded r(5)]] obtain new where
      "rs' = (rs @ [r]) @ new \<and> length new = length xs \<and> list_all accepted new \<and>
        distinct (map key new) \<and> set (map key new) \<inter> insert (key r) seen = {} \<and>
        seen' = insert (key r) seen \<union> set (map key new) \<and> distinct (concat (map claims new)) \<and>
        set (concat (map claims new)) \<inter> (claimed \<union> set (claims r)) = {} \<and>
        claimed' = claimed \<union> set (claims r) \<union> set (concat (map claims new))" by blast
    with r show ?case by (intro exI [of _ "r # new"]) auto
  qed
  with that show thesis by blast
qed

end


section \<open>Lemmas: the parts of the manifest\<close>

lemma key_item_iff [res_iff]: "key_item d k = Inr v \<longleftrightarrow> map_of d k = Some v"
  by (auto simp: key_item_def split: option.splits)

lemma contract_required_iff [res_iff]:
  "contract_required_str d key scope = Inr v \<longleftrightarrow> map_of d key = Some (JStr v) \<and> v \<noteq> []"
  "contract_required_list d key scope = Inr vs \<longleftrightarrow> map_of d key = Some (JArr vs) \<and> vs \<noteq> []"
  by (auto simp: contract_required_str_def contract_required_list_def dget_eq_iff [symmetric]
      split: json.splits)

text \<open>What a family demands of one of its entries.\<close>

definition entry_accepted ::
    "string list \<Rightarrow> string \<Rightarrow> (string, (string, string) dict) dict \<Rightarrow> report_entry \<Rightarrow> bool" where
  "entry_accepted labels pre upstream r \<longleftrightarrow>
     re_workload_label r \<in> set labels \<and> re_endpoint_role r \<in> set EXPECTED_ENDPOINT_ROLES \<and>
     startswith (re_artifact r) pre \<and>
     Option.bind (map_of upstream (re_workload_label r)) (\<lambda>names. map_of names (re_endpoint_role r)) =
       Some (path_name (path_of (re_artifact r)))"

definition entry_key :: "report_entry \<Rightarrow> string \<times> string" where
  "entry_key r = (re_workload_label r, re_endpoint_role r)"

interpretation entries: collector "validate_family_entry family labels pre upstream"
  "entry_accepted labels pre upstream" entry_key "\<lambda>r. [re_artifact r]"
  for family labels pre upstream
proof
  fix rs seen claimed x st
  assume "validate_family_entry family labels pre upstream (rs, seen, claimed) x = Inr st"
  then obtain l r a names where
    "l \<in> set labels" "r \<in> set EXPECTED_ENDPOINT_ROLES" "(l, r) \<notin> seen" "a \<notin> claimed"
    "startswith a pre" "map_of upstream l = Some names" "map_of names r = Some (path_name (path_of a))"
    "st = (rs @ [\<lparr>re_workload_label = l, re_endpoint_role = r, re_artifact = a\<rparr>], insert (l, r) seen,
       insert a claimed)"
    by (auto simp: validate_family_entry_def res_iff Let_def split: prod.splits)
  then show "\<exists>r. entry_accepted labels pre upstream r \<and> entry_key r \<notin> seen \<and>
      distinct [re_artifact r] \<and> set [re_artifact r] \<inter> claimed = {} \<and>
      st = (rs @ [r], insert (entry_key r) seen, claimed \<union> set [re_artifact r])"
    by (intro exI [of _ "\<lparr>re_workload_label = l, re_endpoint_role = r, re_artifact = a\<rparr>"])
      (simp add: entry_accepted_def entry_key_def)
qed

lemma no_missing:
  assumes "sort (remdups (filter (\<lambda>p. p \<notin> seen) ps)) = []"
  shows "set ps \<subseteq> seen"
proof -
  have "set (sort (remdups (filter (\<lambda>p. p \<notin> seen) ps))) = {}" using assms by simp
  then have "set (filter (\<lambda>p. p \<notin> seen) ps) = {}" by (simp only: set_sort set_remdups)
  then show ?thesis by auto
qed

lemma validate_family_entries_Inr:
  assumes "validate_family_entries family v labels pre upstream claimed = Inr (rs, claimed')"
  shows "list_all (entry_accepted labels pre upstream) rs"
    and "distinct (map entry_key rs)"
    and "set (map entry_key rs) = set labels \<times> set EXPECTED_ENDPOINT_ROLES"
    and "distinct (map re_artifact rs)" and "set (map re_artifact rs) \<inter> claimed = {}"
    and "claimed' = claimed \<union> set (map re_artifact rs)"
proof -
  from assms obtain es seen where
    f: "foldm (validate_family_entry family labels pre upstream) ([], {}, claimed) (enumerate 0 es) =
      Inr (rs, seen, claimed')"
    and m: "sort (remdups (filter (\<lambda>p. p \<notin> seen) (List.product labels EXPECTED_ENDPOINT_ROLES))) = []"
    by (auto simp: validate_family_entries_def res_iff Let_def)
  obtain new where new: "rs = [] @ new" "list_all (entry_accepted labels pre upstream) new"
    "distinct (map entry_key new)" "seen = {} \<union> set (map entry_key new)"
    "distinct (concat (map (\<lambda>r. [re_artifact r]) new))"
    "set (concat (map (\<lambda>r. [re_artifact r]) new)) \<inter> claimed = {}"
    "claimed' = claimed \<union> set (concat (map (\<lambda>r. [re_artifact r]) new))"
    using f by (rule entries.collected)
  have c: "concat (map (\<lambda>r. [re_artifact r]) new) = map re_artifact new" by (induction new) auto
  have "set labels \<times> set EXPECTED_ENDPOINT_ROLES \<subseteq> set (map entry_key new)"
    using no_missing [OF m] new(4) by simp
  moreover have "set (map entry_key new) \<subseteq> set labels \<times> set EXPECTED_ENDPOINT_ROLES"
    using new(2) by (auto simp: list_all_iff entry_accepted_def entry_key_def)
  ultimately show "set (map entry_key rs) = set labels \<times> set EXPECTED_ENDPOINT_ROLES"
    using new(1) by auto
  show "list_all (entry_accepted labels pre upstream) rs" "distinct (map entry_key rs)"
    "distinct (map re_artifact rs)" "set (map re_artifact rs) \<inter> claimed = {}"
    "claimed' = claimed \<union> set (map re_artifact rs)"
    using new c by simp_all
qed

text \<open>What the manifest demands of one family.\<close>

definition family_accepted ::
    "(string, string) dict \<Rightarrow> string list \<Rightarrow> (string, (string, (string, string) dict) dict) dict \<Rightarrow>
      (string, (string, string) dict) dict \<Rightarrow> report_family \<Rightarrow> bool" where
  "family_accepted inputs labels s02_artifacts s03_artifacts f \<longleftrightarrow>
    (\<exists>spec upstream. map_of EXPECTED_FAMILIES (rf_run_family f) = Some spec \<and>
       map_of inputs (ef_source_key spec) = Some (rf_source_manifest f) \<and>
       rf_instrumentation f = ef_instrumentation spec \<and> rf_selected_path f = ef_selected_path spec \<and>
       upstream_for (rf_run_family f) (rf_instrumentation f) s02_artifacts s03_artifacts = Inr upstream \<and>
       list_all (entry_accepted labels (ef_prefix spec) upstream) (rf_endpoint_reports f) \<and>
       distinct (map entry_key (rf_endpoint_reports f)) \<and>
       set (map entry_key (rf_endpoint_reports f)) = set labels \<times> set EXPECTED_ENDPOINT_ROLES)"

definition family_artifacts :: "report_family \<Rightarrow> string list" where
  "family_artifacts f = map re_artifact (rf_endpoint_reports f)"

interpretation families: collector "validate_family inputs labels s02_artifacts s03_artifacts"
  "family_accepted inputs labels s02_artifacts s03_artifacts" rf_run_family family_artifacts
  for inputs labels s02_artifacts s03_artifacts
proof
  fix rs seen claimed x st
  assume "validate_family inputs labels s02_artifacts s03_artifacts (rs, seen, claimed) x = Inr st"
  then obtain family n src spec upstream es claimed' where
    "n \<notin> seen" "map_of EXPECTED_FAMILIES n = Some spec" "map_of inputs (ef_source_key spec) = Some src"
    "upstream_for n (ef_instrumentation spec) s02_artifacts s03_artifacts = Inr upstream"
    and e: "validate_family_entries n (dget family ''endpoint_reports'') labels (ef_prefix spec) upstream
       claimed = Inr (es, claimed')"
    and "st = (rs @ [\<lparr>rf_run_family = n, rf_source_manifest = src,
       rf_instrumentation = ef_instrumentation spec, rf_selected_path = ef_selected_path spec,
       rf_endpoint_reports = es\<rparr>], insert n seen, claimed')"
    by (auto simp: validate_family_def res_iff Let_def split: prod.splits option.splits)
  with validate_family_entries_Inr [OF e]
  show "\<exists>r. family_accepted inputs labels s02_artifacts s03_artifacts r \<and> rf_run_family r \<notin> seen \<and>
      distinct (family_artifacts r) \<and> set (family_artifacts r) \<inter> claimed = {} \<and>
      st = (rs @ [r], insert (rf_run_family r) seen, claimed \<union> set (family_artifacts r))"
    by (intro exI [of _ "\<lparr>rf_run_family = n, rf_source_manifest = src,
       rf_instrumentation = ef_instrumentation spec, rf_selected_path = ef_selected_path spec,
       rf_endpoint_reports = es\<rparr>"]) (simp add: family_accepted_def family_artifacts_def)
qed

lemma contract_strings_iff:
  "contract_strings scope xs = Inr ss \<longleftrightarrow> xs = map JStr ss \<and> [] \<notin> set ss"
proof -
  have loop: "mapm (\<lambda>(index, v). case v of
       JStr s \<Rightarrow> (if s = [] then e index else Inr s) | _ \<Rightarrow> e index) (enumerate n xs) = Inr ss \<longleftrightarrow>
    xs = map JStr ss \<and> [] \<notin> set ss" if e: "\<And>i y. e i \<noteq> Inr y" for e :: "nat \<Rightarrow> string res" and n
  proof (induction xs arbitrary: n ss)
    case Nil
    then show ?case by auto
  next
    case (Cons x xs)
    then show ?case by (cases x; cases ss) (auto simp: res_iff e)
  qed
  show ?thesis unfolding contract_strings_def
    by (rule loop [where e = "\<lambda>i. Inl (ManifestError
      [Txt (scope @ ''['' @ str_nat i @ ''] must be a non-empty string'')])"]) simp
qed

lemma validate_scope_iff [res_iff]:
  "validate_scope v = Inr (labels, keys) \<longleftrightarrow> (\<exists>d. v = JObj d \<and>
     map_of d ''workload_labels'' = Some (JArr (map JStr labels)) \<and>
     map_of d ''pairing_keys'' = Some (JArr (map JStr keys)) \<and>
     set labels = set S04_LABELS \<and> keys = REQUIRED_PAIRING_KEYS)"
proof -
  have "[] \<notin> set S04_LABELS" "S04_LABELS \<noteq> []" "[] \<notin> set REQUIRED_PAIRING_KEYS" "REQUIRED_PAIRING_KEYS \<noteq> []"
    by (simp_all add: S04_LABELS_def REQUIRED_PAIRING_KEYS_def)
  then show ?thesis by (auto simp: validate_scope_def res_iff contract_strings_iff)
qed

lemma validate_inputs_iff [res_iff]:
  "validate_inputs w repo v = Inr ins \<longleftrightarrow> (\<exists>d. v = JObj d \<and> ins = map (\<lambda>k. (k, text_of d k)) INPUT_KEYS \<and>
     list_all (\<lambda>k. str_field d k \<and> fs_exists w (resolve_repo_path repo (text_of d k))) INPUT_KEYS)"
  by (auto simp: validate_inputs_def INPUT_KEYS_def res_iff str_field_iff text_of_def)

lemma contract_validate_report_iff [res_iff]:
  "contract_validate_report v run_root = Inr (p, refs) \<longleftrightarrow> (\<exists>d. v = JObj d \<and>
     map_of d ''path'' = Some (JStr EXPECTED_REPORT_PATH) \<and> p = EXPECTED_REPORT_PATH \<and>
     map_of d ''required_references'' = Some (JArr (map JStr (expected_report_references run_root))) \<and>
     refs = expected_report_references run_root)"
proof -
  have "EXPECTED_REPORT_PATH \<noteq> []" by (simp add: EXPECTED_REPORT_PATH_def)
  moreover have "expected_report_references run_root \<noteq> []" "[] \<notin> set (expected_report_references run_root)"
    by (auto simp: expected_report_references_def EXPECTED_DERIVED_OUTPUTS_def)
  ultimately show ?thesis
    by (auto simp: contract_validate_report_def res_iff contract_strings_iff Let_def)
qed

lemma validate_derived_outputs_iff [res_iff]:
  "validate_derived_outputs v = Inr outs \<longleftrightarrow> (\<exists>d. v = JObj d \<and> outs = EXPECTED_DERIVED_OUTPUTS \<and>
     list_all (\<lambda>(k, p). map_of d k = Some (JStr p)) EXPECTED_DERIVED_OUTPUTS)"
  by (auto simp: validate_derived_outputs_def EXPECTED_DERIVED_OUTPUTS_def res_iff Let_def)

text \<open>The indexes of the upstream manifests: every label has all its names.\<close>

definition roles_table :: "(string, string) dict \<Rightarrow> bool" where
  "roles_table d \<longleftrightarrow> map fst d = EXPECTED_ENDPOINT_ROLES"

definition modes_table :: "(string, (string, string) dict) dict \<Rightarrow> bool" where
  "modes_table d \<longleftrightarrow> map fst d = [''off'', ''on''] \<and> (\<forall>t \<in> snd ` set d. roles_table t)"

lemma roles_table_lookup: "roles_table d \<Longrightarrow> r \<in> set EXPECTED_ENDPOINT_ROLES \<Longrightarrow> \<exists>n. map_of d r = Some n"
  by (metis roles_table_def domD domIff map_of_eq_None_iff set_map)

lemma modes_table_lookup:
  "modes_table d \<Longrightarrow> i \<in> {''off'', ''on''} \<Longrightarrow> \<exists>t. map_of d i = Some t \<and> roles_table t"
proof -
  assume d: "modes_table d" and i: "i \<in> {''off'', ''on''}"
  have "set (map fst d) = {''off'', ''on''}" using d by (simp add: modes_table_def del: set_map)
  then have "i \<in> fst ` set d" using i by simp
  then obtain t where "map_of d i = Some t" by (metis domD domIff map_of_eq_None_iff)
  moreover from map_of_SomeD [OF this] have "roles_table t" using d by (force simp: modes_table_def)
  ultimately show ?thesis by blast
qed

lemma index_roles_Inr: "index_roles pair scope = Inr d \<longleftrightarrow>
    list_all (str_field pair) EXPECTED_ENDPOINT_ROLES \<and> d = map (\<lambda>r. (r, text_of pair r)) EXPECTED_ENDPOINT_ROLES"
  by (auto simp: index_roles_def EXPECTED_ENDPOINT_ROLES_def res_iff str_field_iff text_of_def)

lemma set_update: "(k, v) \<in> set (AList.update x y d) \<Longrightarrow> (k, v) \<in> set d \<or> (k = x \<and> v = y)"
  by (induction d) (auto split: if_splits)

lemma index_s02_tables:
  assumes "index_s02_workloads manifest = Inr d"
  shows "\<forall>t \<in> snd ` set d. modes_table t"
proof -
  obtain ws where f: "foldm index_s02_entry [] (enumerate 0 ws) = Inr d"
    using assms by (auto simp: index_s02_workloads_def res_iff)
  show ?thesis
  proof (rule foldm_invariant [OF f, where P = "\<lambda>d. \<forall>t \<in> snd ` set d. modes_table t"])
    fix d :: "(string, (string, (string, string) dict) dict) dict" and x d'
    assume d: "\<forall>t \<in> snd ` set d. modes_table t" and s: "index_s02_entry d x = Inr d'"
    then obtain l t where "d' = AList.update l t d" "modes_table t"
      by (auto simp: index_s02_entry_def res_iff Let_def index_roles_Inr modes_table_def roles_table_def
          comp_def split: prod.splits)
    with d show "\<forall>t \<in> snd ` set d'. modes_table t" by (auto dest: set_update)
  qed simp
qed

lemma index_s03_tables:
  assumes "index_s03_workloads manifest = Inr d"
  shows "\<forall>t \<in> snd ` set d. roles_table t"
proof -
  obtain ws where f: "foldm index_s03_entry [] (enumerate 0 ws) = Inr d"
    using assms by (auto simp: index_s03_workloads_def res_iff)
  show ?thesis
  proof (rule foldm_invariant [OF f, where P = "\<lambda>d. \<forall>t \<in> snd ` set d. roles_table t"])
    fix d :: "(string, (string, string) dict) dict" and x d'
    assume d: "\<forall>t \<in> snd ` set d. roles_table t" and s: "index_s03_entry d x = Inr d'"
    then obtain l t where "d' = AList.update l t d" "roles_table t"
      by (auto simp: index_s03_entry_def res_iff Let_def index_roles_Inr roles_table_def
          comp_def split: prod.splits)
    with d show "\<forall>t \<in> snd ` set d'. roles_table t" by (auto dest: set_update)
  qed simp
qed

lemma upstream_for_tables:
  assumes "\<forall>t \<in> snd ` set s02. modes_table t" "\<forall>t \<in> snd ` set s03. roles_table t"
    and "instrumentation \<in> {''off'', ''on''}"
  obtains up where "upstream_for family instrumentation s02 s03 = Inr up" "\<forall>t \<in> snd ` set up. roles_table t"
proof (cases "family \<in> {''software_baseline'', ''software_attribution''}")
  case True
  have "\<exists>up. mapm (\<lambda>(label, values). bnd (key_item values instrumentation) (\<lambda>names. Inr (label, names))) s02 =
      Inr up \<and> (\<forall>t \<in> snd ` set up. roles_table t)"
    using assms(1)
  proof (induction s02)
    case (Cons p s02)
    obtain l t where p: "p = (l, t)" by (cases p)
    obtain n where n: "map_of t instrumentation = Some n" "roles_table n"
      using modes_table_lookup [OF _ assms(3)] Cons.prems p by auto
    from Cons obtain up where "mapm (\<lambda>(label, values). bnd (key_item values instrumentation)
        (\<lambda>names. Inr (label, names))) s02 = Inr up" "\<forall>t \<in> snd ` set up. roles_table t" by auto
    then show ?case using n by (simp add: p key_item_def)
  qed simp
  with that True show thesis by (auto simp: upstream_for_def)
next
  case False
  with that assms(2) show thesis by (auto simp: upstream_for_def)
qed

section \<open>Lemmas: the errors\<close>

text \<open>The exceptions the checks themselves can raise: \<open>ManifestError\<close>, and the \<open>KeyError\<close> of a
  curated label that an upstream manifest does not list.\<close>

definition contract_error :: "exn \<Rightarrow> bool" where
  "contract_error e \<longleftrightarrow> is_manifest_error e \<or> (\<exists>l \<in> set S04_LABELS. e = KeyError (JStr l))"

lemma contract_error_manifest [simp]: "contract_error (ManifestError m)"
  by (simp add: contract_error_def)

lemma contract_required_raises [errs]:
  "raises contract_error (contract_required_str d key scope)"
  "raises contract_error (contract_required_list d key scope)"
  by (auto simp: contract_required_str_def contract_required_list_def intro!: errs)

lemma contract_strings_raises [errs]: "raises contract_error (contract_strings scope xs)"
  unfolding contract_strings_def by (intro errs) simp_all

lemma validate_parts_raise [errs]:
  "raises contract_error (validate_scope v)" "raises contract_error (validate_inputs w repo v)"
  "raises contract_error (validate_derived_outputs v)" "raises contract_error (contract_validate_report v r)"
  unfolding validate_scope_def validate_inputs_def validate_derived_outputs_def contract_validate_report_def
    Let_def
  by (intro errs; simp)+

lemma index_raises [errs]:
  "raises contract_error (index_roles pair scope)" "raises contract_error (index_s02_entry d x)"
  "raises contract_error (index_s03_entry e x)"
  unfolding index_roles_def index_s02_entry_def index_s03_entry_def Let_def
  by (intro errs; simp)+

lemma validate_family_entry_raises:
  assumes "\<forall>t \<in> snd ` set upstream. roles_table t" "set labels \<subseteq> set S04_LABELS"
  shows "raises contract_error (validate_family_entry family labels pre upstream st x)"
proof -
  have lookup: "raises contract_error (bnd (key_item upstream l) (\<lambda>names. bnd (key_item names r) g))"
    if l: "l \<in> set labels" and r: "r \<in> set EXPECTED_ENDPOINT_ROLES" and g: "\<And>n. raises contract_error (g n)"
    for l r and g :: "string \<Rightarrow> 'b res"
  proof (cases "map_of upstream l")
    case None
    then show ?thesis using assms(2) l by (auto simp: key_item_def contract_error_def intro!: errs)
  next
    case (Some names)
    then have "roles_table names" using assms(1) by (force dest: map_of_SomeD)
    then obtain n where "map_of names r = Some n" using roles_table_lookup [OF _ r] by blast
    then show ?thesis using Some g by (simp add: key_item_def)
  qed
  show ?thesis
    unfolding validate_family_entry_def Let_def
    by (intro raises_prod raises_prod_fun raises_json raises_bnd [OF contract_required_raises(1)]
        raises_if raises_Inl raises_Inr lookup) simp_all
qed

lemma validate_family_entries_raises:
  assumes "\<forall>t \<in> snd ` set upstream. roles_table t" "set labels \<subseteq> set S04_LABELS"
  shows "raises contract_error (validate_family_entries family v labels pre upstream claimed)"
  unfolding validate_family_entries_def Let_def
  by (intro errs validate_family_entry_raises [OF assms]) simp_all

lemma EXPECTED_FAMILIES_SomeD:
  "map_of EXPECTED_FAMILIES n = Some spec \<Longrightarrow> ef_instrumentation spec \<in> {''off'', ''on''} \<and>
     ef_source_key spec \<in> set INPUT_KEYS"
  by (auto simp: EXPECTED_FAMILIES_def INPUT_KEYS_def split: if_splits)

lemma validate_family_raises:
  assumes tables: "\<forall>t \<in> snd ` set s02. modes_table t" "\<forall>t \<in> snd ` set s03. roles_table t"
    and labels: "set labels \<subseteq> set S04_LABELS" and ins: "map fst inputs = INPUT_KEYS"
  shows "raises contract_error (validate_family inputs labels s02 s03 st x)"
proof -
  have src: "raises contract_error (key_item inputs k)" if "k \<in> set INPUT_KEYS" for k
  proof -
    have "k \<in> fst ` set inputs" using that ins by (metis set_map)
    then obtain v where "map_of inputs k = Some v" by (metis domD domIff map_of_eq_None_iff)
    then show ?thesis by (simp add: key_item_def raises_Inr)
  qed
  have up: "raises contract_error (bnd (upstream_for n i s02 s03) (\<lambda>up. bnd
      (validate_family_entries n v labels pre up claimed) g))"
    if i: "i \<in> {''off'', ''on''}" and g: "\<And>y. raises contract_error (g y)"
    for n i v pre claimed and g :: "report_entry list \<times> string set \<Rightarrow> 'b res"
  proof -
    obtain u where "upstream_for n i s02 s03 = Inr u" "\<forall>t \<in> snd ` set u. roles_table t"
      using upstream_for_tables [OF tables i] by blast
    then show ?thesis using g by (auto intro!: raises_bnd validate_family_entries_raises labels)
  qed
  have fam: "raises contract_error (case map_of EXPECTED_FAMILIES n of None \<Rightarrow> Inl e | Some spec \<Rightarrow> g spec)"
    if "contract_error e" "\<And>spec. ef_instrumentation spec \<in> {''off'', ''on''} \<Longrightarrow>
        ef_source_key spec \<in> set INPUT_KEYS \<Longrightarrow> raises contract_error (g spec)"
    for n e and g :: "family_spec \<Rightarrow> 'b res"
    using that EXPECTED_FAMILIES_SomeD [of n]
    by (cases "map_of EXPECTED_FAMILIES n") (auto intro: raises_Inl)
  have at_mode: "raises contract_error (if i \<noteq> j then Inl e else g)"
    if "contract_error e" "i = j \<Longrightarrow> raises contract_error g" for i j :: string and e and g :: "'b res"
    using that by (auto intro: raises_Inl)
  show ?thesis
    unfolding validate_family_def Let_def
    by (intro raises_prod raises_prod_fun raises_json raises_bnd [OF contract_required_raises(1)]
        raises_bnd [OF src] fam at_mode up raises_if raises_Inl raises_Inr) auto
qed

section \<open>The whole manifest\<close>

lemma contract_load_json_Inr [res_iff]:
  "contract_load_json w p scope = Inr d \<longleftrightarrow> bnd (fs_read w p) (json_loads w) = Inr (JObj d)"
  by (auto simp: contract_load_json_def res_iff)

lemma load_upstream_Inr [res_iff]:
  "load_upstream_manifest w repo raw scope = Inr d \<longleftrightarrow>
     bnd (fs_read w (resolve_repo_path repo raw)) (json_loads w) = Inr (JObj d) \<and>
     (\<exists>ws. map_of d ''workloads'' = Some (JArr ws) \<and> ws \<noteq> [])"
  by (auto simp: load_upstream_manifest_def res_iff dget_eq_iff)

lemma validate_artifact_families_Inr:
  assumes "validate_artifact_families w repo v inputs labels = Inr fs"
  obtains m02 m03 s02 s03 where
    "Option.bind (map_of inputs ''software_manifest'') (\<lambda>p. Some (load_upstream_manifest w repo p
       ''inputs.software_manifest'')) = Some (Inr m02)"
    "Option.bind (map_of inputs ''idxd_manifest'') (\<lambda>p. Some (load_upstream_manifest w repo p
       ''inputs.idxd_manifest'')) = Some (Inr m03)"
    "index_s02_workloads m02 = Inr s02" "index_s03_workloads m03 = Inr s03"
    "list_all (family_accepted inputs labels s02 s03) fs"
    "distinct (map rf_run_family fs)" "set (map rf_run_family fs) = set (map fst EXPECTED_FAMILIES)"
    "distinct (concat (map family_artifacts fs))"
proof -
  from assms obtain vs p02 p03 m02 m03 s02 s03 seen claimed where
    up: "map_of inputs ''software_manifest'' = Some p02"
    "load_upstream_manifest w repo p02 ''inputs.software_manifest'' = Inr m02"
    "map_of inputs ''idxd_manifest'' = Some p03"
    "load_upstream_manifest w repo p03 ''inputs.idxd_manifest'' = Inr m03"
    "index_s02_workloads m02 = Inr s02" "index_s03_workloads m03 = Inr s03"
    and f: "foldm (validate_family inputs labels s02 s03) ([], {}, {}) (enumerate 0 vs) = Inr (fs, seen, claimed)"
    and m: "sort (filter (\<lambda>f. f \<notin> seen) (map fst EXPECTED_FAMILIES)) = []"
    by (auto simp: validate_artifact_families_def bnd_Inr_iff case_arr_iff if_raise_iff key_item_iff Let_def)
  obtain new where new: "fs = [] @ new" "list_all (family_accepted inputs labels s02 s03) new"
    "distinct (map rf_run_family new)" "seen = {} \<union> set (map rf_run_family new)"
    "distinct (concat (map family_artifacts new))"
    using f by (rule families.collected)
  have "set (filter (\<lambda>f. f \<notin> seen) (map fst EXPECTED_FAMILIES)) = {}"
    using m by (metis list.set(1) set_sort)
  then have "set (map fst EXPECTED_FAMILIES) \<subseteq> set (map rf_run_family new)" using new(4) by auto
  moreover have "set (map rf_run_family new) \<subseteq> set (map fst EXPECTED_FAMILIES)"
    using new(2) by (auto simp: list_all_iff family_accepted_def image_iff dest!: bspec map_of_SomeD) force
  ultimately have "set (map rf_run_family fs) = set (map fst EXPECTED_FAMILIES)" using new(1) by auto
  then show thesis using that up new by simp
qed

lemma index_workloads_raises:
  assumes "map_of m ''workloads'' = Some (JArr ws)"
  shows "raises contract_error (index_s02_workloads m)" "raises contract_error (index_s03_workloads m)"
proof -
  have "upstream_workloads m = Inr ws" using assms by (simp add: upstream_workloads_def item_def)
  then show "raises contract_error (index_s02_workloads m)" "raises contract_error (index_s03_workloads m)"
    by (simp_all add: index_s02_workloads_def index_s03_workloads_def raises_foldm index_raises)
qed

text \<open>An exception of \<open>read_text\<close> or \<open>json.loads\<close> that no handler catches.\<close>

definition file_error :: "world \<Rightarrow> exn \<Rightarrow> bool" where
  "file_error w e \<longleftrightarrow> (\<exists>q. bnd (fs_read w q) (json_loads w) = Inl e)"

abbreviation claim_error :: "world \<Rightarrow> exn \<Rightarrow> bool" where
  "claim_error w e \<equiv> contract_error e \<or> file_error w e"

lemma contract_load_json_raises [errs]: "raises (claim_error w) (contract_load_json w p scope)"
proof (cases "fs_read w p")
  case (Inl e)
  then show ?thesis
    by (auto simp: contract_load_json_def except_as_def file_error_def split: option.splits
        intro!: raises_Inl exI [of _ p])
next
  case (Inr raw)
  then show ?thesis
    by (cases "json_loads w raw")
      (auto simp: contract_load_json_def except_as_def file_error_def split: option.splits json.splits
        intro!: raises_Inl raises_Inr exI [of _ p])
qed

lemma claim_error_weaken: "raises contract_error r \<Longrightarrow> raises (claim_error w) r"
  by (erule raises_weaken) simp

lemma validate_artifact_families_raises:
  assumes labels: "set labels \<subseteq> set S04_LABELS" and ins: "map fst inputs = INPUT_KEYS"
  shows "raises (claim_error w) (validate_artifact_families w repo v inputs labels)"
proof -
  have up: "raises (claim_error w) (bnd (key_item inputs k) (\<lambda>p. load_upstream_manifest w repo p scope))"
    if "k \<in> set INPUT_KEYS" for k scope
  proof -
    have "k \<in> fst ` set inputs" using that ins by (metis set_map)
    then obtain x where "map_of inputs k = Some x" by (metis domD domIff map_of_eq_None_iff)
    then show ?thesis unfolding load_upstream_manifest_def
      by (simp add: key_item_def) (intro errs; simp)
  qed
  have ix: "raises (claim_error w) (index_s02_workloads m)" "raises (claim_error w) (index_s03_workloads m)"
    if m: "bnd (key_item inputs k) (\<lambda>p. load_upstream_manifest w repo p scope) = Inr m" for k scope m
  proof -
    obtain ws where "map_of m ''workloads'' = Some (JArr ws)" using m by (auto simp: res_iff)
    then show "raises (claim_error w) (index_s02_workloads m)" "raises (claim_error w) (index_s03_workloads m)"
      by (auto intro: claim_error_weaken index_workloads_raises)
  qed
  have fams: "raises (claim_error w) (foldm (validate_family inputs labels s02 s03) st xs)"
    if "index_s02_workloads m = Inr s02" "index_s03_workloads m' = Inr s03" for m m' s02 s03 st xs
    by (intro claim_error_weaken raises_foldm validate_family_raises labels ins
        index_s02_tables [OF that(1)] index_s03_tables [OF that(2)])
  have k: "''software_manifest'' \<in> set INPUT_KEYS" "''idxd_manifest'' \<in> set INPUT_KEYS"
    by (simp_all add: INPUT_KEYS_def)
  show ?thesis
    unfolding validate_artifact_families_def Let_def
    by (intro raises_json raises_if up [OF k(1)] up [OF k(2)] raises_bnd_dep raises_prod raises_Inl raises_Inr)
      (auto intro: ix fams)
qed

lemma claim_load_manifest_raises: "raises (claim_error w) (claim_load_manifest w repo p)"
proof -
  have fams: "raises (claim_error w) (validate_artifact_families w repo v ins labels)"
    if "validate_scope s = Inr (labels, keys)" "validate_inputs w repo i = Inr ins" for v s i labels keys ins
  proof (rule validate_artifact_families_raises)
    show "set labels \<subseteq> set S04_LABELS" using that(1) by (auto simp: validate_scope_iff)
    have "ins = map (\<lambda>k. (k, text_of d k)) INPUT_KEYS \<Longrightarrow> map fst ins = INPUT_KEYS" for d
      by (simp add: comp_def)
    then show "map fst ins = INPUT_KEYS" using that(2) by (auto simp: validate_inputs_iff)
  qed
  note parts = validate_parts_raise [THEN claim_error_weaken] contract_required_raises [THEN claim_error_weaken]
  show ?thesis
    unfolding claim_load_manifest_def Let_def
    by (intro raises_if contract_load_json_raises parts raises_bnd_dep raises_prod_dep raises_Inl raises_Inr)
      (auto intro: fams)
qed

lemma claim_load_manifest_Inr:
  assumes "claim_load_manifest w repo p = Inr m"
  obtains "cm_run_root m = S04_RUN_ROOT" "set (cm_workload_labels m) = set S04_LABELS"
    "cm_pairing_keys m = REQUIRED_PAIRING_KEYS" "map fst (cm_inputs m) = INPUT_KEYS"
    "\<exists>v. validate_artifact_families w repo v (cm_inputs m) (cm_workload_labels m) = Inr (cm_artifact_families m)"
    "cm_derived_outputs m = EXPECTED_DERIVED_OUTPUTS" "cm_report_path m = EXPECTED_REPORT_PATH"
    "cm_required_references m = expected_report_references S04_RUN_ROOT"
proof -
  have "ins = map (\<lambda>k. (k, text_of d k)) INPUT_KEYS \<Longrightarrow> map fst ins = INPUT_KEYS" for d ins
    by (simp add: comp_def)
  with assms have "cm_run_root m = S04_RUN_ROOT \<and> set (cm_workload_labels m) = set S04_LABELS \<and>
    cm_pairing_keys m = REQUIRED_PAIRING_KEYS \<and> map fst (cm_inputs m) = INPUT_KEYS \<and>
    (\<exists>v. validate_artifact_families w repo v (cm_inputs m) (cm_workload_labels m) = Inr (cm_artifact_families m)) \<and>
    cm_derived_outputs m = EXPECTED_DERIVED_OUTPUTS \<and> cm_report_path m = EXPECTED_REPORT_PATH \<and>
    cm_required_references m = expected_report_references S04_RUN_ROOT"
    by (auto simp: claim_load_manifest_def res_iff Let_def)
  with that show thesis by blast
qed

text \<open>What \<open>load_manifest\<close> promises of a family, without reference to the upstream tables.\<close>

definition family_wf :: "claim_manifest \<Rightarrow> report_family \<Rightarrow> bool" where
  "family_wf m f \<longleftrightarrow> (case map_of EXPECTED_FAMILIES (rf_run_family f) of
     None \<Rightarrow> False
   | Some spec \<Rightarrow> map_of (cm_inputs m) (ef_source_key spec) = Some (rf_source_manifest f) \<and>
       rf_instrumentation f = ef_instrumentation spec \<and> rf_selected_path f = ef_selected_path spec \<and>
       list_all (\<lambda>r. startswith (re_artifact r) (ef_prefix spec)) (rf_endpoint_reports f) \<and>
       distinct (map entry_key (rf_endpoint_reports f)) \<and>
       set (map entry_key (rf_endpoint_reports f)) = set S04_LABELS \<times> set EXPECTED_ENDPOINT_ROLES)"

lemma claim_families:
  assumes "claim_load_manifest w repo p = Inr m"
  shows "list_all (family_wf m) (cm_artifact_families m)"
    and "distinct (map rf_run_family (cm_artifact_families m))"
    and "set (map rf_run_family (cm_artifact_families m)) = set (map fst EXPECTED_FAMILIES)"
    and "distinct (concat (map family_artifacts (cm_artifact_families m)))"
proof -
  obtain v where v: "validate_artifact_families w repo v (cm_inputs m) (cm_workload_labels m) =
      Inr (cm_artifact_families m)" using assms by (rule claim_load_manifest_Inr) blast
  have l: "set (cm_workload_labels m) = set S04_LABELS" using assms by (rule claim_load_manifest_Inr)
  have wf: "family_accepted (cm_inputs m) (cm_workload_labels m) s02 s03 f \<Longrightarrow> family_wf m f" for s02 s03 f
    using l by (auto simp: family_accepted_def family_wf_def entry_accepted_def list_all_iff)
  show "list_all (family_wf m) (cm_artifact_families m)"
    using v by (rule validate_artifact_families_Inr) (auto elim!: list.pred_mono_strong intro: wf)
  show "distinct (map rf_run_family (cm_artifact_families m))"
    using v by (rule validate_artifact_families_Inr)
  show "set (map rf_run_family (cm_artifact_families m)) = set (map fst EXPECTED_FAMILIES)"
    using v by (rule validate_artifact_families_Inr)
  show "distinct (concat (map family_artifacts (cm_artifact_families m)))"
    using v by (rule validate_artifact_families_Inr)
qed

text \<open>C5. A claim-package manifest that \<open>load_manifest\<close> returns has exactly the three tracked
  families, each drawn from the right upstream manifest, with the right mode and path, and each
  listing every curated workload and endpoint role exactly once under its directory; no artifact is
  claimed twice, even across families; outputs and references are the fixed ones. A failure is a
  \<open>ManifestError\<close>, the \<open>KeyError\<close> of a curated label, or an exception of reading that is not caught.\<close>

theorem claim_load_manifest_outcome:
  "case claim_load_manifest w repo p of
     Inr m \<Rightarrow> cm_run_root m = S04_RUN_ROOT \<and> set (cm_workload_labels m) = set S04_LABELS \<and>
       distinct (map rf_run_family (cm_artifact_families m)) \<and>
       set (map rf_run_family (cm_artifact_families m)) =
         {''software_baseline'', ''software_attribution'', ''idxd_attribution''} \<and>
       list_all (family_wf m) (cm_artifact_families m) \<and>
       distinct (concat (map family_artifacts (cm_artifact_families m))) \<and>
       cm_derived_outputs m = EXPECTED_DERIVED_OUTPUTS \<and>
       cm_required_references m = expected_report_references S04_RUN_ROOT
   | Inl e \<Rightarrow> is_manifest_error e \<or> (\<exists>l \<in> set S04_LABELS. e = KeyError (JStr l)) \<or>
       (\<exists>q. bnd (fs_read w q) (json_loads w) = Inl e)"
proof (cases "claim_load_manifest w repo p")
  case (Inl e)
  then show ?thesis using raisesD [OF claim_load_manifest_raises Inl]
    by (simp add: contract_error_def file_error_def disj_assoc)
next
  case (Inr m)
  have n: "set (map fst EXPECTED_FAMILIES) = {''software_baseline'', ''software_attribution'', ''idxd_attribution''}"
    by (simp add: EXPECTED_FAMILIES_def)
  show ?thesis
    using Inr by (rule claim_load_manifest_Inr) (use claim_families [OF Inr] n Inr in simp)
qed

text \<open>An example package, over given upstream manifests; \<open>a\<close> and \<open>b\<close> begin the names of the two
  workloads' reports.\<close>

definition claim_demo_family :: "string \<Rightarrow> string \<Rightarrow> string \<Rightarrow> string \<Rightarrow> string \<Rightarrow> string \<Rightarrow> json" where
  "claim_demo_family name src instr sel pre mid = JObj [(''run_family'', JStr name), (''source_manifest'', JStr src),
     (''instrumentation'', JStr instr), (''selected_path'', JStr sel),
     (''endpoint_reports'', JArr (map (\<lambda>((l, n), r). JObj [(''workload_label'', JStr l),
        (''endpoint_role'', JStr r), (''artifact'', JStr (pre @ n @ mid @ r))])
        (List.product (zip S04_LABELS [''a'', ''b'']) EXPECTED_ENDPOINT_ROLES)))]"

definition claim_demo_package :: json where
  "claim_demo_package = JObj [(''version'', JInt 1), (''run_root'', JStr S04_RUN_ROOT),
     (''scope'', JObj [(''workload_labels'', JArr (map JStr S04_LABELS)),
        (''pairing_keys'', JArr (map JStr REQUIRED_PAIRING_KEYS))]),
     (''inputs'', JObj [(''software_manifest'', JStr ''s2''), (''idxd_manifest'', JStr ''s3''),
        (''control_floor_summary'', JStr ''cf''), (''report_contract'', JStr ''rc'')]),
     (''artifact_families'', JArr [
        claim_demo_family ''software_baseline'' ''s2'' ''off'' ''software'' ''software/'' ''off'',
        claim_demo_family ''software_attribution'' ''s2'' ''on'' ''software'' ''software/'' ''on'',
        claim_demo_family ''idxd_attribution'' ''s3'' ''on'' ''idxd'' ''idxd/'' '''']),
     (''derived_outputs'', JObj (map (\<lambda>(k, v). (k, JStr v)) EXPECTED_DERIVED_OUTPUTS)),
     (''report'', JObj [(''path'', JStr EXPECTED_REPORT_PATH),
        (''required_references'', JArr (map JStr (expected_report_references S04_RUN_ROOT)))])]"

definition claim_demo_s02 :: "(string \<times> string) list \<Rightarrow> json" where
  "claim_demo_s02 labels = JObj [(''workloads'', JArr (map (\<lambda>(l, n). JObj [(''label'', JStr l),
     (''endpoint_artifacts'', JObj (map (\<lambda>i. (i, JObj (map (\<lambda>r. (r, JStr (n @ i @ r)))
        EXPECTED_ENDPOINT_ROLES))) [''off'', ''on'']))]) labels))]"

definition claim_demo_s03 :: "(string \<times> string) list \<Rightarrow> json" where
  "claim_demo_s03 labels = JObj [(''workloads'', JArr (map (\<lambda>(l, n). JObj [(''label'', JStr l),
     (''endpoint_artifacts'', JObj (map (\<lambda>r. (r, JStr (n @ r))) EXPECTED_ENDPOINT_ROLES))]) labels))]"

definition claim_demo_files :: "json \<Rightarrow> json \<Rightarrow> (string \<times> json) list" where
  "claim_demo_files s02 s03 = [(''p'', claim_demo_package), (''r/s2'', s02), (''r/s3'', s03), (''r/cf'', JNull),
     (''r/rc'', JNull)]"

definition claim_demo_labels :: "(string \<times> string) list" where
  "claim_demo_labels = zip S04_LABELS [''a'', ''b'']"

definition claim_demo_world :: world where
  "claim_demo_world = table_world (claim_demo_files (claim_demo_s02 claim_demo_labels)
     (claim_demo_s03 claim_demo_labels))"

definition claim_demo :: claim_manifest where
  "claim_demo = (case claim_load_manifest claim_demo_world (path_of ''r'') (path_of ''p'') of Inr m \<Rightarrow> m
     | Inl _ \<Rightarrow> \<lparr>cm_version = JNull, cm_run_root = [], cm_workload_labels = [], cm_pairing_keys = [],
         cm_inputs = [], cm_artifact_families = [], cm_derived_outputs = [], cm_report_path = [],
         cm_required_references = []\<rparr>)"

lemma claim_demo_loads: "claim_load_manifest claim_demo_world (path_of ''r'') (path_of ''p'') = Inr claim_demo"
proof -
  have "\<not> isl (claim_load_manifest claim_demo_world (path_of ''r'') (path_of ''p''))" by code_simp
  then show ?thesis by (auto simp: claim_demo_def split: sum.splits)
qed

theorem claim_load_manifest_witness:
  "\<exists>m. claim_load_manifest claim_demo_world (path_of ''r'') (path_of ''p'') = Inr m \<and>
    distinct (concat (map family_artifacts (cm_artifact_families m)))"
  using claim_load_manifest_outcome [of claim_demo_world "path_of ''r''" "path_of ''p''"]
  by (simp add: claim_demo_loads)


section \<open>Where the outputs lie\<close>

lemma path_of_under:
  assumes "w \<noteq> ''''" "w \<noteq> ''.''" "CHR ''/'' \<notin> set w"
  shows "path_root (path_of (w @ ''/'' @ s)) = ''''"
    "path_parts (path_of (w @ ''/'' @ s)) = w # path_parts (path_of s)"
proof -
  obtain c cs where "w = c # cs" "c \<noteq> CHR ''/''" using assms by (cases w) auto
  then show "path_root (path_of (w @ ''/'' @ s)) = ''''"
    by (simp add: path_of_def root_of_def startswith_def)
  show "path_parts (path_of (w @ ''/'' @ s)) = w # path_parts (path_of s)"
    using assms(1,2) by (simp add: path_of_def split_slash_append [OF assms(3), simplified])
qed

lemma under_prefix:
  assumes "startswith a (w @ ''/'')" "w \<noteq> ''''" "w \<noteq> ''.''" "CHR ''/'' \<notin> set w"
  shows "\<exists>ws. path_parts (path_div dir a) = path_parts dir @ w # ws"
proof -
  obtain s where "a = w @ ''/'' @ s" using assms(1) by (auto simp: startswith_iff)
  with path_of_under [OF assms(2-4), of s] show ?thesis by (simp add: path_join_def is_absolute_def)
qed

lemma claim_artifact_parts:
  assumes "claim_load_manifest w repo p = Inr m" "f \<in> set (cm_artifact_families m)" "a \<in> set (family_artifacts f)"
  shows "\<exists>d ws. d \<in> {''software'', ''idxd''} \<and> path_parts (path_div dir a) = path_parts dir @ d # ws"
proof -
  have "family_wf m f" using claim_families(1) [OF assms(1)] assms(2) by (simp add: list_all_iff)
  then obtain spec where "map_of EXPECTED_FAMILIES (rf_run_family f) = Some spec" "startswith a (ef_prefix spec)"
    using assms(3) by (auto simp: family_wf_def family_artifacts_def list_all_iff split: option.splits)
  then have "startswith a (''software'' @ ''/'') \<or> startswith a (''idxd'' @ ''/'')"
    by (auto simp: EXPECTED_FAMILIES_def split: if_splits)
  moreover have "\<exists>ws. path_parts (path_div dir a) = path_parts dir @ d # ws"
    if "startswith a (d @ ''/'')" "d \<in> {''software'', ''idxd''}" for d
    using under_prefix [OF that(1)] that(2) by auto
  ultimately show ?thesis by blast
qed

lemma claim_output_parts:
  assumes "claim_load_manifest w repo p = Inr m"
  shows "map (path_parts \<circ> snd) (summary_output_paths m dir) =
    map (\<lambda>n. path_parts dir @ [''summary'', n]) [''comparison_summary.json'', ''ordinary_vs_idxd.csv'', ''claim_table.md'']"
    and "path_parts (manifest_copy_path dir) = path_parts dir @ [''manifest.json'']"
proof -
  have "cm_derived_outputs m = EXPECTED_DERIVED_OUTPUTS" using assms by (rule claim_load_manifest_Inr)
  then show "map (path_parts \<circ> snd) (summary_output_paths m dir) =
    map (\<lambda>n. path_parts dir @ [''summary'', n]) [''comparison_summary.json'', ''ordinary_vs_idxd.csv'', ''claim_table.md'']"
    by (simp add: summary_output_paths_def EXPECTED_DERIVED_OUTPUTS_def path_join_def path_of_def root_of_def
        is_absolute_def startswith_def)
  show "path_parts (manifest_copy_path dir) = path_parts dir @ [''manifest.json'']"
    by (simp add: manifest_copy_path_def path_join_def path_of_def root_of_def is_absolute_def startswith_def)
qed



end
