(* ===== verification/Summarize.thy ===== *)
theory Summarize
  imports ClaimContract
begin

text \<open>
  The summariser of the claim package
  (accel-rpc/tonic-profile/scripts/summarize_s04_claim_package.py): it loads the reports of the three
  families and the control floor, pairs them by workload and role, and writes one JSON document, one
  CSV file and one Markdown table.
\<close>

section \<open>Constants\<close>

definition SUMMARY_STAGE_NAMES :: "string list" where
  "SUMMARY_STAGE_NAMES = [''encode'', ''decode'', ''compress'', ''decompress'', ''buffer_reserve'',
     ''body_accum'', ''frame_header'']"

definition REQUIRED_METRIC_NAMES :: "string list" where
  "REQUIRED_METRIC_NAMES = [''requests_completed'', ''bytes_sent'', ''bytes_received'', ''duration_ms'',
     ''throughput_rps'', ''throughput_mib_s'', ''latency_us_p50'', ''latency_us_p95'', ''latency_us_p99'',
     ''latency_us_max'']"

definition REQUIRED_REPORT_METADATA :: "string list" where
  "REQUIRED_REPORT_METADATA = [''mode'', ''endpoint_role'', ''run_id'', ''selected_path'', ''workload_label'',
     ''instrumentation'']"

definition STAGE_NUMBERS :: "string list" where
  "STAGE_NUMBERS = [''count'', ''nanos'', ''millis'', ''bytes'', ''avg_nanos'']"

definition CSV_COLUMNS :: "string list" where
  "CSV_COLUMNS = [''workload_label'', ''endpoint_role'', ''device_path'', ''software_baseline_run_id'',
     ''software_attribution_run_id'', ''idxd_attribution_run_id'', ''software_baseline_throughput_rps'',
     ''software_attribution_throughput_rps'', ''idxd_attribution_throughput_rps'',
     ''idxd_vs_software_baseline_throughput_ratio'', ''idxd_vs_software_attribution_throughput_ratio'',
     ''software_baseline_latency_us_p50'', ''software_attribution_latency_us_p50'',
     ''idxd_attribution_latency_us_p50'', ''software_attribution_stage_nanos_total'',
     ''idxd_attribution_stage_nanos_total'', ''idxd_minus_software_attribution_stage_nanos_total'']"


section \<open>Reading\<close>

definition require_dict :: "json \<Rightarrow> string \<Rightarrow> obj res" where
  "require_dict v scope = (case v of JObj d \<Rightarrow> Inr d
     | _ \<Rightarrow> Inl (SummaryError [Txt (''phase=summarization '' @ scope @ '' must be an object'')]))"

definition require_value :: "obj \<Rightarrow> string \<Rightarrow> string \<Rightarrow> json res" where
  "require_value parent key scope = (case map_of parent key of Some v \<Rightarrow> Inr v
     | None \<Rightarrow> Inl (SummaryError [Txt (''phase=summarization '' @ scope @ '' missing '' @ key)]))"

definition require_str :: "obj \<Rightarrow> string \<Rightarrow> string \<Rightarrow> string res" where
  "require_str parent key scope =
    (let bad = SummaryError [Txt (''phase=summarization '' @ scope @ ''.'' @ key @ '' must be a non-empty string'')] in
     bnd (require_value parent key scope) (\<lambda>v. case v of
       JStr t \<Rightarrow> (if t = [] then Inl bad else Inr t) | _ \<Rightarrow> Inl bad))"

definition require_bool :: "obj \<Rightarrow> string \<Rightarrow> string \<Rightarrow> bool res" where
  "require_bool parent key scope = bnd (require_value parent key scope) (\<lambda>v. case v of
     JBool b \<Rightarrow> Inr b
   | _ \<Rightarrow> Inl (SummaryError [Txt (''phase=summarization '' @ scope @ ''.'' @ key @ '' must be a bool'')]))"

fun is_bool :: "json \<Rightarrow> bool" where
  "is_bool (JBool b) = True"
| "is_bool _ = False"

definition require_number :: "obj \<Rightarrow> string \<Rightarrow> string \<Rightarrow> pyfloat res" where
  "require_number parent key scope = bnd (require_value parent key scope) (\<lambda>v.
     if \<not> is_number v \<or> is_bool v then
       Inl (SummaryError [Txt (''phase=summarization '' @ scope @ ''.'' @ key @ '' must be numeric'')])
     else num_float v)"

definition sm_load_json_object :: "world \<Rightarrow> path \<Rightarrow> string \<Rightarrow> string \<Rightarrow> obj res" where
  "sm_load_json_object w p phase scope =
    (let head = ''phase='' @ phase @ '' '' @ scope in
    bnd (except_as (fs_read w p) os_error_text (\<lambda>err.
           SummaryError [Txt (head @ '' read failed artifact='' @ path_str p @ '': '' @ err)])) (\<lambda>raw.
    bnd (except_as (json_loads w raw) json_error_text (\<lambda>err.
           SummaryError [Txt (head @ '' parse failed artifact='' @ path_str p @ '': '' @ err)])) (\<lambda>value.
    case value of JObj d \<Rightarrow> Inr d
    | _ \<Rightarrow> Inl (SummaryError [Txt (head @ '' root must be an object artifact='' @ path_str p)]))))"

text \<open>\<open>a or b\<close> on an optional text.\<close>

definition or_else :: "string option \<Rightarrow> string \<Rightarrow> string" where
  "or_else x d = (case x of Some t \<Rightarrow> if t = [] then d else t | None \<Rightarrow> d)"

definition sm_resolve_run_root :: "world \<Rightarrow> path \<Rightarrow> claim_manifest \<Rightarrow> string option \<Rightarrow> path" where
  "sm_resolve_run_root w repo manifest run_root_override =
    fs_resolve w (resolve_repo_path repo (or_else run_root_override (cm_run_root manifest)))"

definition output_paths :: "claim_manifest \<Rightarrow> path \<Rightarrow> (string, path) dict" where
  "output_paths manifest run_root =
    map (\<lambda>(key, relpath). (key, path_div run_root relpath)) (cm_derived_outputs manifest)"

definition stage_totals :: "obj \<Rightarrow> (pyfloat \<times> pyfloat) res" where
  "stage_totals stages = foldm (\<lambda>(total_nanos, total_bytes) stage_name.
     bnd (require_dict (dget stages stage_name) (''stages.'' @ stage_name)) (\<lambda>stage.
     bnd (require_number stage ''nanos'' (''stages.'' @ stage_name)) (\<lambda>nanos.
     bnd (require_number stage ''bytes'' (''stages.'' @ stage_name)) (\<lambda>bytes.
     Inr (fadd total_nanos nanos, fadd total_bytes bytes)))))
     (Fin 0, Fin 0) SUMMARY_STAGE_NAMES"

definition safe_ratio :: "pyfloat \<Rightarrow> pyfloat \<Rightarrow> pyfloat option" where
  "safe_ratio numerator denominator = (if feq denominator (Fin 0) then None else Some (fdiv numerator denominator))"

definition render_float :: "pyfloat option \<Rightarrow> nat \<Rightarrow> string" where
  "render_float value digits = (case value of None \<Rightarrow> ''n/a'' | Some f \<Rightarrow> fmt_fixed digits f)"

record loaded_report =
  lr_artifact :: string
  lr_metadata :: obj
  lr_metrics :: obj
  lr_stages :: obj
  lr_stage_totals :: "pyfloat \<times> pyfloat"

text \<open>\<open>if metadata[key] != expected: raise\<close>\<close>

definition sm_check_field :: "string \<Rightarrow> obj \<Rightarrow> string \<times> string \<Rightarrow> unit res" where
  "sm_check_field context metadata = (\<lambda>(key, expected).
    bnd (item metadata key) (\<lambda>actual.
    if \<not> py_eq actual (JStr expected) then Inl (SummaryError [Txt (context @ '' metadata.'' @ key @ ''=''),
      Rep actual, Txt '' expected '', Rep (JStr expected)]) else Inr ()))"

definition sm_check_stage :: "string \<Rightarrow> obj \<Rightarrow> string \<Rightarrow> unit res" where
  "sm_check_stage context stages stage_name =
    (let scope = context @ '' stages.'' @ stage_name in
     bnd (require_dict (dget stages stage_name) scope) (\<lambda>stage.
     each (\<lambda>field. bnd (require_number stage field scope) (\<lambda>_. Inr ())) STAGE_NUMBERS))"

definition sm_check_device :: "string \<Rightarrow> obj \<Rightarrow> string \<Rightarrow> unit res" where
  "sm_check_device context metadata selected_path =
    (let device_path = dget metadata ''accelerated_device_path'' in
     if selected_path = ''idxd'' then
       (if \<not> nonempty_str device_path then Inl (SummaryError [Txt (context @
          '' metadata.accelerated_device_path must be a non-empty string for idxd summaries'')]) else Inr ())
     else if device_path \<noteq> JNull then Inl (SummaryError [Txt (context @
          '' metadata.accelerated_device_path must be null for software summaries'')]) else Inr ())"

definition load_report ::
    "world \<Rightarrow> path \<Rightarrow> string \<Rightarrow> string \<Rightarrow> string \<Rightarrow> string \<Rightarrow> string \<Rightarrow> loaded_report res" where
  "load_report w report_path label endpoint_role run_family instrumentation selected_path =
    (let context = ''label='' @ label @ '' phase=summarization endpoint_role='' @ endpoint_role @
           '' run_family='' @ run_family @ '' artifact='' @ path_str report_path in
    bnd (sm_load_json_object w report_path ''summarization'' context) (\<lambda>report.
    bnd (require_dict (dget report ''metadata'') (context @ '' metadata'')) (\<lambda>metadata.
    bnd (require_dict (dget report ''metrics'') (context @ '' metrics'')) (\<lambda>metrics.
    bnd (require_dict (dget report ''stages'') (context @ '' stages'')) (\<lambda>stages.
    bnd (each (\<lambda>field. bnd (require_str metadata field (context @ '' metadata'')) (\<lambda>_. Inr ()))
           REQUIRED_REPORT_METADATA) (\<lambda>_.
    bnd (each (\<lambda>field. bnd (require_number metrics field (context @ '' metrics'')) (\<lambda>_. Inr ()))
           REQUIRED_METRIC_NAMES) (\<lambda>_.
    bnd (require_bool stages ''enabled'' (context @ '' stages'')) (\<lambda>enabled.
    bnd (each (sm_check_field context metadata) [(''endpoint_role'', endpoint_role),
           (''workload_label'', label), (''instrumentation'', instrumentation),
           (''selected_path'', selected_path)]) (\<lambda>_.
    if (instrumentation = ''on'') \<noteq> enabled then Inl (SummaryError [Txt (context @ '' stages.enabled=''),
      Rep (JBool enabled), Txt '' expected '', Rep (JBool (instrumentation = ''on''))]) else
    bnd (item metadata ''run_id'') (\<lambda>actual_run_id.
    if \<not> nonempty_str actual_run_id then
      Inl (SummaryError [Txt (context @ '' metadata.run_id must be a non-empty string'')]) else
    bnd (each (sm_check_stage context stages) SUMMARY_STAGE_NAMES) (\<lambda>_.
    bnd (sm_check_device context metadata selected_path) (\<lambda>_.
    bnd (stage_totals stages) (\<lambda>totals.
    Inr \<lparr>lr_artifact = path_str report_path, lr_metadata = metadata, lr_metrics = metrics,
         lr_stages = stages, lr_stage_totals = totals\<rparr>)))))))))))))"

record floor_entry =
  fe_benchmark_name :: string
  fe_mean_ns :: pyfloat
  fe_median_ns :: pyfloat
  fe_std_dev_ns :: pyfloat
  fe_sample_count :: int

record control_floor =
  cfl_path :: string
  cfl_suite_name :: json
  cfl_schema_version :: json
  cfl_benchmarks :: "(string, floor_entry) dict"

definition load_floor_entry :: "path \<Rightarrow> obj \<Rightarrow> json \<Rightarrow> (string \<times> floor_entry) res" where
  "load_floor_entry software_manifest_path benchmarks raw =
    (let head = ''phase=control-floor-validation '' in
    case raw of JStr raw_name \<Rightarrow>
     (if raw_name = [] then Inl (SummaryError [Txt (head @ ''software_manifest='' @
        path_str software_manifest_path @ '' expected_benchmarks contains a non-string entry'')]) else
      case dget benchmarks raw_name of JObj benchmark \<Rightarrow>
        (let scope = ''control_floor_summary.benchmarks.'' @ raw_name in
         bnd (require_str benchmark ''benchmark_name'' scope) (\<lambda>benchmark_name.
         if benchmark_name \<noteq> raw_name then Inl (SummaryError [Txt (head @ ''control_floor_summary benchmark='' @
             raw_name @ '' benchmark_name=''), Rep (JStr benchmark_name), Txt '' expected '', Rep (JStr raw_name)]) else
         bnd (require_number benchmark ''mean_ns'' scope) (\<lambda>mean_ns.
         bnd (require_number benchmark ''median_ns'' scope) (\<lambda>median_ns.
         bnd (require_number benchmark ''std_dev_ns'' scope) (\<lambda>std_dev_ns.
         bnd (bnd (require_number benchmark ''sample_count'' scope) (\<lambda>f. py_int (JFloat f))) (\<lambda>sample_count.
         Inr (raw_name, \<lparr>fe_benchmark_name = benchmark_name, fe_mean_ns = mean_ns, fe_median_ns = median_ns,
                         fe_std_dev_ns = std_dev_ns, fe_sample_count = sample_count\<rparr>)))))))
      | _ \<Rightarrow> Inl (SummaryError [Txt (head @ ''control_floor_summary missing benchmark='' @ raw_name)]))
    | _ \<Rightarrow> Inl (SummaryError [Txt (head @ ''software_manifest='' @ path_str software_manifest_path @
              '' expected_benchmarks contains a non-string entry'')]))"

definition load_control_floor :: "world \<Rightarrow> path \<Rightarrow> claim_manifest \<Rightarrow> control_floor res" where
  "load_control_floor w repo manifest =
    bnd (bnd (key_item (cm_inputs manifest) ''control_floor_summary'') (\<lambda>p. Inr (resolve_repo_path repo p)))
      (\<lambda>control_floor_path.
    bnd (sm_load_json_object w control_floor_path ''control-floor-validation''
           (''control_floor_summary='' @ path_str control_floor_path)) (\<lambda>summary.
    bnd (require_dict (dget summary ''benchmarks'') ''control_floor_summary.benchmarks'') (\<lambda>benchmarks.
    bnd (bnd (key_item (cm_inputs manifest) ''software_manifest'') (\<lambda>p. Inr (resolve_repo_path repo p)))
      (\<lambda>software_manifest_path.
    bnd (sm_load_json_object w software_manifest_path ''control-floor-validation''
           (''software_manifest='' @ path_str software_manifest_path)) (\<lambda>software_manifest.
    let missing = SummaryError [Txt (''phase=control-floor-validation software_manifest='' @
          path_str software_manifest_path @ '' missing expected_benchmarks'')] in
    case dget software_manifest ''expected_benchmarks'' of JArr expected_names \<Rightarrow>
      (if expected_names = [] then Inl missing else
       bnd (foldm (\<lambda>rendered raw. bnd (load_floor_entry software_manifest_path benchmarks raw) (\<lambda>(name, entry).
              Inr (AList.update name entry rendered))) [] expected_names) (\<lambda>rendered.
       Inr \<lparr>cfl_path = path_str control_floor_path, cfl_suite_name = dget summary ''suite_name'',
            cfl_schema_version = dget summary ''schema_version'', cfl_benchmarks = rendered\<rparr>))
    | _ \<Rightarrow> Inl missing)))))"

section \<open>Pairing\<close>

type_synonym family_table = "(string, (string \<times> string, loaded_report) dict) dict"

text \<open>\<open>loaded[run_family][(label, role)]\<close>; a missing tuple key shows as the array of its parts.\<close>

definition report_at :: "family_table \<Rightarrow> string \<Rightarrow> string \<Rightarrow> string \<Rightarrow> loaded_report res" where
  "report_at loaded run_family label role = bnd (key_item loaded run_family) (\<lambda>d.
     case map_of d (label, role) of Some r \<Rightarrow> Inr r | None \<Rightarrow> Inl (KeyError (JArr [JStr label, JStr role])))"

definition load_family_entry ::
    "world \<Rightarrow> path \<Rightarrow> report_family \<Rightarrow> (string \<times> string, loaded_report) dict \<Rightarrow> report_entry \<Rightarrow>
      (string \<times> string, loaded_report) dict res" where
  "load_family_entry w run_root family family_reports entry =
    (let artifact_path = fs_resolve w (path_div run_root (re_artifact entry)) in
     bnd (load_report w artifact_path (re_workload_label entry) (re_endpoint_role entry) (rf_run_family family)
            (rf_instrumentation family) (rf_selected_path family)) (\<lambda>report.
     Inr (AList.update (re_workload_label entry, re_endpoint_role entry) report family_reports)))"

definition check_run_ids :: "path \<Rightarrow> family_table \<Rightarrow> report_family \<Rightarrow> string \<Rightarrow> unit res" where
  "check_run_ids run_root loaded family label =
    bnd (report_at loaded (rf_run_family family) label ''client'') (\<lambda>client.
    bnd (report_at loaded (rf_run_family family) label ''server'') (\<lambda>server.
    bnd (item (lr_metadata client) ''run_id'') (\<lambda>client_run_id.
    bnd (item (lr_metadata server) ''run_id'') (\<lambda>server_run_id.
    if \<not> py_eq client_run_id server_run_id then Inl (SummaryError [Txt (''label='' @ label @
        '' phase=pairing-mismatch endpoint_role=client/server run_family='' @ rf_run_family family @
        '' artifact='' @ path_str (path_div run_root (rf_selected_path family)) @ '' run_id mismatch client=''),
      Rep client_run_id, Txt '' server='', Rep server_run_id])
    else Inr ()))))"

definition load_family_reports :: "world \<Rightarrow> claim_manifest \<Rightarrow> path \<Rightarrow> family_table res" where
  "load_family_reports w manifest run_root =
    bnd (foldm (\<lambda>loaded family.
           bnd (foldm (load_family_entry w run_root family) [] (rf_endpoint_reports family)) (\<lambda>family_reports.
           Inr (AList.update (rf_run_family family) family_reports loaded)))
         [] (cm_artifact_families manifest)) (\<lambda>loaded.
    bnd (each (\<lambda>family. each (check_run_ids run_root loaded family) (cm_workload_labels manifest))
          (cm_artifact_families manifest)) (\<lambda>_.
    Inr loaded))"


section \<open>Rows\<close>

record row_side =
  sd_artifact :: string
  sd_run_id :: json
  sd_throughput_rps :: pyfloat
  sd_latency_us_p50 :: pyfloat
  sd_latency_us_p95 :: pyfloat
  sd_stage_nanos_total :: pyfloat
  sd_stage_bytes_total :: pyfloat

record row =
  rw_workload_label :: string
  rw_endpoint_role :: string
  rw_device_path :: json
  rw_software_baseline :: row_side
  rw_software_attribution :: row_side
  rw_idxd_attribution :: row_side
  rw_minus_baseline_rps :: pyfloat
  rw_vs_baseline_ratio :: "pyfloat option"
  rw_minus_baseline_p50 :: pyfloat
  rw_minus_attribution_rps :: pyfloat
  rw_vs_attribution_ratio :: "pyfloat option"
  rw_minus_attribution_p50 :: pyfloat
  rw_minus_attribution_nanos :: pyfloat

definition metric :: "loaded_report \<Rightarrow> string \<Rightarrow> pyfloat res" where
  "metric r k = bnd (item (lr_metrics r) k) num_float"

definition side_of :: "loaded_report \<Rightarrow> row_side res" where
  "side_of r =
    bnd (item (lr_metadata r) ''run_id'') (\<lambda>run_id.
    bnd (metric r ''throughput_rps'') (\<lambda>rps.
    bnd (metric r ''latency_us_p50'') (\<lambda>p50.
    bnd (metric r ''latency_us_p95'') (\<lambda>p95.
    Inr \<lparr>sd_artifact = lr_artifact r, sd_run_id = run_id, sd_throughput_rps = rps, sd_latency_us_p50 = p50,
         sd_latency_us_p95 = p95, sd_stage_nanos_total = fst (lr_stage_totals r),
         sd_stage_bytes_total = snd (lr_stage_totals r)\<rparr>))))"

definition compare_sides :: "string \<Rightarrow> string \<Rightarrow> json \<Rightarrow> row_side \<Rightarrow> row_side \<Rightarrow> row_side \<Rightarrow> row" where
  "compare_sides label endpoint_role device_path baseline sw_on idxd =
    \<lparr>rw_workload_label = label, rw_endpoint_role = endpoint_role, rw_device_path = device_path,
     rw_software_baseline = baseline, rw_software_attribution = sw_on, rw_idxd_attribution = idxd,
     rw_minus_baseline_rps = fsub (sd_throughput_rps idxd) (sd_throughput_rps baseline),
     rw_vs_baseline_ratio = safe_ratio (sd_throughput_rps idxd) (sd_throughput_rps baseline),
     rw_minus_baseline_p50 = fsub (sd_latency_us_p50 idxd) (sd_latency_us_p50 baseline),
     rw_minus_attribution_rps = fsub (sd_throughput_rps idxd) (sd_throughput_rps sw_on),
     rw_vs_attribution_ratio = safe_ratio (sd_throughput_rps idxd) (sd_throughput_rps sw_on),
     rw_minus_attribution_p50 = fsub (sd_latency_us_p50 idxd) (sd_latency_us_p50 sw_on),
     rw_minus_attribution_nanos = fsub (sd_stage_nanos_total idxd) (sd_stage_nanos_total sw_on)\<rparr>"

definition build_row :: "family_table \<Rightarrow> string \<Rightarrow> string \<Rightarrow> row res" where
  "build_row family_reports label endpoint_role =
    bnd (report_at family_reports ''software_baseline'' label endpoint_role) (\<lambda>baseline.
    bnd (report_at family_reports ''software_attribution'' label endpoint_role) (\<lambda>sw_on.
    bnd (report_at family_reports ''idxd_attribution'' label endpoint_role) (\<lambda>idxd.
    bnd (item (lr_metadata idxd) ''accelerated_device_path'') (\<lambda>device_path.
    bnd (side_of baseline) (\<lambda>b. bnd (side_of sw_on) (\<lambda>s. bnd (side_of idxd) (\<lambda>i.
    Inr (compare_sides label endpoint_role device_path b s i))))))))"

definition row_line :: "path \<Rightarrow> row \<Rightarrow> msg" where
  "row_line run_root r = [Txt (''phase=summarization label='' @ rw_workload_label r @ '' endpoint_role='' @
     rw_endpoint_role r @ '' instrumentation=baseline+attribution run_root='' @ path_str run_root @
     '' device_path=''), str_frag (rw_device_path r)]"

definition build_rows :: "claim_manifest \<Rightarrow> path \<Rightarrow> family_table \<Rightarrow> row list io" where
  "build_rows manifest run_root family_reports =
    iofold (\<lambda>rows (label, endpoint_role).
      iobnd (lift (build_row family_reports label endpoint_role)) (\<lambda>r.
      iobnd (say (row_line run_root r)) (\<lambda>_. ret (rows @ [r]))))
      [] (List.product (cm_workload_labels manifest) EXPECTED_ENDPOINT_ROLES)"


section \<open>Writing\<close>

definition write_json :: "host \<Rightarrow> path \<Rightarrow> json \<Rightarrow> unit io" where
  "write_json h p v = iobnd (mkdir_p h (path_parent p)) (\<lambda>_. write_text h p (h_dumps h v @ [CHR 0x0A]))"

text \<open>A field and a line as \<open>csv.DictWriter\<close> writes them: quoted when it contains a comma, a quote or
  a line break, with quotes doubled.\<close>

definition csv_quote :: char where "csv_quote = CHR 0x22"

definition csv_special :: "char \<Rightarrow> bool" where
  "csv_special c \<longleftrightarrow> c = CHR '','' \<or> c = csv_quote \<or> c = CHR 0x0A \<or> c = CHR 0x0D"

definition csv_field :: "string \<Rightarrow> string" where
  "csv_field t = (if list_ex csv_special t
     then [csv_quote] @ concat (map (\<lambda>c. if c = csv_quote then [c, c] else [c]) t) @ [csv_quote] else t)"

definition csv_line :: "string list \<Rightarrow> string" where
  "csv_line vs = joined '','' (map csv_field vs) @ [CHR 0x0D, CHR 0x0A]"

text \<open>The text of a value that \<open>load_report\<close> has checked to be a string.\<close>

fun str_of :: "json \<Rightarrow> string" where
  "str_of (JStr t) = t"
| "str_of _ = []"

definition csv_values :: "row \<Rightarrow> string list" where
  "csv_values r = (let b = rw_software_baseline r; s = rw_software_attribution r; i = rw_idxd_attribution r in
    [rw_workload_label r, rw_endpoint_role r, str_of (rw_device_path r), str_of (sd_run_id b),
     str_of (sd_run_id s), str_of (sd_run_id i), render_float (Some (sd_throughput_rps b)) 3,
     render_float (Some (sd_throughput_rps s)) 3, render_float (Some (sd_throughput_rps i)) 3,
     render_float (rw_vs_baseline_ratio r) 3, render_float (rw_vs_attribution_ratio r) 3,
     render_float (Some (sd_latency_us_p50 b)) 0, render_float (Some (sd_latency_us_p50 s)) 0,
     render_float (Some (sd_latency_us_p50 i)) 0, render_float (Some (sd_stage_nanos_total s)) 0,
     render_float (Some (sd_stage_nanos_total i)) 0, render_float (Some (rw_minus_attribution_nanos r)) 0])"

definition csv_text :: "row list \<Rightarrow> string" where
  "csv_text rows = csv_line CSV_COLUMNS @ concat (map (\<lambda>r. csv_line (csv_values r)) rows)"

definition write_csv :: "host \<Rightarrow> path \<Rightarrow> row list \<Rightarrow> unit io" where
  "write_csv h p rows = iobnd (mkdir_p h (path_parent p)) (\<lambda>_. write_text h p (csv_text rows))"

definition table_line :: "string list \<Rightarrow> string" where
  "table_line cells = ''| '' @ joined '' | '' cells @ '' |''"

definition row_cells :: "row \<Rightarrow> string list" where
  "row_cells r = (let b = rw_software_baseline r; s = rw_software_attribution r; i = rw_idxd_attribution r in
    [rw_workload_label r, rw_endpoint_role r, render_float (Some (sd_throughput_rps b)) 3,
     render_float (Some (sd_throughput_rps s)) 3, render_float (Some (sd_throughput_rps i)) 3,
     render_float (rw_vs_baseline_ratio r) 3, render_float (rw_vs_attribution_ratio r) 3,
     render_float (Some (sd_stage_nanos_total s)) 0, render_float (Some (sd_stage_nanos_total i)) 0,
     str_of (rw_device_path r)])"

definition floor_cells :: "string \<times> floor_entry \<Rightarrow> string list" where
  "floor_cells = (\<lambda>(name, e). [name, render_float (Some (fe_mean_ns e)) 3, render_float (Some (fe_median_ns e)) 3,
     render_float (Some (fe_std_dev_ns e)) 3, str_int (fe_sample_count e)])"

definition claim_table_lines :: "row list \<Rightarrow> control_floor \<Rightarrow> string list" where
  "claim_table_lines rows cfl =
    [''# S04 ordinary versus IDXD claim table'', '''', ''## Workload and endpoint comparisons'', '''',
     table_line [''workload_label'', ''endpoint_role'', ''sw baseline rps'', ''sw attribution rps'',
       ''idxd attribution rps'', ''idxd/sw baseline'', ''idxd/sw attribution'', ''sw attribution stage ns'',
       ''idxd attribution stage ns'', ''device_path''],
     table_line [''---'', ''---'', ''---:'', ''---:'', ''---:'', ''---:'', ''---:'', ''---:'', ''---:'', ''---'']] @
    map (\<lambda>r. table_line (row_cells r)) rows @
    ['''', ''## Async control-floor reference'', '''',
     table_line [''benchmark'', ''mean_ns'', ''median_ns'', ''std_dev_ns'', ''sample_count''],
     table_line [''---'', ''---:'', ''---:'', ''---:'', ''---:'']] @
    map (\<lambda>x. table_line (floor_cells x)) (sort_key fst (cfl_benchmarks cfl))"

definition write_claim_table :: "host \<Rightarrow> path \<Rightarrow> row list \<Rightarrow> control_floor \<Rightarrow> unit io" where
  "write_claim_table h p rows cfl = iobnd (mkdir_p h (path_parent p)) (\<lambda>_.
     write_text h p (joined [CHR 0x0A] (claim_table_lines rows cfl) @ [CHR 0x0A]))"

definition verify_outputs :: "world \<Rightarrow> (string, path) dict \<Rightarrow> unit res" where
  "verify_outputs w paths = each (\<lambda>(key, p).
     if \<not> fs_exists w p then Inl (SummaryError [Txt (''phase=output-validation missing '' @ key @
       '' output artifact='' @ path_str p)]) else
     if fs_size w p = 0 then Inl (SummaryError [Txt (''phase=output-validation empty '' @ key @
       '' output artifact='' @ path_str p)]) else Inr ()) paths"

definition side_json :: "row_side \<Rightarrow> json" where
  "side_json d = JObj [(''artifact'', JStr (sd_artifact d)), (''run_id'', sd_run_id d),
     (''throughput_rps'', JFloat (sd_throughput_rps d)), (''latency_us_p50'', JFloat (sd_latency_us_p50 d)),
     (''latency_us_p95'', JFloat (sd_latency_us_p95 d)),
     (''stage_nanos_total'', JFloat (sd_stage_nanos_total d)),
     (''stage_bytes_total'', JFloat (sd_stage_bytes_total d))]"

definition opt_json :: "pyfloat option \<Rightarrow> json" where
  "opt_json x = (case x of None \<Rightarrow> JNull | Some f \<Rightarrow> JFloat f)"

definition row_json :: "row \<Rightarrow> json" where
  "row_json r = JObj [(''workload_label'', JStr (rw_workload_label r)),
     (''endpoint_role'', JStr (rw_endpoint_role r)), (''device_path'', rw_device_path r),
     (''software_baseline'', side_json (rw_software_baseline r)),
     (''software_attribution'', side_json (rw_software_attribution r)),
     (''idxd_attribution'', side_json (rw_idxd_attribution r)),
     (''comparisons'', JObj
       [(''throughput_baseline'', JObj
          [(''idxd_minus_software_baseline_rps'', JFloat (rw_minus_baseline_rps r)),
           (''idxd_vs_software_baseline_throughput_ratio'', opt_json (rw_vs_baseline_ratio r)),
           (''idxd_minus_software_baseline_latency_us_p50'', JFloat (rw_minus_baseline_p50 r))]),
        (''attribution'', JObj
          [(''idxd_minus_software_attribution_rps'', JFloat (rw_minus_attribution_rps r)),
           (''idxd_vs_software_attribution_throughput_ratio'', opt_json (rw_vs_attribution_ratio r)),
           (''idxd_minus_software_attribution_latency_us_p50'', JFloat (rw_minus_attribution_p50 r)),
           (''idxd_minus_software_attribution_stage_nanos_total'', JFloat (rw_minus_attribution_nanos r))])])]"

definition floor_json :: "control_floor \<Rightarrow> json" where
  "floor_json f = JObj [(''path'', JStr (cfl_path f)), (''suite_name'', cfl_suite_name f),
     (''schema_version'', cfl_schema_version f),
     (''benchmarks'', JObj (map (\<lambda>(n, e). (n, JObj [(''benchmark_name'', JStr (fe_benchmark_name e)),
        (''mean_ns'', JFloat (fe_mean_ns e)), (''median_ns'', JFloat (fe_median_ns e)),
        (''std_dev_ns'', JFloat (fe_std_dev_ns e)), (''sample_count'', JInt (fe_sample_count e))]))
        (cfl_benchmarks f)))]"

definition build_summary_document ::
    "string \<Rightarrow> path \<Rightarrow> path \<Rightarrow> claim_manifest \<Rightarrow> row list \<Rightarrow> control_floor \<Rightarrow> (string, path) dict \<Rightarrow> json" where
  "build_summary_document now manifest_path run_root manifest rows cfl outputs =
    JObj [(''schema_version'', JInt 1), (''generated_at_utc'', JStr now),
      (''manifest_path'', JStr (path_str manifest_path)), (''run_root'', JStr (path_str run_root)),
      (''pairing_keys'', JArr (map JStr (cm_pairing_keys manifest))),
      (''summary_outputs'', JObj (map (\<lambda>(key, p). (key, JStr (path_str p))) outputs)),
      (''control_floor'', floor_json cfl), (''rows'', JArr (map row_json rows))]"

definition outputs_text :: "path \<Rightarrow> path \<Rightarrow> path \<Rightarrow> string" where
  "outputs_text summary csv table = '' summary_path='' @ path_str summary @ '' csv_path='' @ path_str csv @
     '' claim_table_path='' @ path_str table"

definition summarize :: "host \<Rightarrow> path \<Rightarrow> path \<Rightarrow> string option \<Rightarrow> bool \<Rightarrow> (string, path) dict io" where
  "summarize h repo manifest_path run_root_override verify_only =
    iobnd (look (\<lambda>w. claim_load_manifest w repo manifest_path)) (\<lambda>manifest.
    iobnd (look (\<lambda>w. Inr (sm_resolve_run_root w repo manifest run_root_override))) (\<lambda>run_root.
    let outputs = output_paths manifest run_root in
    iobnd (lift (key_item outputs ''comparison_summary_json'')) (\<lambda>summary_path.
    iobnd (lift (key_item outputs ''ordinary_vs_idxd_csv'')) (\<lambda>csv_path.
    iobnd (lift (key_item outputs ''claim_table_md'')) (\<lambda>table_path.
    iobnd (say [Txt (''phase=summarization-start manifest='' @ path_str manifest_path @ '' run_root='' @
             path_str run_root @ outputs_text summary_path csv_path table_path)]) (\<lambda>_.
    iobnd (look (\<lambda>w. load_control_floor w repo manifest)) (\<lambda>cfl.
    iobnd (look (\<lambda>w. load_family_reports w manifest run_root)) (\<lambda>family_reports.
    iobnd (build_rows manifest run_root family_reports) (\<lambda>rows.
    iobnd (utc_now h) (\<lambda>now.
    iobnd (write_json h summary_path
             (build_summary_document now manifest_path run_root manifest rows cfl outputs)) (\<lambda>_.
    iobnd (write_csv h csv_path rows) (\<lambda>_.
    iobnd (write_claim_table h table_path rows cfl) (\<lambda>_.
    iobnd (look (\<lambda>w. verify_outputs w outputs)) (\<lambda>_.
    iobnd (say [Txt (''phase=summarization-done run_root='' @ path_str run_root @ '' verify_only='' @
             (if verify_only then ''true'' else ''false'') @ outputs_text summary_path csv_path table_path @
             '' control_floor_path='' @ cfl_path cfl)]) (\<lambda>_.
    ret outputs)))))))))))))))"

record sm_args =
  sm_arg_manifest :: string
  sm_arg_run_root :: "string option"
  sm_arg_verify_only :: bool

fun is_summary_error :: "exn \<Rightarrow> bool" where
  "is_summary_error (ManifestError _) = True"
| "is_summary_error (SummaryError _) = True"
| "is_summary_error _ = False"

definition sm_main :: "host \<Rightarrow> path \<Rightarrow> sm_args \<Rightarrow> int io" where
  "sm_main h repo args = try_except
     (iobnd (look (\<lambda>w. Inr (fs_resolve w (path_of (sm_arg_manifest args))))) (\<lambda>manifest_path.
      iobnd (summarize h repo manifest_path (sm_arg_run_root args) (sm_arg_verify_only args)) (\<lambda>_. ret 0)))
     is_summary_error (\<lambda>err. iobnd (fail (exn_msg err)) (\<lambda>_. ret 1))"

section \<open>Lemmas: reading\<close>

text \<open>A field that \<open>require_number\<close> accepts: a number that is no boolean and fits a float.\<close>

definition num_field :: "obj \<Rightarrow> string \<Rightarrow> bool" where
  "num_field d k \<longleftrightarrow> \<not> is_bool (dget d k) \<and> \<not> isl (num_float (dget d k))"

lemma require_dict_iff [res_iff]: "require_dict v scope = Inr d \<longleftrightarrow> v = JObj d"
  by (cases v) (simp_all add: require_dict_def)

lemma require_value_iff [res_iff]: "require_value d k scope = Inr v \<longleftrightarrow> map_of d k = Some v"
  by (auto simp: require_value_def split: option.splits)

lemma require_str_iff [res_iff]:
  "require_str d k scope = Inr t \<longleftrightarrow> map_of d k = Some (JStr t) \<and> t \<noteq> []"
  by (auto simp: require_str_def res_iff Let_def)

lemma require_bool_iff [res_iff]: "require_bool d k scope = Inr b \<longleftrightarrow> map_of d k = Some (JBool b)"
  by (auto simp: require_bool_def res_iff)

lemma require_number_iff [res_iff]:
  "require_number d k scope = Inr f \<longleftrightarrow> \<not> is_bool (dget d k) \<and> num_float (dget d k) = Inr f"
proof (cases "map_of d k")
  case (Some v)
  then show ?thesis by (cases v) (simp_all add: require_number_def require_value_def)
qed (simp add: require_number_def require_value_def dget_def)

lemma require_number_ok: "(\<exists>f. require_number d k scope = Inr f) \<longleftrightarrow> num_field d k"
  by (auto simp: res_iff num_field_def) (metis not_isl_iff)

lemma sm_load_json_iff [res_iff]:
  "sm_load_json_object w p phase scope = Inr d \<longleftrightarrow> bnd (fs_read w p) (json_loads w) = Inr (JObj d)"
  by (auto simp: sm_load_json_object_def res_iff Let_def)

text \<open>What \<open>load_report\<close> demands of a report.\<close>

definition totals_stage :: "obj \<Rightarrow> string \<Rightarrow> bool" where
  "totals_stage stages n \<longleftrightarrow> obj_field stages n \<and> list_all (num_field (sub stages n)) STAGE_NUMBERS"

definition report_accepted :: "string \<Rightarrow> string \<Rightarrow> string \<Rightarrow> string \<Rightarrow> obj \<Rightarrow> bool" where
  "report_accepted label role instrumentation selected_path report \<longleftrightarrow>
    (let metadata = sub report ''metadata''; metrics = sub report ''metrics''; stages = sub report ''stages'' in
     list_all (obj_field report) [''metadata'', ''metrics'', ''stages''] \<and>
     list_all (str_field metadata) REQUIRED_REPORT_METADATA \<and>
     list_all (num_field metrics) REQUIRED_METRIC_NAMES \<and>
     fields_match metadata [(''endpoint_role'', JStr role), (''workload_label'', JStr label),
       (''instrumentation'', JStr instrumentation), (''selected_path'', JStr selected_path)] \<and>
     dget stages ''enabled'' = JBool (instrumentation = ''on'') \<and>
     list_all (totals_stage stages) SUMMARY_STAGE_NAMES \<and>
     (if selected_path = ''idxd'' then str_field metadata ''accelerated_device_path''
      else dget metadata ''accelerated_device_path'' = JNull))"

lemma sm_check_stage_iff [res_iff]: "sm_check_stage context stages n = Inr u \<longleftrightarrow> totals_stage stages n"
proof -
  have "sm_check_stage context stages n = Inr u \<longleftrightarrow> (\<exists>d. dget stages n = JObj d \<and>
      (\<forall>k \<in> set STAGE_NUMBERS. num_field d k))"
    unfolding sm_check_stage_def Let_def bnd_Inr_iff each_Inr_iff require_dict_iff
    using require_number_ok by simp
  then show ?thesis by (auto simp: totals_stage_def obj_field_def is_obj_iff sub_def list_all_iff)
qed

lemma sm_check_device_iff [res_iff]:
  "sm_check_device context metadata sel = Inr u \<longleftrightarrow>
    (if sel = ''idxd'' then str_field metadata ''accelerated_device_path''
     else dget metadata ''accelerated_device_path'' = JNull)"
  by (simp add: sm_check_device_def Let_def str_field_def)

text \<open>The totals exist for every report whose stages are complete.\<close>

lemma stage_totals_defined:
  assumes "list_all (totals_stage stages) SUMMARY_STAGE_NAMES"
  shows "\<exists>totals. stage_totals stages = Inr totals"
proof -
  have "\<exists>t. foldm (\<lambda>(total_nanos, total_bytes) stage_name.
     bnd (require_dict (dget stages stage_name) (''stages.'' @ stage_name)) (\<lambda>stage.
     bnd (require_number stage ''nanos'' (''stages.'' @ stage_name)) (\<lambda>nanos.
     bnd (require_number stage ''bytes'' (''stages.'' @ stage_name)) (\<lambda>bytes.
     Inr (fadd total_nanos nanos, fadd total_bytes bytes))))) acc ns = Inr t"
    if "list_all (totals_stage stages) ns" for acc ns
    using that
  proof (induction ns arbitrary: acc)
    case (Cons n ns)
    then obtain d where d: "map_of stages n = Some (JObj d)" "num_field d ''nanos''" "num_field d ''bytes''"
      by (auto simp: totals_stage_def obj_field_iff STAGE_NUMBERS_def)
    then obtain a b where "require_number d ''nanos'' (''stages.'' @ n) = Inr a"
      "require_number d ''bytes'' (''stages.'' @ n) = Inr b"
      using require_number_ok by meson
    then show ?case using Cons d by (cases acc) (simp add: require_dict_def)
  qed simp
  with assms show ?thesis unfolding stage_totals_def by blast
qed

definition loaded_from :: "path \<Rightarrow> obj \<Rightarrow> loaded_report" where
  "loaded_from p report = \<lparr>lr_artifact = path_str p, lr_metadata = sub report ''metadata'',
     lr_metrics = sub report ''metrics'', lr_stages = sub report ''stages'',
     lr_stage_totals = (case stage_totals (sub report ''stages'') of Inr t \<Rightarrow> t | Inl _ \<Rightarrow> (Fin 0, Fin 0))\<rparr>"

lemma load_report_iff:
  "load_report w p label role family instr sel = Inr r \<longleftrightarrow>
    (\<exists>d. bnd (fs_read w p) (json_loads w) = Inr (JObj d) \<and> report_accepted label role instr sel d \<and>
       r = loaded_from p d)"
proof (cases "\<exists>d. bnd (fs_read w p) (json_loads w) = Inr (JObj d) \<and>
    list_all (obj_field d) [''metadata'', ''metrics'', ''stages'']")
  case False
  then show ?thesis
    by (auto simp: load_report_def Let_def bnd_Inr_iff sm_load_json_iff require_dict_iff report_accepted_def
        obj_field_def)
next
  case True
  then obtain d md ms st where d: "bnd (fs_read w p) (json_loads w) = Inr (JObj d)"
    and m: "map_of d ''metadata'' = Some (JObj md)" "map_of d ''metrics'' = Some (JObj ms)"
    "map_of d ''stages'' = Some (JObj st)"
    by (auto simp: obj_field_iff)
  then have s: "sub d ''metadata'' = md" "sub d ''metrics'' = ms" "sub d ''stages'' = st" by simp_all
  have en: "map_of st ''enabled'' = Some (JBool b) \<longleftrightarrow> dget st ''enabled'' = JBool b" for b
    by (simp add: dget_eq_iff)
  have strs: "(\<exists>x. require_str md k scope = Inr x) \<longleftrightarrow> str_field md k" for k scope
    by (auto simp: res_iff str_field_iff)
  have num: "num_field ms k \<longleftrightarrow> \<not> is_bool (dget ms k) \<and> (\<exists>x. num_float (dget ms k) = Inr x)" for k
    by (simp add: num_field_def not_isl_iff)
  have ld: "sm_load_json_object w p ph sc = Inr x \<longleftrightarrow> x = d" for ph sc x
    using d by (auto simp: sm_load_json_iff)
  have chk: "sm_check_field c md kv = Inr u \<longleftrightarrow> map_of md (fst kv) = Some (JStr (snd kv))" for c kv u
    by (cases kv) (auto simp: sm_check_field_def res_iff)
  have tot: "(\<exists>t. stage_totals st = Inr t \<and> r = (loaded_from p d)\<lparr>lr_stage_totals := t\<rparr>) \<longleftrightarrow> r = loaded_from p d"
    if "list_all (totals_stage st) SUMMARY_STAGE_NAMES"
    using stage_totals_defined [OF that] by (auto simp: loaded_from_def s)
  have objs: "list_all (obj_field d) [''metadata'', ''metrics'', ''stages'']"
    using m by (simp add: obj_field_iff)
  have "load_report w p label role family instr sel = Inr r \<longleftrightarrow>
    list_all (str_field md) REQUIRED_REPORT_METADATA \<and> list_all (num_field ms) REQUIRED_METRIC_NAMES \<and>
    map_of st ''enabled'' = Some (JBool (instr = ''on'')) \<and>
    list_all (\<lambda>(k, v). map_of md k = Some (JStr v)) [(''endpoint_role'', role), (''workload_label'', label),
       (''instrumentation'', instr), (''selected_path'', sel)] \<and> str_field md ''run_id'' \<and>
    list_all (totals_stage st) SUMMARY_STAGE_NAMES \<and>
    (if sel = ''idxd'' then str_field md ''accelerated_device_path''
     else dget md ''accelerated_device_path'' = JNull) \<and>
    (\<exists>t. stage_totals st = Inr t \<and> r = (loaded_from p d)\<lparr>lr_stage_totals := t\<rparr>)"
    unfolding load_report_def Let_def bnd_Inr_iff each_Inr_iff ld require_dict_iff
    using m by (auto simp: strs num chk res_iff list_all_iff str_field_iff nonempty_str_iff loaded_from_def)
  also have "\<dots> \<longleftrightarrow> report_accepted label role instr sel d \<and> r = loaded_from p d"
    unfolding report_accepted_def s Let_def fields_match_def
    using objs tot by (auto simp: REQUIRED_REPORT_METADATA_def dget_eq_iff simp del: ex_simps)
  finally show ?thesis using d by auto
qed

section \<open>Lemmas: pairing and rows\<close>

definition entry_path :: "world \<Rightarrow> path \<Rightarrow> report_entry \<Rightarrow> path" where
  "entry_path w run_root e = fs_resolve w (path_div run_root (re_artifact e))"

abbreviation load_entry :: "world \<Rightarrow> path \<Rightarrow> report_family \<Rightarrow> report_entry \<Rightarrow> loaded_report res" where
  "load_entry w run_root f e \<equiv> load_report w (entry_path w run_root e) (re_workload_label e) (re_endpoint_role e)
     (rf_run_family f) (rf_instrumentation f) (rf_selected_path f)"

lemma load_family_entry_eq:
  "load_family_entry w run_root f = (\<lambda>d e. bnd (load_entry w run_root f e) (\<lambda>v. Inr (AList.update (entry_key e) v d)))"
  by (simp add: fun_eq_iff load_family_entry_def entry_path_def entry_key_def)

lemma family_fold_iff:
  assumes "distinct (map entry_key es)"
  shows "(\<exists>d. foldm (load_family_entry w run_root f) [] es = Inr d) \<longleftrightarrow>
    (\<forall>e \<in> set es. \<exists>r. load_entry w run_root f e = Inr r)"
proof
  assume "\<exists>d. foldm (load_family_entry w run_root f) [] es = Inr d"
  then obtain d where d: "foldm (load_family_entry w run_root f) [] es = Inr d" by blast
  show "\<forall>e \<in> set es. \<exists>r. load_entry w run_root f e = Inr r"
    using foldm_update_lookup [OF d [unfolded load_family_entry_eq] assms] by blast
qed (unfold load_family_entry_eq, rule foldm_update_defined)

text \<open>After loading, every curated pair of every family has its report, and the run ids of a pair agree.\<close>

lemma claim_family_entry:
  assumes "claim_load_manifest w repo p = Inr m" "f \<in> set (cm_artifact_families m)"
    "l \<in> set (cm_workload_labels m)" "role \<in> set EXPECTED_ENDPOINT_ROLES"
  shows "distinct (map entry_key (rf_endpoint_reports f))"
    "\<exists>e \<in> set (rf_endpoint_reports f). entry_key e = (l, role)"
proof -
  have f: "family_wf m f" using claim_families(1) [OF assms(1)] assms(2) by (simp add: list_all_iff)
  have "set (cm_workload_labels m) = set S04_LABELS" using assms(1) by (rule claim_load_manifest_Inr)
  then have "(l, role) \<in> set (map entry_key (rf_endpoint_reports f))"
    using f assms(3,4) by (auto simp: family_wf_def split: option.splits)
  then show "\<exists>e \<in> set (rf_endpoint_reports f). entry_key e = (l, role)" by auto
  show "distinct (map entry_key (rf_endpoint_reports f))" using f by (auto simp: family_wf_def split: option.splits)
qed

lemma loaded_report_at:
  assumes m: "claim_load_manifest w0 repo p = Inr m" and l: "load_family_reports w m run_root = Inr loaded"
    and f: "f \<in> set (cm_artifact_families m)" and key: "l \<in> set (cm_workload_labels m)"
    "role \<in> set EXPECTED_ENDPOINT_ROLES"
  shows "\<exists>e r. e \<in> set (rf_endpoint_reports f) \<and> entry_key e = (l, role) \<and> load_entry w run_root f e = Inr r \<and>
    report_at loaded (rf_run_family f) l role = Inr r"
proof -
  from l have outer: "foldm (\<lambda>loaded family. bnd (foldm (load_family_entry w run_root family) []
      (rf_endpoint_reports family)) (\<lambda>v. Inr (AList.update (rf_run_family family) v loaded))) []
      (cm_artifact_families m) = Inr loaded"
    by (auto simp: load_family_reports_def bnd_Inr_iff)
  obtain d where d: "foldm (load_family_entry w run_root f) [] (rf_endpoint_reports f) = Inr d"
    "map_of loaded (rf_run_family f) = Some d"
    using foldm_update_lookup [OF outer claim_families(2) [OF m] f] by blast
  obtain e where e: "e \<in> set (rf_endpoint_reports f)" "entry_key e = (l, role)"
    using claim_family_entry(2) [OF m f key] by blast
  obtain r where "load_entry w run_root f e = Inr r" "map_of d (entry_key e) = Some r"
    using foldm_update_lookup [OF d(1) [unfolded load_family_entry_eq] claim_family_entry(1) [OF m f key] e(1)]
    by blast
  then show ?thesis using e d by (auto simp: report_at_def key_item_def)
qed

lemma loaded_run_ids:
  assumes m: "claim_load_manifest w0 repo p = Inr m" and l: "load_family_reports w m run_root = Inr loaded"
    and f: "f \<in> set (cm_artifact_families m)" and key: "l \<in> set (cm_workload_labels m)"
    and c: "report_at loaded (rf_run_family f) l ''client'' = Inr rc"
    and s: "report_at loaded (rf_run_family f) l ''server'' = Inr rs"
  shows "dget (lr_metadata rc) ''run_id'' = dget (lr_metadata rs) ''run_id''"
proof -
  from l have "each (\<lambda>family. each (check_run_ids run_root loaded family) (cm_workload_labels m))
      (cm_artifact_families m) = Inr ()"
    by (auto simp: load_family_reports_def bnd_Inr_iff)
  then have "check_run_ids run_root loaded f l = Inr ()"
    unfolding each_Inr_iff using f key by blast
  then obtain x y where xy: "map_of (lr_metadata rc) ''run_id'' = Some x" "map_of (lr_metadata rs) ''run_id'' = Some y"
    "py_eq x y" using c s by (auto simp: check_run_ids_def res_iff)
  have client: "''client'' \<in> set EXPECTED_ENDPOINT_ROLES" by (simp add: EXPECTED_ENDPOINT_ROLES_def)
  obtain e where "load_entry w run_root f e = Inr rc"
    using loaded_report_at [OF m l f key client] unfolding c by blast
  then obtain d where "report_accepted (re_workload_label e) (re_endpoint_role e) (rf_instrumentation f)
      (rf_selected_path f) d" "rc = loaded_from (entry_path w run_root e) d"
    unfolding load_report_iff by blast
  then have "str_field (lr_metadata rc) ''run_id''"
    by (auto simp: report_accepted_def Let_def REQUIRED_REPORT_METADATA_def loaded_from_def)
  then obtain t where "x = JStr t" using xy(1) by (auto simp: str_field_iff)
  then show ?thesis using xy by simp
qed

lemma accepted_side:
  assumes "report_accepted l role instr sel d"
  shows "\<exists>x. side_of (loaded_from p d) = Inr x \<and> sd_run_id x = dget (sub d ''metadata'') ''run_id''"
proof -
  have n: "num_field (sub d ''metrics'') k" if "k \<in> {''throughput_rps'', ''latency_us_p50'', ''latency_us_p95''}" for k
    using assms that by (auto simp: report_accepted_def Let_def REQUIRED_METRIC_NAMES_def)
  have r: "item (sub d ''metadata'') ''run_id'' = Inr (dget (sub d ''metadata'') ''run_id'')"
    using assms by (auto simp: report_accepted_def Let_def REQUIRED_REPORT_METADATA_def item_field)
  have m: "\<exists>x. metric (loaded_from p d) k = Inr x" if "num_field (sub d ''metrics'') k" for k
  proof -
    have f: "\<exists>x. num_float (dget (sub d ''metrics'') k) = Inr x" using that by (simp add: num_field_def not_isl_iff)
    then obtain v where "map_of (sub d ''metrics'') k = Some v"
      by (cases "map_of (sub d ''metrics'') k") (auto simp: dget_def)
    with f show ?thesis by (simp add: metric_def loaded_from_def item_def)
  qed
  obtain a b c where "metric (loaded_from p d) ''throughput_rps'' = Inr a"
    "metric (loaded_from p d) ''latency_us_p50'' = Inr b" "metric (loaded_from p d) ''latency_us_p95'' = Inr c"
    using m [OF n] by (metis insertCI)
  moreover have "item (lr_metadata (loaded_from p d)) ''run_id'' = Inr (dget (sub d ''metadata'') ''run_id'')"
    using r by (simp add: loaded_from_def)
  ultimately show ?thesis by (simp add: side_of_def)
qed

text \<open>The run id that the report of a family, workload and role carries.\<close>

definition run_id_at :: "family_table \<Rightarrow> string \<Rightarrow> string \<Rightarrow> string \<Rightarrow> json" where
  "run_id_at loaded n l role = (case report_at loaded n l role of
     Inr r \<Rightarrow> dget (lr_metadata r) ''run_id'' | Inl _ \<Rightarrow> JNull)"

definition row_run_ids :: "row \<Rightarrow> json list" where
  "row_run_ids r = map sd_run_id [rw_software_baseline r, rw_software_attribution r, rw_idxd_attribution r]"

lemma loaded_side:
  assumes m: "claim_load_manifest w0 repo p = Inr m" and l: "load_family_reports w m run_root = Inr loaded"
    and n: "n \<in> set (map fst EXPECTED_FAMILIES)" and key: "l \<in> set (cm_workload_labels m)"
    "role \<in> set EXPECTED_ENDPOINT_ROLES"
  obtains r x where "report_at loaded n l role = Inr r" "side_of r = Inr x" "sd_run_id x = run_id_at loaded n l role"
    "n = ''idxd_attribution'' \<longrightarrow> str_field (lr_metadata r) ''accelerated_device_path''"
proof -
  obtain f where f: "f \<in> set (cm_artifact_families m)" "rf_run_family f = n"
    using claim_families(3) [OF m] n by (metis (no_types, lifting) image_iff set_map)
  obtain e r where r: "load_entry w run_root f e = Inr r" "report_at loaded n l role = Inr r"
    using loaded_report_at [OF m l f(1) key] f(2) by blast
  then obtain d where d: "report_accepted (re_workload_label e) (re_endpoint_role e) (rf_instrumentation f)
      (rf_selected_path f) d" "r = loaded_from (entry_path w run_root e) d"
    unfolding load_report_iff by blast
  obtain x where x: "side_of r = Inr x" "sd_run_id x = dget (sub d ''metadata'') ''run_id''"
    using accepted_side [OF d(1)] d(2) by blast
  have md: "lr_metadata r = sub d ''metadata''" by (simp add: d(2) loaded_from_def)
  have "family_wf m f" using claim_families(1) [OF m] f(1) by (simp add: list_all_iff)
  then have "n = ''idxd_attribution'' \<longrightarrow> rf_selected_path f = ''idxd''"
    using f(2) by (auto simp: family_wf_def EXPECTED_FAMILIES_def)
  then have "n = ''idxd_attribution'' \<longrightarrow> str_field (lr_metadata r) ''accelerated_device_path''"
    using d(1) md by (auto simp: report_accepted_def Let_def)
  then show thesis using that r(2) x md by (simp add: run_id_at_def)
qed

lemma build_row_defined:
  assumes m: "claim_load_manifest w0 repo p = Inr m" and l: "load_family_reports w m run_root = Inr loaded"
    and key: "l \<in> set (cm_workload_labels m)" "role \<in> set EXPECTED_ENDPOINT_ROLES"
  shows "\<exists>r. build_row loaded l role = Inr r \<and> rw_workload_label r = l \<and> rw_endpoint_role r = role \<and>
    nonempty_str (rw_device_path r) \<and>
    row_run_ids r = map (\<lambda>n. run_id_at loaded n l role) (map fst EXPECTED_FAMILIES)"
proof -
  have n: "''software_baseline'' \<in> set (map fst EXPECTED_FAMILIES)"
    "''software_attribution'' \<in> set (map fst EXPECTED_FAMILIES)"
    "''idxd_attribution'' \<in> set (map fst EXPECTED_FAMILIES)"
    by (simp_all add: EXPECTED_FAMILIES_def)
  obtain b xb where b: "report_at loaded ''software_baseline'' l role = Inr b" "side_of b = Inr xb"
    "sd_run_id xb = run_id_at loaded ''software_baseline'' l role"
    using loaded_side [OF m l n(1) key] by blast
  obtain s xs where s: "report_at loaded ''software_attribution'' l role = Inr s" "side_of s = Inr xs"
    "sd_run_id xs = run_id_at loaded ''software_attribution'' l role"
    using loaded_side [OF m l n(2) key] by blast
  obtain i xi where i: "report_at loaded ''idxd_attribution'' l role = Inr i" "side_of i = Inr xi"
    "sd_run_id xi = run_id_at loaded ''idxd_attribution'' l role"
    "str_field (lr_metadata i) ''accelerated_device_path''"
    using loaded_side [OF m l n(3) key] by blast
  obtain t where "map_of (lr_metadata i) ''accelerated_device_path'' = Some (JStr t)" "t \<noteq> []"
    using i(4) by (auto simp: str_field_iff)
  then show ?thesis using b s i(1-3)
    by (simp add: build_row_def item_def compare_sides_def row_run_ids_def EXPECTED_FAMILIES_def)
qed

lemma run_ids_agree:
  assumes m: "claim_load_manifest w0 repo p = Inr m" and l: "load_family_reports w m run_root = Inr loaded"
    and key: "l \<in> set (cm_workload_labels m)" and n: "n \<in> set (map fst EXPECTED_FAMILIES)"
    and "role \<in> set EXPECTED_ENDPOINT_ROLES" "role' \<in> set EXPECTED_ENDPOINT_ROLES"
  shows "run_id_at loaded n l role = run_id_at loaded n l role'"
proof -
  have k: "''client'' \<in> set EXPECTED_ENDPOINT_ROLES" "''server'' \<in> set EXPECTED_ENDPOINT_ROLES"
    by (simp_all add: EXPECTED_ENDPOINT_ROLES_def)
  obtain f where f: "f \<in> set (cm_artifact_families m)" "rf_run_family f = n"
    using claim_families(3) [OF m] n by (metis (no_types, lifting) image_iff set_map)
  obtain c s where "report_at loaded n l ''client'' = Inr c" "report_at loaded n l ''server'' = Inr s"
    using loaded_report_at [OF m l f(1) key k(1)] loaded_report_at [OF m l f(1) key k(2)] f(2) by blast
  then have "run_id_at loaded n l ''client'' = run_id_at loaded n l ''server''"
    using loaded_run_ids [OF m l f(1) key] f(2) by (simp add: run_id_at_def)
  then show ?thesis using assms(5,6) by (auto simp: EXPECTED_ENDPOINT_ROLES_def)
qed

lemma iofold_collect:
  assumes "\<forall>x \<in> set xs. \<exists>r. g x = Inr r"
  shows "iofold (\<lambda>rows x. iobnd (lift (g x)) (\<lambda>r. iobnd (say (line r)) (\<lambda>_. ret (rows @ [r])))) acc xs s =
    Some (Inr (acc @ map (\<lambda>x. projr (g x)) xs),
      s\<lparr>out_log := out_log s @ map (\<lambda>x. line (projr (g x))) xs\<rparr>)"
  using assms
proof (induction xs arbitrary: acc s)
  case (Cons x xs)
  then obtain r where "g x = Inr r" by auto
  with Cons show ?case by (simp add: iobnd_def lift_def say_def ret_def)
qed (simp add: ret_def)

definition rows_of :: "claim_manifest \<Rightarrow> family_table \<Rightarrow> row list" where
  "rows_of m loaded = map (\<lambda>(l, role). projr (build_row loaded l role))
     (List.product (cm_workload_labels m) EXPECTED_ENDPOINT_ROLES)"

lemma build_rows_eq:
  assumes m: "claim_load_manifest w0 repo p = Inr m" and l: "load_family_reports w m run_root = Inr loaded"
  shows "build_rows m run_root loaded s =
    Some (Inr (rows_of m loaded), s\<lparr>out_log := out_log s @ map (row_line run_root) (rows_of m loaded)\<rparr>)"
proof -
  let ?g = "\<lambda>x. build_row loaded (fst x) (snd x)"
  have e: "(\<lambda>rows (label, endpoint_role). iobnd (lift (build_row loaded label endpoint_role)) (\<lambda>r.
      iobnd (say (row_line run_root r)) (\<lambda>_. ret (rows @ [r])))) =
    (\<lambda>rows x. iobnd (lift (?g x)) (\<lambda>r. iobnd (say (row_line run_root r)) (\<lambda>_. ret (rows @ [r]))))"
    by (simp add: fun_eq_iff case_prod_unfold)
  have d: "\<forall>x \<in> set (List.product (cm_workload_labels m) EXPECTED_ENDPOINT_ROLES). \<exists>r. ?g x = Inr r"
    using build_row_defined [OF m l] by fastforce
  show ?thesis unfolding build_rows_def e rows_of_def
    by (simp add: iofold_collect [OF d] comp_def case_prod_unfold)
qed

lemma rows_of_facts:
  assumes m: "claim_load_manifest w0 repo p = Inr m" and l: "load_family_reports w m run_root = Inr loaded"
  shows "map (\<lambda>r. (rw_workload_label r, rw_endpoint_role r)) (rows_of m loaded) =
      List.product (cm_workload_labels m) EXPECTED_ENDPOINT_ROLES"
    and "r \<in> set (rows_of m loaded) \<Longrightarrow> nonempty_str (rw_device_path r)"
    and "r \<in> set (rows_of m loaded) \<Longrightarrow> r' \<in> set (rows_of m loaded) \<Longrightarrow>
      rw_workload_label r = rw_workload_label r' \<Longrightarrow> row_run_ids r = row_run_ids r'"
proof -
  let ?ps = "List.product (cm_workload_labels m) EXPECTED_ENDPOINT_ROLES"
  have d: "rw_workload_label (projr (build_row loaded l role)) = l \<and>
      rw_endpoint_role (projr (build_row loaded l role)) = role \<and>
      nonempty_str (rw_device_path (projr (build_row loaded l role))) \<and>
      row_run_ids (projr (build_row loaded l role)) = map (\<lambda>n. run_id_at loaded n l role) (map fst EXPECTED_FAMILIES)"
    if "l \<in> set (cm_workload_labels m)" "role \<in> set EXPECTED_ENDPOINT_ROLES" for l role
    using build_row_defined [OF m l that] by auto
  have "map (\<lambda>r. (rw_workload_label r, rw_endpoint_role r)) (rows_of m loaded) = map id ?ps"
    unfolding rows_of_def map_map by (rule map_cong [OF refl]) (use d in auto)
  then show "map (\<lambda>r. (rw_workload_label r, rw_endpoint_role r)) (rows_of m loaded) = ?ps" by simp
  show "nonempty_str (rw_device_path r)" if "r \<in> set (rows_of m loaded)" using that d by (auto simp: rows_of_def)
  show "row_run_ids r = row_run_ids r'" if r: "r \<in> set (rows_of m loaded)" "r' \<in> set (rows_of m loaded)"
    "rw_workload_label r = rw_workload_label r'"
  proof -
    obtain l role where 1: "r = projr (build_row loaded l role)" "l \<in> set (cm_workload_labels m)"
      "role \<in> set EXPECTED_ENDPOINT_ROLES" using r(1) by (auto simp: rows_of_def)
    obtain l' role' where 2: "r' = projr (build_row loaded l' role')" "l' \<in> set (cm_workload_labels m)"
      "role' \<in> set EXPECTED_ENDPOINT_ROLES" using r(2) by (auto simp: rows_of_def)
    have "l' = l" using 1 2 r(3) d by metis
    then show ?thesis using d [OF 1(2,3)] d [OF 2(2,3)] 1 2 run_ids_agree [OF m l 1(2) _ 1(3) 2(3)]
      by (simp add: EXPECTED_FAMILIES_def)
  qed
qed

text \<open>Once the families are loaded, \<open>build_rows\<close> cannot fail: it yields one row per curated
  workload and role, in that order, each naming the accelerator device; and the two rows of a
  workload carry the same three run ids, so client and server numbers of one run are compared.\<close>

theorem summary_rows:
  assumes "claim_load_manifest w0 repo p = Inr m" and "load_family_reports w m run_root = Inr loaded"
  shows "\<exists>rows. build_rows m run_root loaded s =
      Some (Inr rows, s\<lparr>out_log := out_log s @ map (row_line run_root) rows\<rparr>) \<and>
    map (\<lambda>r. (rw_workload_label r, rw_endpoint_role r)) rows =
      List.product (cm_workload_labels m) EXPECTED_ENDPOINT_ROLES \<and>
    (\<forall>r \<in> set rows. nonempty_str (rw_device_path r) \<and>
      (\<forall>r' \<in> set rows. rw_workload_label r = rw_workload_label r' \<longrightarrow> row_run_ids r = row_run_ids r'))"
  using build_rows_eq [OF assms] rows_of_facts [OF assms] by blast

section \<open>What a run leaves behind\<close>

text \<open>A host that grants every write and on which nobody else touches the files.\<close>

definition quiet :: "host \<Rightarrow> bool" where
  "quiet h \<longleftrightarrow> (\<forall>n w. h_drift h n w = w) \<and> (\<forall>p n. h_mkdir h p n = None) \<and> (\<forall>p n. h_write h p n = None)"

definition after_write :: "path \<Rightarrow> path \<Rightarrow> string \<Rightarrow> mach \<Rightarrow> mach" where
  "after_write q p x s = s\<lparr>files := put_text p x (files s), tick := Suc (Suc (tick s)),
     events := events s @ [Mkdir q, Write p]\<rparr>"

lemma quiet_write:
  assumes "quiet h"
  shows "iobnd (mkdir_p h q) (\<lambda>_. write_text h p x) s = Some (Inr (), after_write q p x s)"
  using assms
  by (simp add: quiet_def iobnd_def mkdir_p_def write_text_def write_with_def ext_def after_write_def)

lemma files_after_write [simp]: "files (after_write q p x s) = put_text p x (files s)"
  by (simp add: after_write_def)

lemma utf8_size_eq_0 [simp]: "utf8_size t = 0 \<longleftrightarrow> t = []" "0 < utf8_size t \<longleftrightarrow> t \<noteq> []"
  by (cases t; auto simp: utf8_size_def)+

lemma csv_text_nonempty [simp]: "csv_text rows \<noteq> []"
  by (simp add: csv_text_def csv_line_def)

lemma put_text_simps [simp]:
  "fs_exists (put_text p x w) q \<longleftrightarrow> q = p \<or> fs_exists w q"
  "fs_read (put_text p x w) q = (if q = p then Inr x else fs_read w q)"
  "fs_size (put_text p x w) q = (if q = p then utf8_size x else fs_size w q)"
  by (auto simp: put_text_def)

definition written ::
    "host \<Rightarrow> string \<Rightarrow> path \<Rightarrow> path \<Rightarrow> claim_manifest \<Rightarrow> row list \<Rightarrow> control_floor \<Rightarrow> (path \<times> string) list" where
  "written h now manifest_path run_root m rows cfl =
    [(path_div run_root ''summary/comparison_summary.json'', h_dumps h (build_summary_document now manifest_path
        run_root m rows cfl (output_paths m run_root)) @ [CHR 0x0A]),
     (path_div run_root ''summary/ordinary_vs_idxd.csv'', csv_text rows),
     (path_div run_root ''summary/claim_table.md'', joined [CHR 0x0A] (claim_table_lines rows cfl) @ [CHR 0x0A])]"

definition put_all :: "(path \<times> string) list \<Rightarrow> world \<Rightarrow> world" where
  "put_all xs w = foldl (\<lambda>w (p, x). put_text p x w) w xs"

lemma output_paths_eq:
  assumes "claim_load_manifest w repo p = Inr m"
  shows "output_paths m run_root = [(''comparison_summary_json'', path_div run_root ''summary/comparison_summary.json''),
     (''ordinary_vs_idxd_csv'', path_div run_root ''summary/ordinary_vs_idxd.csv''),
     (''claim_table_md'', path_div run_root ''summary/claim_table.md'')]"
proof -
  have "cm_derived_outputs m = EXPECTED_DERIVED_OUTPUTS" using assms by (rule claim_load_manifest_Inr)
  then show ?thesis by (simp add: output_paths_def EXPECTED_DERIVED_OUTPUTS_def)
qed

lemma output_paths_distinct:
  "distinct [path_div run_root ''summary/comparison_summary.json'', path_div run_root ''summary/ordinary_vs_idxd.csv'',
     path_div run_root ''summary/claim_table.md'']"
  by (auto simp: path_join_def path_of_def root_of_def is_absolute_def startswith_def path.defs
      dest!: arg_cong [where f = path_parts])

lemma verify_written:
  assumes "claim_load_manifest w0 repo p = Inr m"
  shows "verify_outputs (put_all (written h now mp run_root m rows cfl) w) (output_paths m run_root) = Inr ()"
  unfolding output_paths_eq [OF assms] verify_outputs_def put_all_def written_def by simp

lemma summarize_runs:
  assumes q: "quiet h" and m: "claim_load_manifest (files s) repo mp = Inr m"
    and root: "sm_resolve_run_root (files s) repo m override = run_root"
    and f: "load_control_floor (files s) repo m = Inr cfl" and l: "load_family_reports (files s) m run_root = Inr loaded"
  shows "\<exists>t. summarize h repo mp override vo s = Some (Inr (output_paths m run_root), t) \<and>
    files t = put_all (written h (h_utc h (tick s)) mp run_root m (rows_of m loaded) cfl) (files s)"
proof -
  define a where "a = path_div run_root ''summary/comparison_summary.json''"
  define b where "b = path_div run_root ''summary/ordinary_vs_idxd.csv''"
  define c where "c = path_div run_root ''summary/claim_table.md''"
  define out where "out = output_paths m run_root"
  define doc where "doc = build_summary_document (h_utc h (tick s)) mp run_root m (rows_of m loaded) cfl out"
  have k: "key_item out ''comparison_summary_json'' = Inr a" "key_item out ''ordinary_vs_idxd_csv'' = Inr b"
    "key_item out ''claim_table_md'' = Inr c"
    by (simp_all add: out_def output_paths_eq [OF m] key_item_def a_def b_def c_def)
  have t: "write_json h a v u = Some (Inr (), after_write (path_parent a) a (h_dumps h v @ [CHR 0x0A]) u)"
    "write_csv h b rows u = Some (Inr (), after_write (path_parent b) b (csv_text rows) u)"
    "write_claim_table h c rows cfl u = Some (Inr (), after_write (path_parent c) c
       (joined [CHR 0x0A] (claim_table_lines rows cfl) @ [CHR 0x0A]) u)" for v u rows
    unfolding write_json_def write_csv_def write_claim_table_def by (simp_all only: quiet_write [OF q])
  have w: "put_text c (joined [CHR 0x0A] (claim_table_lines (rows_of m loaded) cfl) @ [CHR 0x0A])
      (put_text b (csv_text (rows_of m loaded)) (put_text a (h_dumps h doc @ [CHR 0x0A]) (files s))) =
    put_all (written h (h_utc h (tick s)) mp run_root m (rows_of m loaded) cfl) (files s)"
    by (simp add: put_all_def written_def a_def b_def c_def doc_def out_def)
  have v: "verify_outputs (put_all (written h (h_utc h (tick s)) mp run_root m (rows_of m loaded) cfl) (files s)) out = Inr ()"
    unfolding out_def by (rule verify_written [OF m])
  show ?thesis
    unfolding summarize_def Let_def
    by (simp add: iobnd_def look_def lift_def ret_def utc_now_def say_def m root out_def [symmetric] k f l
        build_rows_eq [OF m l] doc_def [symmetric] t w v)
qed

lemma sm_main_iff:
  "sm_main h repo args s = Some (Inr 0, t) \<longleftrightarrow> (\<exists>outs. summarize h repo (fs_resolve (files s) (path_of (sm_arg_manifest args)))
     (sm_arg_run_root args) (sm_arg_verify_only args) s = Some (Inr outs, t))"
  by (auto simp: sm_main_def exit_unless io_iff)

lemma summarize_loads:
  assumes "summarize h repo mp override verify_only s = Some (Inr outs, t)"
  obtains m cfl loaded where "claim_load_manifest (files s) repo mp = Inr m" "load_control_floor (files s) repo m = Inr cfl"
    "load_family_reports (files s) m (sm_resolve_run_root (files s) repo m override) = Inr loaded"
    "verify_outputs (files t) (output_paths m (sm_resolve_run_root (files s) repo m override)) = Inr ()"
  using assms by (auto simp: summarize_def Let_def io_iff)


text \<open>An example tree: the package of the contract, copied into its run root, with its twelve reports and
  one benchmark; \<open>r/r\<close> is a link to \<open>r\<close>.\<close>

definition sm_demo_root :: path where
  "sm_demo_root = path_of (''r/'' @ S04_RUN_ROOT)"

definition sm_demo_args :: sm_args where
  "sm_demo_args = \<lparr>sm_arg_manifest = path_str (manifest_copy_path sm_demo_root),
     sm_arg_run_root = Some (path_str sm_demo_root), sm_arg_verify_only = False\<rparr>"

definition sm_demo_report :: "string \<Rightarrow> string \<Rightarrow> string \<Rightarrow> string \<Rightarrow> json" where
  "sm_demo_report label role instr sel = JObj [(''metadata'', JObj ([(''mode'', JStr role),
       (''endpoint_role'', JStr role), (''run_id'', JStr ''r''), (''selected_path'', JStr sel),
       (''workload_label'', JStr label), (''instrumentation'', JStr instr)] @
       (if sel = ''idxd'' then [(''accelerated_device_path'', JStr ''dev'')] else []))),
     (''metrics'', JObj (map (\<lambda>k. (k, JFloat (Fin 1))) REQUIRED_METRIC_NAMES)),
     (''stages'', JObj ((''enabled'', JBool (instr = ''on'')) # map (\<lambda>n. (n, JObj (map (\<lambda>f.
        (f, JFloat (Fin 0))) STAGE_NUMBERS))) SUMMARY_STAGE_NAMES))]"

definition sm_demo_docs :: "(string \<times> json) list" where
  "sm_demo_docs = [(''r/'' @ S04_RUN_ROOT @ ''/manifest.json'', claim_demo_package),
     (''r/s2'', JObj ((''expected_benchmarks'', JArr [JStr ''spawn'']) #
        (case claim_demo_s02 claim_demo_labels of JObj d \<Rightarrow> d | _ \<Rightarrow> []))),
     (''r/s3'', claim_demo_s03 claim_demo_labels),
     (''r/cf'', JObj [(''benchmarks'', JObj [(''spawn'', JObj ((''benchmark_name'', JStr ''spawn'') #
        map (\<lambda>k. (k, JFloat (Fin 1))) [''mean_ns'', ''median_ns'', ''std_dev_ns'', ''sample_count'']))])]),
     (''r/rc'', JNull)] @
    concat (map (\<lambda>((l, n), role).
      [(''r/'' @ S04_RUN_ROOT @ ''/software/'' @ n @ ''off'' @ role, sm_demo_report l role ''off'' ''software''),
       (''r/'' @ S04_RUN_ROOT @ ''/software/'' @ n @ ''on'' @ role, sm_demo_report l role ''on'' ''software''),
       (''r/'' @ S04_RUN_ROOT @ ''/idxd/'' @ n @ role, sm_demo_report l role ''on'' ''idxd'')])
      (List.product claim_demo_labels EXPECTED_ENDPOINT_ROLES))"

definition sm_demo_world :: world where
  "sm_demo_world = (table_world sm_demo_docs)\<lparr>fs_resolve := (\<lambda>p.
     if take 2 (path_parts p) = [''r'', ''r''] then p\<lparr>path_parts := tl (path_parts p)\<rparr> else p)\<rparr>"

definition sm_demo_manifest :: claim_manifest where
  "sm_demo_manifest = (case claim_load_manifest sm_demo_world (path_of ''r'') (path_of (sm_arg_manifest sm_demo_args)) of
     Inr m \<Rightarrow> m | Inl _ \<Rightarrow> claim_demo)"

lemma sm_demo_loads: "claim_load_manifest sm_demo_world (path_of ''r'') (path_of (sm_arg_manifest sm_demo_args)) = Inr sm_demo_manifest"
proof -
  have "\<not> isl (claim_load_manifest sm_demo_world (path_of ''r'') (path_of (sm_arg_manifest sm_demo_args)))" by code_simp
  then show ?thesis by (auto simp: sm_demo_manifest_def split: sum.splits)
qed

lemma sm_demo_floor: "\<exists>cfl. load_control_floor sm_demo_world (path_of ''r'') sm_demo_manifest = Inr cfl"
proof -
  have "\<not> isl (load_control_floor sm_demo_world (path_of ''r'') sm_demo_manifest)" by code_simp
  then show ?thesis by (simp add: not_isl_iff)
qed

lemma sm_demo_families: "\<exists>loaded. load_family_reports sm_demo_world sm_demo_manifest
    sm_demo_root = Inr loaded"
proof -
  have "\<not> isl (load_family_reports sm_demo_world sm_demo_manifest
    sm_demo_root)" by code_simp
  then show ?thesis by (simp add: not_isl_iff)
qed

lemma sm_demo_resolved: "sm_resolve_run_root sm_demo_world (path_of ''r'') sm_demo_manifest (sm_arg_run_root sm_demo_args) = sm_demo_root"
  "fs_resolve sm_demo_world (path_of (sm_arg_manifest sm_demo_args)) = path_of (sm_arg_manifest sm_demo_args)"
  by code_simp+

lemma demo_host_quiet: "quiet demo_host"
  by (simp add: quiet_def)


theorem summary_rows_witness:
  "\<exists>run_root loaded rows t. build_rows sm_demo_manifest run_root loaded demo_mach = Some (Inr rows, t) \<and> length rows = 4"
proof -
  obtain loaded where l: "load_family_reports sm_demo_world sm_demo_manifest sm_demo_root = Inr loaded"
    using sm_demo_families by blast
  have n: "length (List.product (cm_workload_labels sm_demo_manifest) EXPECTED_ENDPOINT_ROLES) = 4" by code_simp
  obtain rows where b: "build_rows sm_demo_manifest sm_demo_root loaded demo_mach =
      Some (Inr rows, demo_mach\<lparr>out_log := out_log demo_mach @ map (row_line sm_demo_root) rows\<rparr>)"
    and k: "map (\<lambda>r. (rw_workload_label r, rw_endpoint_role r)) rows =
      List.product (cm_workload_labels sm_demo_manifest) EXPECTED_ENDPOINT_ROLES"
    using summary_rows [OF sm_demo_loads l, of demo_mach] by blast
  have "length rows = 4" using arg_cong [OF k, of length] n by simp
  with b show ?thesis by blast
qed

end
