(* ===== verification/SummaryOutput.thy ===== *)
theory SummaryOutput
  imports Summarize
begin

text \<open>What the files of the summarizer mean to their readers: the CSV text read back field by field,
  the rendered numbers against the floats they stand for, the stage totals against exact sums, and
  the shape of the JSON document.\<close>

section \<open>Reading CSV\<close>

text \<open>A reader of the dialect the \<open>csv\<close> module writes by default: comma-separated fields, quoted where
  needed, quotes doubled inside quotes, lines ended by a line feed (carriage returns outside quotes
  are dropped).\<close>

datatype csv_state = Start | Plain | Quoted | Closing

fun csv_go :: "csv_state \<Rightarrow> string \<Rightarrow> string list \<Rightarrow> string \<Rightarrow> string list list" where
  "csv_go st f fs [] = (if st = Start \<and> fs = [] then [] else [fs @ [f]])"
| "csv_go st f fs (c # cs) =
    (if st = Quoted then (if c = csv_quote then csv_go Closing f fs cs else csv_go Quoted (f @ [c]) fs cs)
     else if c = csv_quote then csv_go Quoted (if st = Closing then f @ [c] else f) fs cs
     else if c = CHR '','' then csv_go Start [] (fs @ [f]) cs
     else if c = CHR 0x0A then (fs @ [f]) # csv_go Start [] [] cs
     else if c = CHR 0x0D then csv_go st f fs cs
     else csv_go Plain (f @ [c]) fs cs)"

definition csv_read :: "string \<Rightarrow> string list list" where
  "csv_read t = csv_go Start [] [] t"

lemma csv_go_plain:
  assumes "\<not> list_ex csv_special t" "st \<noteq> Quoted"
  shows "\<exists>st'. st' \<noteq> Quoted \<and> csv_go st f fs (t @ rest) = csv_go st' (f @ t) fs rest"
  using assms
proof (induction t arbitrary: st f)
  case (Cons c t)
  then have "csv_go st f fs ((c # t) @ rest) = csv_go Plain (f @ [c]) fs (t @ rest)"
    by (simp add: csv_special_def)
  with Cons.IH [of Plain "f @ [c]"] Cons.prems show ?case by simp
qed auto

lemma csv_go_quoted:
  "csv_go Quoted f fs (concat (map (\<lambda>c. if c = csv_quote then [c, c] else [c]) t) @ csv_quote # rest) =
   csv_go Closing (f @ t) fs rest"
  by (induction t arbitrary: f) auto

lemma csv_go_field:
  obtains st where "st \<noteq> Quoted" "csv_go Start [] fs (csv_field t @ rest) = csv_go st t fs rest"
proof (cases "list_ex csv_special t")
  case True
  then have "csv_go Start [] fs (csv_field t @ rest) = csv_go Closing t fs rest"
    using csv_go_quoted [of "[]" fs t rest] by (simp add: csv_field_def)
  with that show ?thesis by blast
next
  case False
  with csv_go_plain [OF False, of Start "[]" fs rest] that show ?thesis by (auto simp: csv_field_def)
qed

lemma csv_go_line:
  "vs \<noteq> [] \<Longrightarrow> csv_go Start [] fs (csv_line vs @ rest) = (fs @ vs) # csv_go Start [] [] rest"
proof (induction vs arbitrary: fs rule: list_nonempty_induct)
  case (single v)
  obtain st where "st \<noteq> Quoted" "csv_go Start [] fs (csv_field v @ [CHR 0x0D, CHR 0x0A] @ rest) =
      csv_go st v fs ([CHR 0x0D, CHR 0x0A] @ rest)" by (rule csv_go_field)
  then show ?case by (simp add: csv_line_def csv_quote_def)
next
  case (cons v vs)
  then obtain w ws where vs: "vs = w # ws" by (cases vs) auto
  obtain st where "st \<noteq> Quoted" "csv_go Start [] fs (csv_field v @ '','' @ csv_line vs @ rest) =
      csv_go st v fs ('','' @ csv_line vs @ rest)" by (rule csv_go_field)
  with cons.IH [of "fs @ [v]"] show ?case by (simp add: csv_line_def vs csv_quote_def)
qed

lemma csv_go_lines:
  "\<forall>vs \<in> set vss. vs \<noteq> [] \<Longrightarrow> csv_go Start [] [] (concat (map csv_line vss)) = vss"
  by (induction vss) (simp_all add: csv_go_line)

text \<open>C22. The CSV file of the summarizer can be read back: reading \<open>ordinary_vs_idxd.csv\<close> field by field
  gives the header and, in order, exactly the values of each row, whatever characters the labels,
  run ids and device paths contain.\<close>

theorem csv_roundtrip: "csv_read (csv_text rows) = CSV_COLUMNS # map csv_values rows"
proof -
  have "csv_text rows = concat (map csv_line (CSV_COLUMNS # map csv_values rows))"
    by (simp add: csv_text_def comp_def)
  then show ?thesis
    unfolding csv_read_def by (simp only:) (rule csv_go_lines, auto simp: CSV_COLUMNS_def csv_values_def Let_def)
qed

section \<open>Rendered numbers\<close>

text \<open>The number a decimal text denotes: an optional minus sign, digits and an optional point.\<close>

definition decimal_mag :: "string \<Rightarrow> rat" where
  "decimal_mag t = of_nat (digits_val (filter (\<lambda>c. c \<noteq> CHR ''.'') t)) /
     10 ^ length (tl (dropWhile (\<lambda>c. c \<noteq> CHR ''.'') t))"

definition decimal_val :: "string \<Rightarrow> rat" where
  "decimal_val t = (case t of c # cs \<Rightarrow> if c = CHR ''-'' then - decimal_mag cs else decimal_mag t | [] \<Rightarrow> 0)"

lemma fixed_digits_places: "length (tl (dropWhile (\<lambda>c. c \<noteq> CHR ''.'') (fixed_digits d n))) = d"
proof (cases "d = 0")
  case True
  have "CHR ''.'' \<notin> set (str_nat n)" using pad_zeros_no_point [of 0 n] by (simp add: pad_zeros_def)
  then have e: "dropWhile (\<lambda>c. c \<noteq> CHR ''.'') (str_nat n) = []" unfolding dropWhile_eq_Nil_conv by auto
  show ?thesis unfolding True fixed_digits_def by (simp add: e del: dropWhile_eq_Nil_conv)
next
  case False
  define s where "s = pad_zeros (Suc d) (str_nat n)"
  define k where "k = length s - d"
  have "\<forall>c \<in> set (take k s). c \<noteq> CHR ''.''"
    using pad_zeros_no_point [of "Suc d" n] set_take_subset [of k s] by (auto simp: s_def)
  then have "dropWhile (\<lambda>c. c \<noteq> CHR ''.'') (take k s @ ''.'' @ drop k s) = ''.'' @ drop k s"
    by (simp add: dropWhile_append2)
  moreover have "length (drop k s) = d" by (simp add: k_def s_def pad_zeros_def)
  ultimately show ?thesis using False by (simp add: fixed_digits_def Let_def s_def k_def)
qed

lemma decimal_fmt_mag: "0 \<le> x \<Longrightarrow> \<bar>decimal_mag (fmt_mag d x) - x\<bar> \<le> 1 / (2 * 10 ^ d)"
  using fmt_mag_error [of x d] fixed_digits_places [of d] by (simp add: decimal_mag_def fmt_mag_def)

lemma take_first: "d < length s \<Longrightarrow> \<exists>cs. take (length s - d) s = hd s # cs"
  by (cases s) (auto simp: Suc_diff_le less_Suc_eq_le)

lemma fmt_mag_first: "\<exists>c cs. fmt_mag d x = c # cs \<and> is_digit c"
proof -
  define n where "n = nat (round_half_even (x * 10 ^ d))"
  define s where "s = pad_zeros (Suc d) (str_nat n)"
  have z: "is_digit (CHR ''0'')" by (simp add: is_digit_def)
  have s: "\<forall>c \<in> set s. is_digit c" "d < length s"
    unfolding s_def pad_zeros_def using str_nat_digits [of n] z by auto
  then have "is_digit (hd s)" by (cases s) auto
  moreover have "is_digit (hd (str_nat n))" using str_nat_digits [of n] by simp
  ultimately show ?thesis
    unfolding fmt_mag_def fixed_digits_def Let_def n_def [symmetric] s_def [symmetric]
    using take_first [OF s(2)] by (cases "str_nat n") auto
qed

lemma decimal_fmt_fixed:
  assumes "fval f = Some x"
  shows "\<bar>decimal_val (fmt_fixed d f) - x\<bar> \<le> 1 / (2 * 10 ^ d)"
proof -
  have m: "decimal_val (fmt_mag d y) = decimal_mag (fmt_mag d y)" for y
    using fmt_mag_first [of d y] by (auto simp: decimal_val_def is_digit_def)
  show ?thesis
  proof (cases f)
    case (Fin y)
    then show ?thesis using assms decimal_fmt_mag [of "- y" d] decimal_fmt_mag [of y d] m [of y]
      by (cases "y < 0") (auto simp: decimal_val_def)
  next
    case NegZero
    then show ?thesis using assms decimal_fmt_mag [of 0 d] by (simp add: decimal_val_def)
  qed (use assms in auto)
qed

lemma fmt_fixed_not_na: "fmt_fixed d f \<noteq> ''n/a''"
proof -
  have "fmt_mag d y \<noteq> ''n/a''" for y using fmt_mag_first [of d y] by (auto simp: is_digit_def)
  then show ?thesis by (cases f) auto
qed

text \<open>C29. The cells of the CSV file and the claim table: a ratio is printed as \<open>n/a\<close> exactly when its
  denominator is zero (of either sign), and every other cell of a finite float denotes a decimal
  within half a unit of the last printed place of that float.\<close>

theorem render_float_accurate:
  "(render_float (safe_ratio a b) d = ''n/a'' \<longleftrightarrow> fval b = Some 0) \<and>
   (\<forall>f x. fval f = Some x \<longrightarrow> \<bar>decimal_val (render_float (Some f) d) - x\<bar> \<le> 1 / (2 * 10 ^ d))"
proof -
  have "feq b (Fin 0) \<longleftrightarrow> fval b = Some 0" by (cases b) auto
  then show ?thesis
    by (auto simp: render_float_def safe_ratio_def fmt_fixed_not_na intro: decimal_fmt_fixed)
qed

theorem render_float_accurate_witness:
  "render_float (safe_ratio (Fin 3) NegZero) 3 = ''n/a'' \<and>
   render_float (safe_ratio (Fin 3) (Fin 2)) 3 = ''1.500'' \<and>
   \<bar>decimal_val (render_float (Some (Fin (7/16))) 3) - 7/16\<bar> \<le> 1 / 2000"
proof -
  have "render_float (safe_ratio (Fin 3) (Fin 2)) 3 = ''1.500''" by code_simp
  with render_float_accurate [of "Fin 3" NegZero 3] show ?thesis by auto
qed

section \<open>Rows against their reports\<close>

text \<open>The table of the package without the intermediate dictionaries: the file the manifest names for a
  family, a workload and a role, and a row assembled from three such files.\<close>

definition report_file :: "world \<Rightarrow> path \<Rightarrow> claim_manifest \<Rightarrow> string \<Rightarrow> string \<times> string \<Rightarrow> path option" where
  "report_file w run_root m n k = (case find (\<lambda>f. rf_run_family f = n) (cm_artifact_families m) of
     None \<Rightarrow> None
   | Some f \<Rightarrow> map_option (entry_path w run_root) (find (\<lambda>e. entry_key e = k) (rf_endpoint_reports f)))"

definition report_json :: "world \<Rightarrow> path option \<Rightarrow> obj" where
  "report_json w p = (case p of None \<Rightarrow> [] | Some q \<Rightarrow>
     (case bnd (fs_read w q) (json_loads w) of Inr (JObj d) \<Rightarrow> d | _ \<Rightarrow> []))"

definition spec_side :: "path \<Rightarrow> obj \<Rightarrow> row_side" where
  "spec_side p d = (let number = (\<lambda>k. projr (num_float (dget (sub d ''metrics'') k))) in
    \<lparr>sd_artifact = path_str p, sd_run_id = dget (sub d ''metadata'') ''run_id'',
     sd_throughput_rps = number ''throughput_rps'', sd_latency_us_p50 = number ''latency_us_p50'',
     sd_latency_us_p95 = number ''latency_us_p95'',
     sd_stage_nanos_total = fst (projr (stage_totals (sub d ''stages''))),
     sd_stage_bytes_total = snd (projr (stage_totals (sub d ''stages'')))\<rparr>)"

definition spec_row :: "world \<Rightarrow> path \<Rightarrow> claim_manifest \<Rightarrow> string \<times> string \<Rightarrow> row" where
  "spec_row w run_root m k =
    (let at_family = (\<lambda>n. report_file w run_root m n k);
         side = (\<lambda>n. spec_side (the (at_family n)) (report_json w (at_family n))) in
     compare_sides (fst k) (snd k)
       (dget (sub (report_json w (at_family ''idxd_attribution'')) ''metadata'') ''accelerated_device_path'')
       (side ''software_baseline'') (side ''software_attribution'') (side ''idxd_attribution''))"

lemma find_key: "distinct (map g xs) \<Longrightarrow> x \<in> set xs \<Longrightarrow> find (\<lambda>y. g y = g x) xs = Some x"
  by (induction xs) (auto simp: rev_image_eqI)

lemma side_of_loaded:
  assumes "report_accepted l role instr sel d"
  shows "side_of (loaded_from p d) = Inr (spec_side p d)"
proof -
  obtain x where x: "side_of (loaded_from p d) = Inr x" using accepted_side [OF assms] by blast
  have t: "\<exists>t. stage_totals (sub d ''stages'') = Inr t"
    using assms stage_totals_defined by (simp add: report_accepted_def Let_def)
  have v: "dget (sub d ''metrics'') k = v" if "map_of (sub d ''metrics'') k = Some v" for k v
    using that by (simp add: dget_def)
  from x t show ?thesis
    by (auto simp: side_of_def metric_def loaded_from_def spec_side_def Let_def bnd_Inr_iff item_Inr_iff dget_def)
qed

lemma report_at_file:
  assumes m: "claim_load_manifest w0 repo p = Inr m" and l: "load_family_reports w m run_root = Inr loaded"
    and n: "n \<in> set (map fst EXPECTED_FAMILIES)"
    and key: "l \<in> set (cm_workload_labels m)" "role \<in> set EXPECTED_ENDPOINT_ROLES"
  obtains q d r where "report_file w run_root m n (l, role) = Some q" "report_json w (Some q) = d"
    "report_at loaded n l role = Inr r" "r = loaded_from q d" "side_of r = Inr (spec_side q d)" "str_field (sub d ''metadata'') ''run_id''"
proof -
  obtain f where f: "f \<in> set (cm_artifact_families m)" "rf_run_family f = n"
    using claim_families(3) [OF m] n by (metis (no_types, lifting) image_iff set_map)
  obtain e r where e: "e \<in> set (rf_endpoint_reports f)" "entry_key e = (l, role)"
    and r: "load_entry w run_root f e = Inr r" "report_at loaded n l role = Inr r"
    using loaded_report_at [OF m l f(1) key] f(2) by blast
  then obtain d where d: "bnd (fs_read w (entry_path w run_root e)) (json_loads w) = Inr (JObj d)"
    "report_accepted (re_workload_label e) (re_endpoint_role e) (rf_instrumentation f) (rf_selected_path f) d"
    "r = loaded_from (entry_path w run_root e) d"
    unfolding load_report_iff by blast
  have "report_file w run_root m n (l, role) = Some (entry_path w run_root e)"
    using find_key [OF claim_families(2) [OF m] f(1)] find_key [OF claim_family_entry(1) [OF m f(1) key] e(1)] f(2) e(2)
    by (simp add: report_file_def)
  moreover have "report_json w (Some (entry_path w run_root e)) = d" using d(1) by (simp add: report_json_def)
  moreover have "str_field (sub d ''metadata'') ''run_id''"
    using d(2) by (simp add: report_accepted_def Let_def REQUIRED_REPORT_METADATA_def)
  ultimately show thesis using that r(2) d(3) side_of_loaded [OF d(2)] by blast
qed

lemma build_row_spec:
  assumes "claim_load_manifest w0 repo p = Inr m" "load_family_reports w m run_root = Inr loaded"
    "l \<in> set (cm_workload_labels m)" "role \<in> set EXPECTED_ENDPOINT_ROLES"
  shows "build_row loaded l role = Inr (spec_row w run_root m (l, role))"
proof -
  have n: "''software_baseline'' \<in> set (map fst EXPECTED_FAMILIES)"
    "''software_attribution'' \<in> set (map fst EXPECTED_FAMILIES)"
    "''idxd_attribution'' \<in> set (map fst EXPECTED_FAMILIES)"
    by (simp_all add: EXPECTED_FAMILIES_def)
  obtain qb db b where b: "report_file w run_root m ''software_baseline'' (l, role) = Some qb"
    "report_json w (Some qb) = db" "report_at loaded ''software_baseline'' l role = Inr b"
    "side_of b = Inr (spec_side qb db)" using report_at_file [OF assms(1,2) n(1) assms(3,4)] by metis
  obtain qs ds s where s: "report_file w run_root m ''software_attribution'' (l, role) = Some qs"
    "report_json w (Some qs) = ds" "report_at loaded ''software_attribution'' l role = Inr s"
    "side_of s = Inr (spec_side qs ds)" using report_at_file [OF assms(1,2) n(2) assms(3,4)] by metis
  obtain qi di i where i: "report_file w run_root m ''idxd_attribution'' (l, role) = Some qi"
    "report_json w (Some qi) = di" "report_at loaded ''idxd_attribution'' l role = Inr i"
    "i = loaded_from qi di" "side_of i = Inr (spec_side qi di)" by (rule report_at_file [OF assms(1,2) n(3) assms(3,4)])
  obtain r where r: "build_row loaded l role = Inr r" using build_row_defined [OF assms] by blast
  then have "item (lr_metadata i) ''accelerated_device_path'' =
      Inr (dget (sub di ''metadata'') ''accelerated_device_path'')"
    using b s i by (auto simp: build_row_def bnd_Inr_iff item_Inr_iff dget_def loaded_from_def)
  then show ?thesis using b s i by (simp add: build_row_def spec_row_def Let_def)
qed


lemma rows_of_spec:
  assumes "claim_load_manifest w0 repo p = Inr m" "load_family_reports w m run_root = Inr loaded"
  shows "rows_of m loaded =
    map (spec_row w run_root m) (List.product (cm_workload_labels m) EXPECTED_ENDPOINT_ROLES)"
  unfolding rows_of_def by (rule map_cong [OF refl]) (use build_row_spec [OF assms] in auto)

text \<open>C6. The summarizer's two passes (loading every report into a table of tables, then assembling rows
  from it) refine the direct specification: each row is the comparison of exactly the three files
  the package names for its workload and role, with the numbers those files hold, and one progress
  line is printed per row.\<close>

theorem build_rows_refines:
  assumes "claim_load_manifest w0 repo p = Inr m" and "load_family_reports w m run_root = Inr loaded"
  shows "build_rows m run_root loaded s =
    (let rows = map (spec_row w run_root m) (List.product (cm_workload_labels m) EXPECTED_ENDPOINT_ROLES) in
     Some (Inr rows, s\<lparr>out_log := out_log s @ map (row_line run_root) rows\<rparr>))"
  using build_rows_eq [OF assms, of s] by (simp add: rows_of_spec [OF assms])

theorem build_rows_refines_witness:
  "\<exists>run_root loaded t. build_rows sm_demo_manifest run_root loaded demo_mach =
    Some (Inr (map (spec_row sm_demo_world run_root sm_demo_manifest)
      (List.product (cm_workload_labels sm_demo_manifest) EXPECTED_ENDPOINT_ROLES)), t)"
proof -
  obtain run_root loaded where "load_family_reports sm_demo_world sm_demo_manifest run_root = Inr loaded"
    using sm_demo_families by blast
  from build_rows_refines [OF sm_demo_loads this, of demo_mach] show ?thesis unfolding Let_def by blast
qed

section \<open>The shape of the JSON document\<close>

datatype json_type = TAny | TText | TInt | TFloat | TNullable json_type | TList json_type | TTable json_type
  | TRecord "(string \<times> json_type) list"

fun json_typed :: "json_type \<Rightarrow> json \<Rightarrow> bool" where
  "json_typed TAny v = True"
| "json_typed TText v = (case v of JStr _ \<Rightarrow> True | _ \<Rightarrow> False)"
| "json_typed TInt v = (case v of JInt _ \<Rightarrow> True | _ \<Rightarrow> False)"
| "json_typed TFloat v = (case v of JFloat _ \<Rightarrow> True | _ \<Rightarrow> False)"
| "json_typed (TNullable t) v = (v = JNull \<or> json_typed t v)"
| "json_typed (TList t) v = (case v of JArr vs \<Rightarrow> list_all (json_typed t) vs | _ \<Rightarrow> False)"
| "json_typed (TTable t) v = (case v of JObj d \<Rightarrow> list_all (\<lambda>x. json_typed t (snd x)) d | _ \<Rightarrow> False)"
| "json_typed (TRecord fs) v = (case v of JObj d \<Rightarrow> map fst d = map fst fs \<and>
     list_all (\<lambda>x. json_typed (snd x) (dget d (fst x))) fs | _ \<Rightarrow> False)"

definition SIDE_TYPE :: json_type where
  "SIDE_TYPE = TRecord [(''artifact'', TText), (''run_id'', TText), (''throughput_rps'', TFloat),
     (''latency_us_p50'', TFloat), (''latency_us_p95'', TFloat), (''stage_nanos_total'', TFloat),
     (''stage_bytes_total'', TFloat)]"

definition ROW_TYPE :: json_type where
  "ROW_TYPE = TRecord [(''workload_label'', TText), (''endpoint_role'', TText), (''device_path'', TText),
     (''software_baseline'', SIDE_TYPE), (''software_attribution'', SIDE_TYPE), (''idxd_attribution'', SIDE_TYPE),
     (''comparisons'', TRecord
       [(''throughput_baseline'', TRecord [(''idxd_minus_software_baseline_rps'', TFloat),
           (''idxd_vs_software_baseline_throughput_ratio'', TNullable TFloat),
           (''idxd_minus_software_baseline_latency_us_p50'', TFloat)]),
        (''attribution'', TRecord [(''idxd_minus_software_attribution_rps'', TFloat),
           (''idxd_vs_software_attribution_throughput_ratio'', TNullable TFloat),
           (''idxd_minus_software_attribution_latency_us_p50'', TFloat),
           (''idxd_minus_software_attribution_stage_nanos_total'', TFloat)])])]"

definition SUMMARY_TYPE :: json_type where
  "SUMMARY_TYPE = TRecord [(''schema_version'', TInt), (''generated_at_utc'', TText), (''manifest_path'', TText),
     (''run_root'', TText), (''pairing_keys'', TList TText),
     (''summary_outputs'', TRecord [(''comparison_summary_json'', TText), (''ordinary_vs_idxd_csv'', TText),
        (''claim_table_md'', TText)]),
     (''control_floor'', TRecord [(''path'', TText), (''suite_name'', TAny), (''schema_version'', TAny),
        (''benchmarks'', TTable (TRecord [(''benchmark_name'', TText), (''mean_ns'', TFloat),
           (''median_ns'', TFloat), (''std_dev_ns'', TFloat), (''sample_count'', TInt)]))]),
     (''rows'', TList ROW_TYPE)]"

lemma side_json_typed: "json_typed SIDE_TYPE (side_json x) \<longleftrightarrow> (\<exists>t. sd_run_id x = JStr t)"
  by (auto simp: SIDE_TYPE_def side_json_def dget_def split: json.splits)

lemma opt_json_typed: "json_typed (TNullable TFloat) (opt_json x)"
  by (cases x) (auto simp: opt_json_def)

lemma row_json_typed:
  assumes "nonempty_str (rw_device_path r)" "\<forall>i \<in> set (row_run_ids r). nonempty_str i"
  shows "json_typed ROW_TYPE (row_json r)"
  using assms side_json_typed opt_json_typed
  by (auto simp: ROW_TYPE_def row_json_def dget_def row_run_ids_def nonempty_str_iff simp del: json_typed.simps(5))

lemma spec_row_run_ids:
  assumes "claim_load_manifest w0 repo p = Inr m" "load_family_reports w m run_root = Inr loaded"
    "l \<in> set (cm_workload_labels m)" "role \<in> set EXPECTED_ENDPOINT_ROLES"
  shows "\<forall>i \<in> set (row_run_ids (spec_row w run_root m (l, role))). nonempty_str i"
proof -
  have "nonempty_str (sd_run_id (spec_side (the (report_file w run_root m n (l, role)))
      (report_json w (report_file w run_root m n (l, role)))))"
    if n: "n \<in> set (map fst EXPECTED_FAMILIES)" for n
  proof -
    obtain q d where "report_file w run_root m n (l, role) = Some q" "report_json w (Some q) = d"
      "str_field (sub d ''metadata'') ''run_id''" by (rule report_at_file [OF assms(1,2) n assms(3,4)])
    then show ?thesis by (auto simp: spec_side_def Let_def str_field_iff dget_def nonempty_str_iff)
  qed
  then show ?thesis
    by (simp add: row_run_ids_def spec_row_def Let_def compare_sides_def EXPECTED_FAMILIES_def)
qed

text \<open>C28. The document written to \<open>comparison_summary.json\<close> has one shape for every accepted package: the
  fixed fields with their types, a ratio that is a number or null, and rows whose labels, device
  and run ids are texts, never null.\<close>

theorem summary_document_typed:
  assumes "claim_load_manifest w0 repo p = Inr m" and "load_family_reports w m run_root = Inr loaded"
    and "build_rows m run_root loaded s = Some (Inr rows, t)"
  shows "json_typed SUMMARY_TYPE
    (build_summary_document now manifest_path run_root m rows cfl (output_paths m run_root))"
proof -
  have rows: "rows = rows_of m loaded" using assms(3) build_rows_eq [OF assms(1,2), of s] by simp
  have "json_typed ROW_TYPE (row_json r)" if "r \<in> set rows" for r
    using that rows_of_facts(2) [OF assms(1,2), of r] spec_row_run_ids [OF assms(1,2)]
    by (intro row_json_typed) (auto simp: rows rows_of_spec [OF assms(1,2)])
  moreover have "cm_derived_outputs m = EXPECTED_DERIVED_OUTPUTS"
    using assms(1) by (rule claim_load_manifest_Inr)
  ultimately show ?thesis
    by (simp add: SUMMARY_TYPE_def build_summary_document_def floor_json_def output_paths_def dget_def
        list_all_iff EXPECTED_DERIVED_OUTPUTS_def case_prod_unfold)
qed

theorem summary_document_typed_witness:
  "\<exists>run_root rows. length rows = 4 \<and> json_typed SUMMARY_TYPE (build_summary_document ''now'' (path_of ''p'') run_root
    sm_demo_manifest rows \<lparr>cfl_path = ''r/cf'', cfl_suite_name = JNull, cfl_schema_version = JInt 1, cfl_benchmarks = []\<rparr>
    (output_paths sm_demo_manifest run_root))"
proof -
  obtain run_root loaded where l: "load_family_reports sm_demo_world sm_demo_manifest run_root = Inr loaded"
    using sm_demo_families by blast
  have "length (List.product (cm_workload_labels sm_demo_manifest) EXPECTED_ENDPOINT_ROLES) = 4" by code_simp
  then have "length (rows_of sm_demo_manifest loaded) = 4" by (simp add: rows_of_def)
  then show ?thesis
    using summary_document_typed [OF sm_demo_loads l build_rows_eq [OF sm_demo_loads l]] by blast
qed

section \<open>Stage totals\<close>

text \<open>The counters of a report as exact integers, and the loop over the stages.\<close>

definition counter :: "obj \<Rightarrow> string \<Rightarrow> string \<Rightarrow> int" where
  "counter stages field stage_name = (case dget (sub stages stage_name) field of JInt n \<Rightarrow> n | _ \<Rightarrow> 0)"

definition counters_ok :: "obj \<Rightarrow> string \<Rightarrow> bool" where
  "counters_ok stages stage_name \<longleftrightarrow> obj_field stages stage_name \<and>
    list_all (\<lambda>field. dget (sub stages stage_name) field = JInt (counter stages field stage_name) \<and>
      0 \<le> counter stages field stage_name) [''nanos'', ''bytes'']"

definition exact_total :: "obj \<Rightarrow> string \<Rightarrow> int" where
  "exact_total stages field = (\<Sum>n \<leftarrow> SUMMARY_STAGE_NAMES. counter stages field n)"

lemma counters_nonneg:
  "list_all (counters_ok stages) ns \<Longrightarrow> field \<in> {''nanos'', ''bytes''} \<Longrightarrow> 0 \<le> (\<Sum>n \<leftarrow> ns. counter stages field n)"
  by (induction ns) (auto simp: counters_ok_def)

lemma counter_read:
  assumes "counters_ok stages n" "field \<in> {''nanos'', ''bytes''}" "counter stages field n \<le> 2 ^ 53"
  shows "require_number (sub stages n) field scope = Inr (Fin (of_int (counter stages field n)))"
proof -
  have "dget (sub stages n) field = JInt (counter stages field n)" "\<bar>counter stages field n\<bar> \<le> 2 ^ 53"
    using assms by (auto simp: counters_ok_def)
  then show ?thesis unfolding require_number_iff by (simp add: float_of_int_exact)
qed

lemma totals_fold:
  assumes "list_all (counters_ok stages) ns" "0 \<le> a" "0 \<le> b"
    and "a + (\<Sum>n \<leftarrow> ns. counter stages ''nanos'' n) \<le> 2 ^ 53"
    and "b + (\<Sum>n \<leftarrow> ns. counter stages ''bytes'' n) \<le> 2 ^ 53"
  shows "foldm (\<lambda>(total_nanos, total_bytes) stage_name.
     bnd (require_dict (dget stages stage_name) (''stages.'' @ stage_name)) (\<lambda>stage.
     bnd (require_number stage ''nanos'' (''stages.'' @ stage_name)) (\<lambda>nanos.
     bnd (require_number stage ''bytes'' (''stages.'' @ stage_name)) (\<lambda>bytes.
     Inr (fadd total_nanos nanos, fadd total_bytes bytes))))) (Fin (of_int a), Fin (of_int b)) ns =
   Inr (Fin (of_int (a + (\<Sum>n \<leftarrow> ns. counter stages ''nanos'' n))),
        Fin (of_int (b + (\<Sum>n \<leftarrow> ns. counter stages ''bytes'' n))))"
  using assms
proof (induction ns arbitrary: a b)
  case (Cons n ns)
  let ?x = "counter stages ''nanos'' n" and ?y = "counter stages ''bytes'' n"
  have ok: "counters_ok stages n" and rest: "list_all (counters_ok stages) ns" using Cons.prems by auto
  have pos: "0 \<le> ?x" "0 \<le> ?y" using ok by (auto simp: counters_ok_def)
  have bound: "a + ?x \<le> 2 ^ 53" "b + ?y \<le> 2 ^ 53"
    using Cons.prems(4,5) counters_nonneg [OF rest, of "''nanos''"] counters_nonneg [OF rest, of "''bytes''"] by auto
  have "dget stages n = JObj (sub stages n)" using ok by (auto simp: counters_ok_def obj_field_iff dget_def)
  moreover have "require_number (sub stages n) ''nanos'' sc = Inr (Fin (of_int ?x))"
    "require_number (sub stages n) ''bytes'' sc = Inr (Fin (of_int ?y))" for sc
    using counter_read [OF ok] Cons.prems(2,3) bound by auto
  moreover have "fadd (Fin (of_int a)) (Fin (of_int ?x)) = Fin (of_int (a + ?x))"
    "fadd (Fin (of_int b)) (Fin (of_int ?y)) = Fin (of_int (b + ?y))"
    by (rule fadd_ints_exact, use bound pos Cons.prems(2,3) in simp)+
  ultimately show ?case
    using Cons.IH [OF rest, of "a + ?x" "b + ?y"] Cons.prems pos
    by (simp add: require_dict_def add.assoc del: fadd.simps of_int_add)
qed simp

text \<open>C30. As long as the counters of a report are integers whose sums stay within \<open>2 ^ 53\<close> (about 104 days
  of nanoseconds), the float sums of \<open>stage_totals\<close> are exact.\<close>

theorem stage_totals_exact:
  assumes "list_all (counters_ok stages) SUMMARY_STAGE_NAMES"
    and "exact_total stages ''nanos'' \<le> 2 ^ 53" and "exact_total stages ''bytes'' \<le> 2 ^ 53"
  shows "stage_totals stages =
    Inr (Fin (of_int (exact_total stages ''nanos'')), Fin (of_int (exact_total stages ''bytes'')))"
  using totals_fold [OF assms(1), of 0 0] assms(2,3) by (simp add: stage_totals_def exact_total_def)

definition totals_demo :: obj where
  "totals_demo = map (\<lambda>n. (n, JObj [(''nanos'', JInt (2 ^ 50)), (''bytes'', JInt 3)])) SUMMARY_STAGE_NAMES"

theorem stage_totals_exact_witness: "stage_totals totals_demo = Inr (Fin (7 * 2 ^ 50), Fin 21)"
proof -
  have "list_all (counters_ok totals_demo) SUMMARY_STAGE_NAMES" by code_simp
  moreover have "exact_total totals_demo ''nanos'' = 7 * 2 ^ 50" "exact_total totals_demo ''bytes'' = 21" by code_simp+
  ultimately show ?thesis using stage_totals_exact [of totals_demo] by simp
qed

end
