(* ===== verification/S04_ClaimPackage.thy ===== *)
theory S04_ClaimPackage
  imports ClaimContract
begin

text \<open>
  The claim-package runner \<open>run_s04_claim_package.py\<close>: it prepares a run root, runs the S02 verifier,
  the S03 verifier and the summarizer as child processes, and checks what they left behind. When the
  S03 verifier fails with a known marker in its output, the accelerator reports are copied from a
  fixture instead. The child processes are the host's; \<open>os.environ\<close> and the repository root are
  arguments. Lines 41 to 417 of the script are copies of contract functions that lines 833 to 850
  rebind, so the definitions below call \<open>ClaimContract\<close>.
\<close>

section \<open>Environment and texts\<close>

definition env_get :: "(string, string) dict \<Rightarrow> string \<Rightarrow> string \<Rightarrow> string" where
  "env_get environ k d = (case map_of environ k of Some v \<Rightarrow> v | None \<Rightarrow> d)"

definition tonic_script :: "path \<Rightarrow> string \<Rightarrow> path" where
  "tonic_script repo name = path_div (path_div (path_div (path_div repo ''accel-rpc'') ''tonic-profile'') ''scripts'') name"

definition DEFAULT_S02_VERIFY :: "path \<Rightarrow> path" where
  "DEFAULT_S02_VERIFY repo = tonic_script repo ''verify_s02_trustworthy_evidence.sh''"

definition DEFAULT_S03_VERIFY :: "path \<Rightarrow> path" where
  "DEFAULT_S03_VERIFY repo = tonic_script repo ''verify_s03_idxd_path.sh''"

definition DEFAULT_S03_RUNNER :: "path \<Rightarrow> path" where
  "DEFAULT_S03_RUNNER repo = tonic_script repo ''run_s03_idxd_evidence.py''"

definition DEFAULT_SUMMARIZER :: "path \<Rightarrow> path" where
  "DEFAULT_SUMMARIZER repo = tonic_script repo ''summarize_s04_claim_package.py''"

text \<open>\<open>Path(os.environ.get(key, str(default))).resolve()\<close>\<close>

definition env_path :: "world \<Rightarrow> (string, string) dict \<Rightarrow> string \<Rightarrow> path \<Rightarrow> path" where
  "env_path w environ key dflt = fs_resolve w (path_of (env_get environ key (path_str dflt)))"

text \<open>\<open>cli_value or fallback\<close>, and the truth value of an optional text.\<close>

definition given :: "string option \<Rightarrow> bool" where
  "given x = (case x of Some t \<Rightarrow> t \<noteq> [] | None \<Rightarrow> False)"

definition selected_device_path :: "(string, string) dict \<Rightarrow> string option \<Rightarrow> string" where
  "selected_device_path environ cli_value =
    (if given cli_value then the cli_value else env_get environ ''S03_ACCELERATOR_DEVICE'' ''<auto>'')"

text \<open>\<open>json.dumps\<close> of a list of strings: everything but printable ASCII is escaped.\<close>

definition hex_digit :: "nat \<Rightarrow> char" where
  "hex_digit n = ''0123456789abcdef'' ! n"

definition json_char :: "char \<Rightarrow> string" where
  "json_char c = (let n = of_char c :: nat in
     if n = 0x22 then [CHR 0x5C, c] else if n = 0x5C then [CHR 0x5C, c]
     else if n = 0x0A then [CHR 0x5C, CHR ''n''] else if n = 0x0D then [CHR 0x5C, CHR ''r'']
     else if n = 0x09 then [CHR 0x5C, CHR ''t''] else if n = 0x08 then [CHR 0x5C, CHR ''b'']
     else if n = 0x0C then [CHR 0x5C, CHR ''f'']
     else if 0x20 \<le> n \<and> n \<le> 0x7E then [c]
     else [CHR 0x5C, CHR ''u'', CHR ''0'', CHR ''0'', hex_digit (n div 16), hex_digit (n mod 16)])"

definition dumps_list :: "string list \<Rightarrow> string" where
  "dumps_list ts = ''['' @ joined '', '' (map (\<lambda>t. [CHR 0x22] @ concat (map json_char t) @ [CHR 0x22]) ts) @ '']''"

text \<open>\<open>summary_output_paths(manifest, run_root)["comparison_summary_json"]\<close>\<close>

definition summary_output_of :: "claim_manifest \<Rightarrow> path \<Rightarrow> path res" where
  "summary_output_of manifest run_root = key_item (summary_output_paths manifest run_root) ''comparison_summary_json''"


section \<open>Preparing the run root\<close>

definition log_artifact_plan :: "claim_manifest \<Rightarrow> path \<Rightarrow> string \<Rightarrow> unit io" where
  "log_artifact_plan manifest run_root device_path =
    ioeach (\<lambda>family. ioeach (\<lambda>entry.
      iobnd (lift (summary_output_of manifest run_root)) (\<lambda>summary_output.
      say [Txt (''phase=plan workload_label='' @ re_workload_label entry @ '' endpoint_role='' @
        re_endpoint_role entry @ '' run_family='' @ rf_run_family family @ '' instrumentation='' @
        rf_instrumentation family @ '' output_root='' @ path_str run_root @ '' summary_path='' @
        path_str summary_output @ '' device_path='' @ device_path)]))
      (rf_endpoint_reports family)) (cm_artifact_families manifest)"

definition prepare_run_root :: "host \<Rightarrow> path \<Rightarrow> claim_manifest \<Rightarrow> path \<Rightarrow> path io" where
  "prepare_run_root h manifest_path manifest run_root =
    iobnd (mkdir_p h run_root) (\<lambda>_.
    iobnd (mkdir_p h (path_div run_root ''software'')) (\<lambda>_.
    iobnd (mkdir_p h (path_div run_root ''idxd'')) (\<lambda>_.
    iobnd (mkdir_p h (path_div run_root ''summary'')) (\<lambda>_.
    let copied_manifest_path = manifest_copy_path run_root in
    iobnd (look (\<lambda>w. fs_read w manifest_path)) (\<lambda>raw.
    iobnd (write_text h copied_manifest_path raw) (\<lambda>_.
    iobnd (lift (summary_output_of manifest run_root)) (\<lambda>summary_output.
    iobnd (say [Txt (''phase=run-root-ready manifest='' @ path_str manifest_path @ '' manifest_copy='' @
             path_str copied_manifest_path @ '' output_root='' @ path_str run_root @ '' summary_path='' @
             path_str summary_output)]) (\<lambda>_.
    ret copied_manifest_path))))))))"

definition copy_control_floor_reference :: "host \<Rightarrow> path \<Rightarrow> claim_manifest \<Rightarrow> path \<Rightarrow> path io" where
  "copy_control_floor_reference h repo manifest run_root =
    iobnd (lift (key_item (cm_inputs manifest) ''control_floor_summary'')) (\<lambda>raw.
    iobnd (look (\<lambda>w. Inr (fs_resolve w (resolve_repo_path repo raw)))) (\<lambda>source.
    let destination = path_div (path_div run_root ''control-floor'') ''async_control_floor_summary.json'' in
    iobnd (mkdir_p h (path_parent destination)) (\<lambda>_.
    iobnd (copy_file h source destination) (\<lambda>_.
    iobnd (say [Txt (''phase=control-floor-reference source='' @ path_str source @ '' destination='' @
             path_str destination @ '' output_root='' @ path_str run_root)]) (\<lambda>_.
    ret destination)))))"


section \<open>Child processes\<close>

text \<open>\<open>print(text, end="" if text.endswith("\n") else "\n")\<close> when there is any text: one entry of the log.\<close>

definition chomp :: "string \<Rightarrow> string" where
  "chomp t = (if t \<noteq> [] \<and> last t = CHR 0x0A then butlast t else t)"

definition emit_completed_process_output :: "string \<Rightarrow> string \<Rightarrow> unit io" where
  "emit_completed_process_output stdout stderr =
    iobnd (if stdout \<noteq> [] then say [Txt (chomp stdout)] else ret ()) (\<lambda>_.
    (if stderr \<noteq> [] then complain [Txt (chomp stderr)] else ret ()))"

text \<open>The last lines of a \<open>RunError\<close>: both outputs of the child.\<close>

definition with_output :: "string \<Rightarrow> string \<Rightarrow> string \<Rightarrow> exn" where
  "with_output line stdout stderr =
    RunError [Txt (joined [CHR 0x0A] [line, ''stdout:'' @ [CHR 0x0A] @ stdout, ''stderr:'' @ [CHR 0x0A] @ stderr])]"

definition phase_where :: "path \<Rightarrow> path \<Rightarrow> string \<Rightarrow> string" where
  "phase_where run_root summary_output device_path = '' output_root='' @ path_str run_root @ '' summary_path='' @
     path_str summary_output @ '' device_path='' @ device_path"

definition run_phase_command ::
    "host \<Rightarrow> string \<Rightarrow> string list \<Rightarrow> (string, string) dict \<Rightarrow> int \<Rightarrow> path \<Rightarrow> path \<Rightarrow> string \<Rightarrow> unit io" where
  "run_phase_command h phase command env timeout_s run_root summary_output device_path =
    (let here = phase_where run_root summary_output device_path in
    iobnd (say [Txt (''phase='' @ phase @ ''-start'' @ here @ '' timeout_s='' @ str_int timeout_s @
             '' command='' @ dumps_list command)]) (\<lambda>_.
    iobnd (try_except (run_env h env command (Some timeout_s)) (\<lambda>e. e = TimeoutExpired) (\<lambda>_.
             iobnd (partial_output h) (\<lambda>(stdout, stderr).
             raise_io (with_output (''phase='' @ phase @ '' outcome=timeout'' @ here @ '' timeout_s='' @ str_int timeout_s)
               stdout stderr)))) (\<lambda>(code, stdout, stderr).
    iobnd (emit_completed_process_output stdout stderr) (\<lambda>_.
    if code \<noteq> 0 then raise_io (with_output (''phase='' @ phase @ '' outcome=error'' @ here @ '' exit_code='' @ str_int code)
      stdout stderr) else
    say [Txt (''phase='' @ phase @ ''-done'' @ here @ '' exit_code='' @ str_int code)]))))"


section \<open>Falling back to fixture reports\<close>

definition idxd_fixture_source :: "path \<Rightarrow> path" where
  "idxd_fixture_source run_root = path_div (path_div (path_parent run_root) ''fixture'') ''idxd''"

definition FALLBACK_MARKERS :: "string list" where
  "FALLBACK_MARKERS = [''launcher_status=missing_capability'', ''launcher_status=missing_work_queue'',
     ''launcher_status=missing_launcher'', ''launcher_status=missing_devenv'', ''phase=preflight'']"

text \<open>The text of an error whose message is literal text, as it is for every error that reaches the test.\<close>

fun frag_text :: "frag \<Rightarrow> string" where
  "frag_text (Txt t) = t"
| "frag_text _ = []"

definition idxd_failure_allows_fallback :: "exn \<Rightarrow> bool" where
  "idxd_failure_allows_fallback error =
    (let rendered = concat (map frag_text (exn_msg error)) in
     list_ex (\<lambda>marker. contains marker rendered) FALLBACK_MARKERS)"

definition s04_load_json_object :: "world \<Rightarrow> path \<Rightarrow> string \<Rightarrow> obj res" where
  "s04_load_json_object w p scope =
    (let at_file = '' scope='' @ scope @ '' artifact='' @ path_str p @ '': '' in
    bnd (except_as (fs_read w p) os_error_text (\<lambda>err.
           RunError [Txt (''phase=idxd-fallback outcome=read-failed'' @ at_file @ err)])) (\<lambda>raw.
    bnd (except_as (json_loads w raw) json_error_text (\<lambda>err.
           RunError [Txt (''phase=idxd-fallback outcome=parse-failed'' @ at_file @ err)])) (\<lambda>value.
    case value of JObj d \<Rightarrow> Inr d
    | _ \<Rightarrow> Inl (RunError [Txt (''phase=idxd-fallback outcome=malformed'' @ at_file @ ''root must be an object'')]))))"

text \<open>\<open>sorted(source_dir.glob("*.json"))\<close>: the entries of one directory sort by name.\<close>

definition json_files :: "world \<Rightarrow> path \<Rightarrow> path list" where
  "json_files w dir = map (path_div dir) (sort (filter (\<lambda>n. startswith (rev n) (rev ''.json'')) (fs_list w dir)))"

definition idxd_fallback_device_path :: "world \<Rightarrow> path \<Rightarrow> string res" where
  "idxd_fallback_device_path w source_dir =
    (case json_files w source_dir of
       [] \<Rightarrow> Inl (RunError [Txt (''phase=idxd-fallback outcome=missing-source-artifacts source='' @ path_str source_dir)])
     | first # _ \<Rightarrow>
       bnd (s04_load_json_object w first ''fixture-device'') (\<lambda>report.
       case dget report ''metadata'' of JObj metadata \<Rightarrow>
         (let bad = RunError [Txt (''phase=idxd-fallback outcome=missing-device-path scope=fixture-device artifact='' @
                path_str first)] in
          case dget metadata ''accelerated_device_path'' of
            JStr device_path \<Rightarrow> if device_path = [] then Inl bad else Inr device_path
          | _ \<Rightarrow> Inl bad)
       | _ \<Rightarrow> Inl (RunError [Txt (''phase=idxd-fallback outcome=malformed scope=fixture-device artifact='' @
              path_str first @ '' metadata must be an object'')])))"

definition seed_report :: "host \<Rightarrow> path \<Rightarrow> path \<Rightarrow> exn \<Rightarrow> nat \<Rightarrow> report_entry \<Rightarrow> nat io" where
  "seed_report h source_dir destination_dir triggering_error copied report =
    (let name = path_name (path_of (re_artifact report)); source = path_div source_dir name;
         destination = path_div destination_dir name in
    iobnd (look (\<lambda>w. Inr (fs_exists w source))) (\<lambda>there.
    if \<not> there then raise_io triggering_error else
    iobnd (mkdir_p h (path_parent destination)) (\<lambda>_.
    iobnd (copy_file h source destination) (\<lambda>_.
    ret (copied + 1)))))"

definition seed_reports :: "host \<Rightarrow> claim_manifest \<Rightarrow> path \<Rightarrow> path \<Rightarrow> exn \<Rightarrow> nat io" where
  "seed_reports h manifest source_dir destination_dir triggering_error =
    iofold (\<lambda>copied entry. if rf_run_family entry \<noteq> ''idxd_attribution'' then ret copied
      else iofold (seed_report h source_dir destination_dir triggering_error) copied (rf_endpoint_reports entry))
      0 (cm_artifact_families manifest)"

definition fallback_command :: "path \<Rightarrow> path \<Rightarrow> string \<Rightarrow> path \<Rightarrow> string \<Rightarrow> string list" where
  "fallback_command repo s03_runner idxd_manifest destination_dir fallback_device =
    [''python3'', path_str s03_runner, ''--manifest'', path_str (resolve_repo_path repo idxd_manifest),
     ''--output-dir'', path_str destination_dir, ''--accelerator-device'', fallback_device, ''--verify-only'']"

definition seed_idxd_fallback ::
    "host \<Rightarrow> path \<Rightarrow> (string, string) dict \<Rightarrow> claim_manifest \<Rightarrow> path \<Rightarrow> path \<Rightarrow> exn \<Rightarrow> string io" where
  "seed_idxd_fallback h repo environ manifest run_root summary_output triggering_error =
    (let source_dir = idxd_fixture_source run_root; destination_dir = path_div run_root ''idxd'' in
    iobnd (look (\<lambda>w. Inr (fs_exists w source_dir))) (\<lambda>there.
    if \<not> there then raise_io triggering_error else
    iobnd (seed_reports h manifest source_dir destination_dir triggering_error) (\<lambda>copied.
    iobnd (look (\<lambda>w. idxd_fallback_device_path w source_dir)) (\<lambda>fallback_device.
    iobnd (look (\<lambda>w. Inr (env_path w environ ''S04_S03_RUNNER_PATH'' (DEFAULT_S03_RUNNER repo)))) (\<lambda>s03_runner.
    iobnd (lift (key_item (cm_inputs manifest) ''idxd_manifest'')) (\<lambda>idxd_manifest.
    iobnd (say [Txt (''phase=idxd-fallback-start source='' @ path_str source_dir @ '' destination='' @
             path_str destination_dir @ '' copied_files='' @ str_nat copied @ '' device_path='' @ fallback_device @
             '' summary_path='' @ path_str summary_output)]) (\<lambda>_.
    iobnd (run_env h environ (fallback_command repo s03_runner idxd_manifest destination_dir fallback_device) None)
      (\<lambda>(code, stdout, stderr).
    iobnd (emit_completed_process_output stdout stderr) (\<lambda>_.
    if code \<noteq> 0 then raise_io (with_output (''phase=idxd-fallback outcome=error'' @
      phase_where run_root summary_output fallback_device @ '' exit_code='' @ str_int code) stdout stderr) else
    iobnd (say [Txt (''phase=idxd-fallback-done verdict=pass source='' @ path_str source_dir @ '' destination='' @
             path_str destination_dir @ '' device_path='' @ fallback_device @ '' summary_path='' @
             path_str summary_output)]) (\<lambda>_.
    ret fallback_device))))))))))"


section \<open>Checking the outputs\<close>

definition validate_summary_outputs :: "world \<Rightarrow> claim_manifest \<Rightarrow> path \<Rightarrow> path \<Rightarrow> string \<Rightarrow> unit res" where
  "validate_summary_outputs w manifest run_root summary_output device_path =
    (let text = (\<lambda>outcome key p. RunError [Txt (''phase=summary outcome='' @ outcome @ '' output_key='' @ key @
           phase_where run_root summary_output device_path @ '' artifact='' @ path_str p)]) in
    each (\<lambda>(key, p). if \<not> fs_exists w p then Inl (text ''missing-output'' key p)
      else if fs_size w p = 0 then Inl (text ''empty-output'' key p) else Inr ())
      (summary_output_paths manifest run_root))"

definition reference_target :: "world \<Rightarrow> claim_manifest \<Rightarrow> path \<Rightarrow> path \<Rightarrow> string \<Rightarrow> string \<Rightarrow> string res" where
  "reference_target w manifest run_root summary_output device_path ref =
    (let stem = cm_run_root manifest @ ''/'' in
     if \<not> startswith ref stem then Inl (RunError [Txt (''phase=report-reference-validation outcome=bad-reference'' @
       phase_where run_root summary_output device_path @ '' reference='' @ ref)])
     else Inr (path_str (fs_resolve w (path_div run_root (removeprefix ref stem)))))"

definition check_report_references :: "world \<Rightarrow> path \<Rightarrow> claim_manifest \<Rightarrow> path \<Rightarrow> path \<Rightarrow> string \<Rightarrow> path res" where
  "check_report_references w repo manifest run_root summary_output device_path =
    (let head = ''phase=report-reference-validation outcome=''; here = phase_where run_root summary_output device_path in
    bnd (key_item (cm_inputs manifest) ''report_contract'') (\<lambda>raw.
    let report_contract = fs_resolve w (resolve_repo_path repo raw) in
    if \<not> fs_exists w report_contract then
      Inl (RunError [Txt (head @ ''missing-report-contract'' @ here @ '' artifact='' @ path_str report_contract)]) else
    let expected_refs = map (\<lambda>(_, relpath). path_str (fs_resolve w (path_div run_root relpath))) (cm_derived_outputs manifest) in
    bnd (mapm (reference_target w manifest run_root summary_output device_path) (cm_required_references manifest)) (\<lambda>actual_refs.
    if actual_refs \<noteq> expected_refs then
      Inl (RunError [Txt (head @ ''reference-mismatch'' @ here @ '' expected=''), Rep (JArr (map JStr expected_refs)),
        Txt '' actual='', Rep (JArr (map JStr actual_refs))]) else
    bnd (each (\<lambda>(key, p). if \<not> fs_exists w p then Inl (RunError [Txt (head @ ''missing-derived-output output_key='' @
           key @ here @ '' artifact='' @ path_str p)]) else Inr ()) (summary_output_paths manifest run_root)) (\<lambda>_.
    Inr report_contract))))"

definition validate_report_references :: "path \<Rightarrow> claim_manifest \<Rightarrow> path \<Rightarrow> path \<Rightarrow> string \<Rightarrow> unit io" where
  "validate_report_references repo manifest run_root summary_output device_path =
    iobnd (look (\<lambda>w. check_report_references w repo manifest run_root summary_output device_path)) (\<lambda>report_contract.
    say [Txt (''phase=report-reference-validation verdict=pass'' @ phase_where run_root summary_output device_path @
      '' report_contract='' @ path_str report_contract @ '' report_path='' @ cm_report_path manifest)])"


section \<open>The run\<close>

record s04_args =
  s04_arg_manifest :: string
  s04_arg_validate_only :: bool
  s04_arg_run_root :: "string option"
  s04_arg_device_path :: "string option"
  s04_arg_software_timeout :: int
  s04_arg_idxd_timeout :: int
  s04_arg_summary_timeout :: int

definition run_root_of :: "world \<Rightarrow> path \<Rightarrow> claim_manifest \<Rightarrow> string option \<Rightarrow> path" where
  "run_root_of w repo manifest run_root_override =
    resolve_run_root w repo (if given run_root_override then the run_root_override else cm_run_root manifest)"

definition phase_env :: "world \<Rightarrow> (string, string) dict \<Rightarrow> path \<Rightarrow> string option \<Rightarrow> (string, string) dict" where
  "phase_env w environ run_root device_path_override =
    (let base = AList.update ''S03_OUTPUT_DIR'' (path_str (fs_resolve w (path_div run_root ''idxd'')))
           (AList.update ''S02_OUTPUT_DIR'' (path_str (fs_resolve w (path_div run_root ''software''))) environ) in
     if given device_path_override then AList.update ''S03_ACCELERATOR_DEVICE'' (the device_path_override) base else base)"

text \<open>The paths of the three scripts and the environment the phases share.\<close>

definition phase_setup :: "world \<Rightarrow> path \<Rightarrow> (string, string) dict \<Rightarrow> path \<Rightarrow> string option \<Rightarrow>
    (string, string) dict \<times> path \<times> path \<times> path" where
  "phase_setup w repo environ run_root device_path_override =
    (phase_env w environ run_root device_path_override,
     env_path w environ ''S04_VERIFY_S02_PATH'' (DEFAULT_S02_VERIFY repo),
     env_path w environ ''S04_VERIFY_S03_PATH'' (DEFAULT_S03_VERIFY repo),
     env_path w environ ''S04_SUMMARIZER_PATH'' (DEFAULT_SUMMARIZER repo))"

definition idxd_phase ::
    "host \<Rightarrow> path \<Rightarrow> (string, string) dict \<Rightarrow> claim_manifest \<Rightarrow> path \<Rightarrow> (string, string) dict \<Rightarrow> int \<Rightarrow> path \<Rightarrow> path \<Rightarrow> string \<Rightarrow> string io" where
  "idxd_phase h repo environ manifest s03_verify base_env timeout_s run_root summary_output device_path =
    try_except
      (iobnd (run_phase_command h ''idxd'' [''bash'', path_str s03_verify] base_env timeout_s run_root summary_output device_path)
        (\<lambda>_. ret device_path))
      is_run_error
      (\<lambda>err. if \<not> idxd_failure_allows_fallback err then raise_io err
        else seed_idxd_fallback h repo environ manifest run_root summary_output err)"

definition summary_command :: "path \<Rightarrow> path \<Rightarrow> path \<Rightarrow> string list" where
  "summary_command summarizer copied_manifest run_root =
    [''python3'', path_str summarizer, ''--manifest'', path_str copied_manifest, ''--run-root'', path_str run_root]"

text \<open>\<open>execute_run\<close> from the environment on, once the run root is prepared.\<close>

definition run_phases ::
    "host \<Rightarrow> path \<Rightarrow> (string, string) dict \<Rightarrow> claim_manifest \<Rightarrow> s04_args \<Rightarrow> path \<Rightarrow> path \<Rightarrow> path \<Rightarrow> string \<Rightarrow> unit io" where
  "run_phases h repo environ manifest args run_root summary_output copied_manifest device_path =
    iobnd (look (\<lambda>w. Inr (phase_setup w repo environ run_root (s04_arg_device_path args))))
      (\<lambda>(base_env, s02_verify, s03_verify, summarizer).
    iobnd (run_phase_command h ''software'' [''bash'', path_str s02_verify] base_env (s04_arg_software_timeout args)
             run_root summary_output device_path) (\<lambda>_.
    iobnd (idxd_phase h repo environ manifest s03_verify base_env (s04_arg_idxd_timeout args)
             run_root summary_output device_path) (\<lambda>device_path.
    iobnd (run_phase_command h ''summary'' (summary_command summarizer copied_manifest run_root) base_env
             (s04_arg_summary_timeout args) run_root summary_output device_path) (\<lambda>_.
    iobnd (look (\<lambda>w. validate_summary_outputs w manifest run_root summary_output device_path)) (\<lambda>_.
    iobnd (validate_report_references repo manifest run_root summary_output device_path) (\<lambda>_.
    say [Txt (''phase=done verdict=pass manifest='' @ path_str copied_manifest @
      phase_where run_root summary_output device_path)]))))))"

definition execute_run ::
    "host \<Rightarrow> path \<Rightarrow> (string, string) dict \<Rightarrow> path \<Rightarrow> claim_manifest \<Rightarrow> s04_args \<Rightarrow> unit io" where
  "execute_run h repo environ manifest_path manifest args =
    iobnd (look (\<lambda>w. Inr (run_root_of w repo manifest (s04_arg_run_root args)))) (\<lambda>run_root.
    let device_path = selected_device_path environ (s04_arg_device_path args) in
    iobnd (lift (summary_output_of manifest run_root)) (\<lambda>summary_output.
    iobnd (prepare_run_root h manifest_path manifest run_root) (\<lambda>copied_manifest.
    iobnd (copy_control_floor_reference h repo manifest run_root) (\<lambda>_.
    iobnd (log_artifact_plan manifest run_root device_path) (\<lambda>_.
    run_phases h repo environ manifest args run_root summary_output copied_manifest device_path)))))"

definition s04_body :: "host \<Rightarrow> path \<Rightarrow> (string, string) dict \<Rightarrow> s04_args \<Rightarrow> int io" where
  "s04_body h repo environ args =
    iobnd (look (\<lambda>w. Inr (fs_resolve w (path_of (s04_arg_manifest args))))) (\<lambda>manifest_path.
    iobnd (look (\<lambda>w. claim_load_manifest w repo manifest_path)) (\<lambda>manifest.
    iobnd (look (\<lambda>w. Inr (run_root_of w repo manifest (s04_arg_run_root args)))) (\<lambda>effective_run_root.
    iobnd (lift (summary_output_of manifest effective_run_root)) (\<lambda>effective_summary_path.
    iobnd (say [Txt (''phase=manifest-parse manifest='' @ path_str manifest_path @ '' run_root='' @
             path_str effective_run_root @ '' summary_path='' @ path_str effective_summary_path @ '' report_path='' @
             cm_report_path manifest @ '' families='' @ str_nat (length (cm_artifact_families manifest)))]) (\<lambda>_.
    if s04_arg_validate_only args then ret 0 else
    iobnd (execute_run h repo environ manifest_path manifest args) (\<lambda>_. ret 0))))))"

definition s04_main :: "host \<Rightarrow> path \<Rightarrow> (string, string) dict \<Rightarrow> s04_args \<Rightarrow> int io" where
  "s04_main h repo environ args = try_except (s04_body h repo environ args)
    is_script_error (\<lambda>err. iobnd (complain (exn_msg err)) (\<lambda>_. ret 1))"

end
