(* ===== verification/Traces.thy ===== *)
theory Traces
  imports Host
begin

text \<open>
  A logic for the child processes a script runs: \<open>run_log\<close> lists the \<open>subprocess.run\<close> calls among a
  sequence of events together with the outcome the host gave each of them, and \<open>emits h m L\<close> says
  that whenever \<open>m\<close> ends with outcome \<open>r\<close>, the calls it made are related to \<open>r\<close> by \<open>L\<close>.
\<close>

type_synonym call = "(string, string) dict \<times> string list \<times> int option"
type_synonym run_outcome = "(int \<times> string \<times> string) res"
type_synonym label = "call \<times> run_outcome"

text \<open>Every event of a script takes one tick, so an event's place in the sequence tells when it happened.\<close>

fun run_log :: "host \<Rightarrow> nat \<Rightarrow> event list \<Rightarrow> label list" where
  "run_log h k [] = []"
| "run_log h k (ev # evs) = (case ev of
     RunEnv env cmd timeout \<Rightarrow> [((env, cmd, timeout), h_run h (map lit cmd) k)] | _ \<Rightarrow> []) @ run_log h (Suc k) evs"

definition emits :: "host \<Rightarrow> 'a io \<Rightarrow> ('a res \<Rightarrow> label list \<Rightarrow> bool) \<Rightarrow> bool" where
  "emits h m L \<longleftrightarrow> (\<forall>s r t. m s = Some (r, t) \<longrightarrow>
     (\<exists>evs. events t = events s @ evs \<and> tick t = tick s + length evs \<and> L r (run_log h (tick s) evs)))"

abbreviation silent :: "host \<Rightarrow> 'a io \<Rightarrow> bool" where
  "silent h m \<equiv> emits h m (\<lambda>r log. log = [])"

named_theorems quietly \<open>computations that run no child process\<close>

lemma run_log_append: "run_log h k (xs @ ys) = run_log h k xs @ run_log h (k + length xs) ys"
  by (induction xs arbitrary: k) simp_all

lemma emitsD:
  assumes "emits h m L" "m s = Some (r, t)"
  shows "L r (run_log h (tick s) (drop (length (events s)) (events t)))"
  using assms unfolding emits_def by fastforce

lemma emits_weaken: "emits h m L \<Longrightarrow> (\<And>r log. L r log \<Longrightarrow> L' r log) \<Longrightarrow> emits h m L'"
  unfolding emits_def by blast

lemma emits_iobnd:
  assumes m: "emits h m L" and f: "\<And>x. emits h (f x) (M x)"
    and fail: "\<And>e log. L (Inl e) log \<Longrightarrow> N (Inl e) log"
    and go: "\<And>x r log log'. L (Inr x) log \<Longrightarrow> M x r log' \<Longrightarrow> N r (log @ log')"
  shows "emits h (iobnd m f) N"
  unfolding emits_def
proof (intro allI impI)
  fix s r t
  assume "iobnd m f s = Some (r, t)"
  then show "\<exists>evs. events t = events s @ evs \<and> tick t = tick s + length evs \<and> N r (run_log h (tick s) evs)"
  proof (cases rule: iobnd_cases)
    case (1 e)
    then show ?thesis using m fail unfolding emits_def by blast
  next
    case (2 x u)
    obtain a where a: "events u = events s @ a" "tick u = tick s + length a" "L (Inr x) (run_log h (tick s) a)"
      using m 2(1) unfolding emits_def by blast
    obtain b where b: "events t = events u @ b" "tick t = tick u + length b" "M x r (run_log h (tick u) b)"
      using f 2(2) unfolding emits_def by blast
    have "events t = events s @ (a @ b)" "tick t = tick s + length (a @ b)" "N r (run_log h (tick s) (a @ b))"
      using a b go by (simp_all add: run_log_append)
    then show ?thesis by blast
  qed
qed

text \<open>A step that runs nothing leaves what follows to tell; a look hands on a value of some state of the files.\<close>

lemma emits_quiet:
  "silent h m \<Longrightarrow> (\<And>x. emits h (f x) N) \<Longrightarrow> (\<And>e. N (Inl e) []) \<Longrightarrow> emits h (iobnd m f) N"
  by (rule emits_iobnd [where L = "\<lambda>r log. log = []" and M = "\<lambda>x. N"]) auto

lemma emits_say: "(\<And>x. emits h (f x) N) \<Longrightarrow> emits h (iobnd (say l) f) N"
  unfolding emits_def by (fastforce simp: iobnd_def say_def)

lemma emits_look:
  assumes "\<And>w x. g w = Inr x \<Longrightarrow> emits h (f x) N" "\<And>e. N (Inl e) []"
  shows "emits h (iobnd (look g) f) N"
  unfolding emits_def
proof (intro allI impI)
  fix s r t
  assume a: "iobnd (look g) f s = Some (r, t)"
  show "\<exists>evs. events t = events s @ evs \<and> tick t = tick s + length evs \<and> N r (run_log h (tick s) evs)"
  proof (cases "g (files s)")
    case (Inl e)
    then show ?thesis using a assms(2) by (auto simp: iobnd_def look_def)
  next
    case (Inr x)
    then have "f x s = Some (r, t)" using a by (simp add: iobnd_def look_def)
    then show ?thesis using assms(1) [OF Inr] unfolding emits_def by blast
  qed
qed

lemma emits_ret: "emits h (ret x) (\<lambda>r log. log = [] \<and> r = Inr x)"
  by (simp add: emits_def ret_def)

lemma emits_run_env:
  "emits h (run_env h env cmd timeout) (\<lambda>r log. log = [((env, cmd, timeout), r)])"
  unfolding emits_def run_env_def by auto

lemma emits_try_except:
  assumes m: "emits h m L" and f: "\<And>e. c e \<Longrightarrow> emits h (f e) (M e)"
    and pass: "\<And>r log. L r log \<Longrightarrow> (\<forall>e. r = Inl e \<longrightarrow> \<not> c e) \<Longrightarrow> N r log"
    and handle: "\<And>e r log log'. L (Inl e) log \<Longrightarrow> c e \<Longrightarrow> M e r log' \<Longrightarrow> N r (log @ log')"
  shows "emits h (try_except m c f) N"
  unfolding emits_def
proof (intro allI impI)
  fix s r t
  assume a: "try_except m c f s = Some (r, t)"
  then obtain r' u where mu: "m s = Some (r', u)" by (auto simp: try_except_def split: option.splits)
  then obtain x where x: "events u = events s @ x" "tick u = tick s + length x" "L r' (run_log h (tick s) x)"
    using m unfolding emits_def by blast
  show "\<exists>evs. events t = events s @ evs \<and> tick t = tick s + length evs \<and> N r (run_log h (tick s) evs)"
  proof (cases "\<exists>e. r' = Inl e \<and> c e")
    case True
    then obtain e where e: "r' = Inl e" "c e" by blast
    with a mu have "f e u = Some (r, t)" by (simp add: try_except_def)
    then obtain y where y: "events t = events u @ y" "tick t = tick u + length y" "M e r (run_log h (tick u) y)"
      using f [OF e(2)] unfolding emits_def by blast
    have "events t = events s @ (x @ y)" "tick t = tick s + length (x @ y)" "N r (run_log h (tick s) (x @ y))"
      using x y handle e by (simp_all add: run_log_append)
    then show ?thesis by blast
  next
    case False
    then have "r = r'" "u = t" using a mu by (auto simp: try_except_def split: sum.splits if_splits)
    then show ?thesis using x pass False by blast
  qed
qed

lemma quiet_basic [quietly]:
  "silent h (ret x)" "silent h (raise_io e)" "silent h (lift q)" "silent h (say l)" "silent h (complain l)"
  "silent h (look g)" "silent h (partial_output h)" "silent h (utc_now h)"
  by (auto simp: emits_def ret_def raise_io_def lift_def say_def complain_def look_def partial_output_def utc_now_def)

lemma quiet_calls [quietly]: "silent h (mkdir_p h p)" "silent h (write_with h p f)" "silent h (write_text h p u)"
  by (auto simp: emits_def mkdir_p_def write_with_def write_text_def split: option.splits)

lemma quiet_iobnd [quietly]: "silent h m \<Longrightarrow> (\<And>x. silent h (f x)) \<Longrightarrow> silent h (iobnd m f)"
  by (rule emits_quiet) auto

lemma quiet_copy [quietly]: "silent h (copy_file h p q)"
  unfolding copy_file_def by (intro quietly)

lemma quiet_if [quietly]: "(b \<Longrightarrow> silent h m) \<Longrightarrow> (\<not> b \<Longrightarrow> silent h n) \<Longrightarrow> silent h (if b then m else n)"
  by simp

lemma quiet_pair [quietly]: "(\<And>a b. silent h (f a b)) \<Longrightarrow> silent h (case p of (a, b) \<Rightarrow> f a b)"
  by (cases p) simp

lemma quiet_ioeach [quietly]: "(\<And>x. silent h (f x)) \<Longrightarrow> silent h (ioeach f xs)"
  by (induction xs) (simp_all add: quietly)

lemma quiet_iofold [quietly]: "(\<And>a x. silent h (f a x)) \<Longrightarrow> silent h (iofold f a xs)"
  by (induction xs arbitrary: a) (simp_all add: quietly)

end
