(* ===== verification/PackageRun.thy ===== *)
theory PackageRun
  imports S04_ClaimPackage Traces
begin

text \<open>
  What a run of the claim package does, seen from outside: an abstract machine whose steps are the
  child processes with their outcomes, the proof that \<open>execute_run\<close> only ever takes its steps, and
  what a successful or failed run implies.
\<close>

section \<open>The abstract machine\<close>

datatype stage = Fresh | Verified | Blocked | Accelerated | Complete | Stopped

record package =
  pk_software :: call
  pk_idxd :: call
  pk_idxd_error :: "run_outcome \<Rightarrow> string \<times> string \<Rightarrow> exn"
  pk_fallback :: "call \<Rightarrow> bool"
  pk_summary :: call

definition passed :: "run_outcome \<Rightarrow> bool" where
  "passed r = (case r of Inr (code, _) \<Rightarrow> code = 0 | Inl _ \<Rightarrow> False)"

text \<open>The accelerator phase that failed with a marker leaves the package blocked; only then may the
  fixture be verified in its place.\<close>

inductive package_step :: "package \<Rightarrow> stage \<Rightarrow> label \<Rightarrow> stage \<Rightarrow> bool" for P where
  software_ok: "passed r \<Longrightarrow> package_step P Fresh (pk_software P, r) Verified"
| software_bad: "\<not> passed r \<Longrightarrow> package_step P Fresh (pk_software P, r) Stopped"
| idxd_ok: "passed r \<Longrightarrow> package_step P Verified (pk_idxd P, r) Accelerated"
| idxd_marked: "\<not> passed r \<Longrightarrow> idxd_failure_allows_fallback (pk_idxd_error P r partial) \<Longrightarrow>
    package_step P Verified (pk_idxd P, r) Blocked"
| idxd_bad: "\<not> passed r \<Longrightarrow> package_step P Verified (pk_idxd P, r) Stopped"
| fallback_ok: "pk_fallback P c \<Longrightarrow> passed r \<Longrightarrow> package_step P Blocked (c, r) Accelerated"
| fallback_bad: "pk_fallback P c \<Longrightarrow> \<not> passed r \<Longrightarrow> package_step P Blocked (c, r) Stopped"
| summary_ok: "passed r \<Longrightarrow> package_step P Accelerated (pk_summary P, r) Complete"
| summary_bad: "\<not> passed r \<Longrightarrow> package_step P Accelerated (pk_summary P, r) Stopped"

inductive package_trace :: "package \<Rightarrow> stage \<Rightarrow> label list \<Rightarrow> stage \<Rightarrow> bool" for P where
  here [intro!]: "package_trace P q [] q"
| further: "package_step P q l q' \<Longrightarrow> package_trace P q' ls q'' \<Longrightarrow> package_trace P q (l # ls) q''"

inductive_cases package_step_from:
  "package_step P Fresh l q" "package_step P Verified l q" "package_step P Blocked l q"
  "package_step P Accelerated l q" "package_step P Complete l q" "package_step P Stopped l q"

inductive_cases package_trace_Nil [elim!]: "package_trace P q [] q'"
inductive_cases package_trace_Cons [elim!]: "package_trace P q (l # ls) q'"

lemma package_trace_one: "package_step P q l q' \<Longrightarrow> package_trace P q [l] q'"
  by (rule further) auto

lemma package_trace_append:
  "package_trace P q ls q' \<Longrightarrow> package_trace P q' ls' q'' \<Longrightarrow> package_trace P q (ls @ ls') q''"
  by (induction rule: package_trace.induct) (auto intro: further)

text \<open>Nothing happens after the machine has stopped or completed, and a package is complete only when the
  software evidence and the summary passed and the accelerator evidence passed or was replaced.\<close>

lemma package_halted: "package_trace P q ls q' \<Longrightarrow> q = Complete \<or> q = Stopped \<Longrightarrow> ls = []"
  by (induction rule: package_trace.induct) (auto elim: package_step_from)

lemma package_stopped: "package_trace P Stopped ls q \<Longrightarrow> q = Stopped"
  using package_halted [of P Stopped ls q] by (cases ls) auto

definition complete_run :: "package \<Rightarrow> label list \<Rightarrow> bool" where
  "complete_run P ls \<longleftrightarrow> (\<exists>a b c. passed a \<and> passed c \<and>
     (ls = [(pk_software P, a), (pk_idxd P, b), (pk_summary P, c)] \<and> passed b \<or>
      (\<exists>partial v d. ls = [(pk_software P, a), (pk_idxd P, b), (v, d), (pk_summary P, c)] \<and> pk_fallback P v \<and>
         \<not> passed b \<and> idxd_failure_allows_fallback (pk_idxd_error P b partial) \<and> passed d)))"

lemma complete_from_accelerated:
  assumes "package_trace P Accelerated ls Complete"
  shows "\<exists>c. ls = [(pk_summary P, c)] \<and> passed c"
  using assms by (cases ls) (auto elim!: package_step_from dest: package_halted)

lemma complete_from_verified:
  assumes "package_trace P Verified ls Complete"
  obtains b c where "ls = [(pk_idxd P, b), (pk_summary P, c)]" "passed b" "passed c"
  | b partial v d c where "ls = [(pk_idxd P, b), (v, d), (pk_summary P, c)]" "pk_fallback P v" "\<not> passed b"
      "idxd_failure_allows_fallback (pk_idxd_error P b partial)" "passed d" "passed c"
proof (cases ls)
  case (Cons l ls')
  then obtain q where q: "package_step P Verified l q" "package_trace P q ls' Complete" using assms by auto
  from q(1) show ?thesis
  proof cases
    case (idxd_ok r)
    then show ?thesis using that(1) Cons complete_from_accelerated q(2) by blast
  next
    case (idxd_marked r partial)
    with q(2) obtain m ms q' where m: "ls' = m # ms" "package_step P Blocked m q'" "package_trace P q' ms Complete"
      by (cases ls') auto
    from m(2) show ?thesis
    proof cases
      case (fallback_ok v r')
      then show ?thesis using that(2) Cons m idxd_marked complete_from_accelerated by blast
    next
      case (fallback_bad v r')
      then show ?thesis using m(3) package_stopped by fastforce
    qed
  next
    case (idxd_bad r)
    then show ?thesis using q(2) package_stopped by fastforce
  qed
qed (use assms in auto)

lemma complete_trace:
  assumes "package_trace P Fresh ls Complete"
  shows "complete_run P ls"
proof (cases ls)
  case (Cons l ls')
  then obtain q where q: "package_step P Fresh l q" "package_trace P q ls' Complete" using assms by auto
  from q(1) show ?thesis
  proof cases
    case (software_ok r)
    with q(2) have "package_trace P Verified ls' Complete" by simp
    then show ?thesis using software_ok Cons
      by (cases rule: complete_from_verified) (auto simp: complete_run_def)
  next
    case (software_bad r)
    then show ?thesis using q(2) package_stopped by fastforce
  qed
qed (use assms in auto)

section \<open>The run takes the steps of the machine\<close>

definition phase_error :: "string \<Rightarrow> string \<Rightarrow> int \<Rightarrow> run_outcome \<Rightarrow> string \<times> string \<Rightarrow> exn" where
  "phase_error phase here timeout_s r partial = (case r of
     Inr (code, stdout, stderr) \<Rightarrow>
       with_output (''phase='' @ phase @ '' outcome=error'' @ here @ '' exit_code='' @ str_int code) stdout stderr
   | Inl e \<Rightarrow> if e = TimeoutExpired
       then with_output (''phase='' @ phase @ '' outcome=timeout'' @ here @ '' timeout_s='' @ str_int timeout_s)
         (fst partial) (snd partial) else e)"

text \<open>One child process ran, and its outcome determines the result.\<close>

definition ran :: "call \<Rightarrow> (run_outcome \<Rightarrow> 'a res \<Rightarrow> bool) \<Rightarrow> 'a res \<Rightarrow> label list \<Rightarrow> bool" where
  "ran c Q r ls \<longleftrightarrow> (\<exists>q. ls = [(c, q)] \<and> Q q r)"

definition phase_result :: "(run_outcome \<Rightarrow> string \<times> string \<Rightarrow> exn) \<Rightarrow> run_outcome \<Rightarrow> unit res \<Rightarrow> bool" where
  "phase_result err q r \<longleftrightarrow> (if passed q then r = Inr () else \<exists>partial. r = Inl (err q partial))"

lemma ran_mono: "ran c Q r ls \<Longrightarrow> (\<And>q. Q q r \<Longrightarrow> Q' q r') \<Longrightarrow> ran c Q' r' ls"
  by (auto simp: ran_def)

lemma passed_simps [simp]: "passed (Inl e) = False" "passed (Inr x) = (fst x = 0)"
  by (simp_all add: passed_def case_prod_unfold)

definition guarded_result :: "(run_outcome \<Rightarrow> string \<times> string \<Rightarrow> exn) \<Rightarrow> run_outcome \<Rightarrow> run_outcome \<Rightarrow> bool" where
  "guarded_result err q r \<longleftrightarrow> (if isl q then \<exists>partial. r = Inl (err q partial) else r = q)"

lemma guarded_cases:
  assumes "guarded_result err q r"
  obtains x where "q = Inr x" "r = Inr x" | e partial where "q = Inl e" "r = Inl (err (Inl e) partial)"
  using assms by (cases q) (auto simp: guarded_result_def)

lemma guarded_run_emits:
  "emits h (try_except (run_env h env command (Some timeout_s)) (\<lambda>e. e = TimeoutExpired) (\<lambda>_.
      iobnd (partial_output h) (\<lambda>(stdout, stderr). raise_io (with_output
        (''phase='' @ phase @ '' outcome=timeout'' @ here @ '' timeout_s='' @ str_int timeout_s) stdout stderr))))
    (ran (env, command, Some timeout_s) (guarded_result (phase_error phase here timeout_s)))"
proof (rule emits_try_except [OF emits_run_env])
  show "emits h (iobnd (partial_output h) (\<lambda>(stdout, stderr). raise_io (with_output
        (''phase='' @ phase @ '' outcome=timeout'' @ here @ '' timeout_s='' @ str_int timeout_s) stdout stderr)))
      (\<lambda>r log. log = [] \<and> (\<exists>partial. r = Inl (phase_error phase here timeout_s (Inl TimeoutExpired) partial)))"
    for e :: exn
    by (auto simp: emits_def iobnd_def partial_output_def raise_io_def case_prod_unfold phase_error_def)
qed (auto simp: ran_def guarded_result_def phase_error_def isl_def)

lemma finished_run_emits:
  "emits h (iobnd (emit_completed_process_output stdout stderr) (\<lambda>_. if (code :: int) \<noteq> 0 then raise_io e else say l))
    (\<lambda>r log. log = [] \<and> r = (if code = 0 then Inr () else Inl e))"
  by (auto simp: emits_def emit_completed_process_output_def iobnd_def say_def complain_def ret_def raise_io_def
      split: if_splits)

lemma run_phase_emits:
  "emits h (run_phase_command h phase command env timeout_s run_root summary_output device_path)
    (ran (env, command, Some timeout_s)
      (phase_result (phase_error phase (phase_where run_root summary_output device_path) timeout_s)))"
    (is "emits h _ (ran ?c (phase_result ?err))")
  unfolding run_phase_command_def Let_def
proof (rule emits_say, rule emits_iobnd [OF guarded_run_emits])
  let ?here = "phase_where run_root summary_output device_path"
  show "emits h (case x of (code, stdout, stderr) \<Rightarrow> iobnd (emit_completed_process_output stdout stderr) (\<lambda>_.
      if code \<noteq> 0 then raise_io (with_output (''phase='' @ phase @ '' outcome=error'' @ ?here @ '' exit_code='' @
        str_int code) stdout stderr)
      else say [Txt (''phase='' @ phase @ ''-done'' @ ?here @ '' exit_code='' @ str_int code)]))
    (\<lambda>r log. log = [] \<and> r = (if fst x = 0 then Inr () else Inl (phase_error phase ?here timeout_s (Inr x) ([], []))))" for x
  proof -
    obtain code so se where x: "x = (code, so, se)" by (cases x)
    show ?thesis unfolding x prod.case phase_error_def sum.case fst_conv by (rule finished_run_emits)
  qed
next
  fix e log
  assume "ran ?c (guarded_result ?err) (Inl e) log"
  then show "ran ?c (phase_result ?err) (Inl e) log"
    by (rule ran_mono) (auto simp: phase_result_def elim!: guarded_cases)
next
  fix x r and log log' :: "label list"
  assume "ran ?c (guarded_result ?err) (Inr x) log"
    and r: "log' = [] \<and> r = (if fst x = 0 then Inr () else Inl (?err (Inr x) ([], [])))"
  then show "ran ?c (phase_result ?err) r (log @ log')"
    unfolding r [THEN conjunct1] append_Nil2
    by (elim ran_mono guarded_cases) (use r in \<open>auto simp: phase_result_def\<close>)
qed

text \<open>\<open>advances\<close>: the calls of a computation take the machine from one stage to another, unless it raises;
  then they take it somewhere.\<close>

definition advances :: "host \<Rightarrow> package \<Rightarrow> stage \<Rightarrow> 'a io \<Rightarrow> stage \<Rightarrow> bool" where
  "advances h P q m q' \<longleftrightarrow> emits h m (\<lambda>r ls. \<exists>z. package_trace P q ls z \<and> (\<not> isl r \<longrightarrow> z = q'))"

lemma advances_seq:
  assumes "advances h P q m q1" "\<And>x. advances h P q1 (f x) q2"
  shows "advances h P q (iobnd m f) q2"
  using assms unfolding advances_def
  by (rule emits_iobnd) (auto intro: package_trace_append)

lemma advances_silent: "silent h m \<Longrightarrow> advances h P q m q"
  unfolding advances_def by (erule emits_weaken) auto

lemma advances_raise: "advances h P q (raise_io e) q'"
  by (auto simp: advances_def emits_def raise_io_def)

lemma if_advances:
  "(b \<Longrightarrow> advances h P q m q') \<Longrightarrow> (\<not> b \<Longrightarrow> advances h P q n q') \<Longrightarrow> advances h P q (if b then m else n) q'"
  by simp

lemma advances_look: "(\<And>w x. g w = Inr x \<Longrightarrow> advances h P q (f x) q') \<Longrightarrow> advances h P q (iobnd (look g) f) q'"
  unfolding advances_def by (rule emits_look) auto

lemma advances_lift: "(\<And>x. r = Inr x \<Longrightarrow> advances h P q (f x) q') \<Longrightarrow> advances h P q (iobnd (lift r) f) q'"
proof -
  assume a: "\<And>x. r = Inr x \<Longrightarrow> advances h P q (f x) q'"
  have "lift r = look (\<lambda>_. r)" by (simp add: fun_eq_iff lift_def look_def)
  then show ?thesis using a by (simp add: advances_look)
qed

lemma advances_quiet: "silent h m \<Longrightarrow> (\<And>x. advances h P q (f x) q') \<Longrightarrow> advances h P q (iobnd m f) q'"
  by (rule advances_seq [OF advances_silent])

lemma advances_phase:
  assumes "\<And>r. passed r \<Longrightarrow> package_step P q (c, r) q'" "\<And>r. \<not> passed r \<Longrightarrow> package_step P q (c, r) Stopped"
    and "emits h m (ran c (phase_result err))"
  shows "advances h P q m q'"
  unfolding advances_def using assms(3)
proof (rule emits_weaken)
  fix r ls
  assume "ran c (phase_result err) r ls"
  then obtain x where x: "ls = [(c, x)]" "phase_result err x r" by (auto simp: ran_def)
  have "package_trace P q ls (if passed x then q' else Stopped)"
    unfolding x(1) using assms(1,2) by (auto intro!: package_trace_one)
  then show "\<exists>z. package_trace P q ls z \<and> (\<not> isl r \<longrightarrow> z = q')"
    using x(2) by (cases "passed x") (auto simp: phase_result_def)
qed

lemma seed_silent: "silent h (seed_reports h manifest source_dir destination_dir e)"
  unfolding seed_reports_def seed_report_def Let_def by (intro quietly)

lemma fallback_tail:
  assumes "pk_fallback P (environ, cmd, None)"
  shows "advances h P Blocked (iobnd (run_env h environ cmd None) (\<lambda>(code, stdout, stderr).
      iobnd (emit_completed_process_output stdout stderr) (\<lambda>_.
      if code \<noteq> 0 then raise_io (err code stdout stderr) else iobnd (say l) (\<lambda>_. ret x)))) Accelerated"
  unfolding advances_def
proof (rule emits_iobnd [OF emits_run_env])
  show "emits h (case y of (code, stdout, stderr) \<Rightarrow> iobnd (emit_completed_process_output stdout stderr) (\<lambda>_.
      if code \<noteq> 0 then raise_io (err code stdout stderr) else iobnd (say l) (\<lambda>_. ret x)))
    (\<lambda>r ls. ls = [] \<and> isl r = (fst y \<noteq> 0))" for y
    by (cases y) (auto simp: emits_def emit_completed_process_output_def iobnd_def say_def complain_def ret_def
        raise_io_def split: if_splits)
next
  fix y :: "int \<times> string \<times> string" and r :: "'a res" and ls ls' :: "label list"
  assume "ls = [((environ, cmd, None), Inr y)]" "ls' = [] \<and> isl r = (fst y \<noteq> 0)"
  moreover have "package_trace P Blocked [((environ, cmd, None), Inr y)] (if fst y = 0 then Accelerated else Stopped)"
    using assms by (auto intro!: package_trace_one fallback_ok fallback_bad)
  ultimately show "\<exists>z. package_trace P Blocked (ls @ ls') z \<and> (\<not> isl r \<longrightarrow> z = Accelerated)"
    by (intro exI [of _ "if fst y = 0 then Accelerated else Stopped"]) simp
qed (use assms in \<open>auto intro!: exI package_trace_one fallback_bad\<close>)

lemma seed_advances:
  assumes "\<And>w device idxd_manifest. key_item (cm_inputs manifest) ''idxd_manifest'' = Inr idxd_manifest \<Longrightarrow>
    pk_fallback P (environ, fallback_command repo (env_path w environ ''S04_S03_RUNNER_PATH'' (DEFAULT_S03_RUNNER repo))
      idxd_manifest (path_div run_root ''idxd'') device, None)"
  shows "advances h P Blocked (seed_idxd_fallback h repo environ manifest run_root summary_output e) Accelerated"
  unfolding seed_idxd_fallback_def Let_def
  by (intro advances_look advances_lift advances_quiet [OF seed_silent] advances_quiet [OF quiet_basic(4)]
      fallback_tail advances_raise if_advances) (auto intro: assms)

definition package_of ::
    "path \<Rightarrow> (string, string) dict \<Rightarrow> claim_manifest \<Rightarrow> s04_args \<Rightarrow> path \<Rightarrow> path \<Rightarrow> world \<Rightarrow> package" where
  "package_of repo environ manifest args run_root summary_output w =
    (let (env, s02_verify, s03_verify, summarizer) = phase_setup w repo environ run_root (s04_arg_device_path args);
         device_path = selected_device_path environ (s04_arg_device_path args) in
     \<lparr>pk_software = (env, [''bash'', path_str s02_verify], Some (s04_arg_software_timeout args)),
      pk_idxd = (env, [''bash'', path_str s03_verify], Some (s04_arg_idxd_timeout args)),
      pk_idxd_error = phase_error ''idxd'' (phase_where run_root summary_output device_path) (s04_arg_idxd_timeout args),
      pk_fallback = (\<lambda>c. \<exists>w' device idxd_manifest. map_of (cm_inputs manifest) ''idxd_manifest'' = Some idxd_manifest \<and>
        c = (environ, fallback_command repo (env_path w' environ ''S04_S03_RUNNER_PATH'' (DEFAULT_S03_RUNNER repo))
          idxd_manifest (path_div run_root ''idxd'') device, None)),
      pk_summary = (env, summary_command summarizer (manifest_copy_path run_root) run_root,
        Some (s04_arg_summary_timeout args))\<rparr>)"

lemma idxd_advances:
  assumes c: "pk_idxd P = (base_env, [''bash'', path_str s03_verify], Some timeout_s)"
    and e: "pk_idxd_error P = phase_error ''idxd'' (phase_where run_root summary_output device_path) timeout_s"
    and s: "\<And>e. advances h P Blocked (seed_idxd_fallback h repo environ manifest run_root summary_output e) Accelerated"
  shows "advances h P Verified
    (idxd_phase h repo environ manifest s03_verify base_env timeout_s run_root summary_output device_path) Accelerated"
  unfolding advances_def idxd_phase_def
proof (rule emits_try_except)
  show "emits h (iobnd (run_phase_command h ''idxd'' [''bash'', path_str s03_verify] base_env timeout_s run_root
      summary_output device_path) (\<lambda>_. ret device_path))
    (ran (pk_idxd P) (\<lambda>q r. if passed q then \<not> isl r else \<exists>partial. r = Inl (pk_idxd_error P q partial)))"
    unfolding c e
    by (rule emits_iobnd [OF run_phase_emits emits_ret])
      (auto elim!: ran_mono simp: phase_result_def ret_def split: if_splits)
  show "emits h (if \<not> idxd_failure_allows_fallback err then raise_io err
      else seed_idxd_fallback h repo environ manifest run_root summary_output err)
    (\<lambda>r ls. if idxd_failure_allows_fallback err then \<exists>z. package_trace P Blocked ls z \<and> (\<not> isl r \<longrightarrow> z = Accelerated)
      else ls = [] \<and> isl r)" for err
    using s [unfolded advances_def, of err] by (auto simp: emits_def raise_io_def)
qed (auto simp: ran_def split: if_splits intro!: package_trace_one intro: idxd_ok idxd_bad further [OF idxd_marked] exI)

lemma prepare_silent:
  "silent h (prepare_run_root h manifest_path manifest run_root)"
  "silent h (copy_control_floor_reference h repo manifest run_root)"
  "silent h (log_artifact_plan manifest run_root device_path)"
  unfolding prepare_run_root_def copy_control_floor_reference_def log_artifact_plan_def Let_def
  by (intro quietly)+

lemma prepare_copies:
  assumes "prepare_run_root h manifest_path manifest run_root s = Some (Inr p, t)"
  shows "p = manifest_copy_path run_root"
  using assms by (auto simp: prepare_run_root_def Let_def io_iff)

text \<open>The phases, once the run root is prepared.\<close>

text \<open>The phases, once the run root is prepared, and then all of \<open>execute_run\<close>.\<close>

lemma phases_advance:
  fixes repo environ manifest args run_root summary_output w
  defines "P \<equiv> package_of repo environ manifest args run_root summary_output w"
    and "d0 \<equiv> selected_device_path environ (s04_arg_device_path args)"
  shows "advances h P Fresh (case phase_setup w repo environ run_root (s04_arg_device_path args) of
      (base_env, s02_verify, s03_verify, summarizer) \<Rightarrow>
    iobnd (run_phase_command h ''software'' [''bash'', path_str s02_verify] base_env (s04_arg_software_timeout args)
             run_root summary_output d0) (\<lambda>_.
    iobnd (idxd_phase h repo environ manifest s03_verify base_env (s04_arg_idxd_timeout args)
             run_root summary_output d0) (\<lambda>device_path.
    iobnd (run_phase_command h ''summary'' (summary_command summarizer (manifest_copy_path run_root) run_root) base_env
             (s04_arg_summary_timeout args) run_root summary_output device_path) (\<lambda>_.
    iobnd (look (\<lambda>w. validate_summary_outputs w manifest run_root summary_output device_path)) (\<lambda>_.
    iobnd (validate_report_references repo manifest run_root summary_output device_path) (\<lambda>_.
    say (done_line device_path))))))) Complete"
proof -
  obtain base_env s02 s03 summarizer where e: "phase_setup w repo environ run_root (s04_arg_device_path args) =
      (base_env, s02, s03, summarizer)" by (metis prod_cases4)
  have P: "pk_software P = (base_env, [''bash'', path_str s02], Some (s04_arg_software_timeout args))"
    "pk_idxd P = (base_env, [''bash'', path_str s03], Some (s04_arg_idxd_timeout args))"
    "pk_idxd_error P = phase_error ''idxd'' (phase_where run_root summary_output d0) (s04_arg_idxd_timeout args)"
    "pk_summary P = (base_env, summary_command summarizer (manifest_copy_path run_root) run_root,
       Some (s04_arg_summary_timeout args))"
    by (simp_all add: P_def d0_def package_of_def e)
  have f: "pk_fallback P (environ, fallback_command repo (env_path w' environ ''S04_S03_RUNNER_PATH''
      (DEFAULT_S03_RUNNER repo)) idxd_manifest (path_div run_root ''idxd'') device, None)"
    if "key_item (cm_inputs manifest) ''idxd_manifest'' = Inr idxd_manifest" for w' device idxd_manifest
    using that by (auto simp: P_def package_of_def e key_item_def split: option.splits)
  have tail: "silent h (iobnd (look g) (\<lambda>_. iobnd (validate_report_references repo manifest run_root summary_output d) (\<lambda>_. say l)))"
    for g d l unfolding validate_report_references_def by (intro quietly)
  have sw: "advances h P Fresh (run_phase_command h ''software'' [''bash'', path_str s02] base_env
      (s04_arg_software_timeout args) run_root summary_output d) Verified" for d
    by (rule advances_phase [OF _ _ run_phase_emits], unfold P(1) [symmetric]) (rule software_ok software_bad; assumption)+
  have ix: "advances h P Verified (idxd_phase h repo environ manifest s03 base_env (s04_arg_idxd_timeout args)
      run_root summary_output d0) Accelerated"
    by (rule idxd_advances [OF P(2,3)], rule seed_advances, rule f)
  have sm: "advances h P Accelerated (run_phase_command h ''summary'' (summary_command summarizer
      (manifest_copy_path run_root) run_root) base_env (s04_arg_summary_timeout args) run_root summary_output d) Complete" for d
    by (rule advances_phase [OF _ _ run_phase_emits], unfold P(4) [symmetric]) (rule summary_ok summary_bad; assumption)+
  show ?thesis unfolding e prod.case
    by (rule advances_seq [OF sw], rule advances_seq [OF ix], rule advances_seq [OF sm], rule advances_silent [OF tail])
qed

lemma phases_emit:
  "emits h (run_phases h repo environ manifest args run_root summary_output (manifest_copy_path run_root)
      (selected_device_path environ (s04_arg_device_path args)))
    (\<lambda>r ls. \<exists>w z. package_trace (package_of repo environ manifest args run_root summary_output w) Fresh ls z \<and>
      (\<not> isl r \<longrightarrow> z = Complete))"
  unfolding run_phases_def
  by (rule emits_look, simp only: sum.inject, hypsubst, rule emits_weaken, rule phases_advance [unfolded advances_def]) (blast, auto)

lemma prepare_then:
  "iobnd (prepare_run_root h manifest_path manifest run_root) f =
   iobnd (prepare_run_root h manifest_path manifest run_root) (\<lambda>_. f (manifest_copy_path run_root))"
  by (auto simp: fun_eq_iff iobnd_def split: option.splits sum.splits dest: prepare_copies)

lemma loaded_summary_output:
  assumes "claim_load_manifest w repo p = Inr manifest"
  shows "summary_output_of manifest run_root = Inr (path_div run_root ''summary/comparison_summary.json'')"
proof -
  have "cm_derived_outputs manifest = EXPECTED_DERIVED_OUTPUTS" using assms by (rule claim_load_manifest_Inr)
  then show ?thesis
    by (simp add: summary_output_of_def key_item_def summary_output_paths_def EXPECTED_DERIVED_OUTPUTS_def)
qed

definition package_at :: "path \<Rightarrow> (string, string) dict \<Rightarrow> claim_manifest \<Rightarrow> s04_args \<Rightarrow> path \<Rightarrow> world \<Rightarrow> package" where
  "package_at repo environ manifest args run_root w =
    package_of repo environ manifest args run_root (path_div run_root ''summary/comparison_summary.json'') w"

lemma execute_simulates:
  assumes m: "claim_load_manifest w0 repo p = Inr manifest"
    and run: "execute_run h repo environ manifest_path manifest args s = Some (r, t)"
  shows "\<exists>w z. package_trace (package_at repo environ manifest args
        (run_root_of (files s) repo manifest (s04_arg_run_root args)) w) Fresh
      (run_log h (tick s) (drop (length (events s)) (events t))) z \<and> (\<not> isl r \<longrightarrow> z = Complete)"
proof -
  define run_root where "run_root = run_root_of (files s) repo manifest (s04_arg_run_root args)"
  define so where "so = path_div run_root ''summary/comparison_summary.json''"
  let ?d = "selected_device_path environ (s04_arg_device_path args)"
  define rest where "rest = iobnd (prepare_run_root h manifest_path manifest run_root) (\<lambda>copied_manifest.
    iobnd (copy_control_floor_reference h repo manifest run_root) (\<lambda>_.
    iobnd (log_artifact_plan manifest run_root ?d) (\<lambda>_.
    run_phases h repo environ manifest args run_root so copied_manifest ?d)))"
  have "rest s = Some (r, t)"
    using run unfolding execute_run_def Let_def
    by (simp add: iobnd_def [of "look _"] iobnd_def [of "lift _"] look_def lift_def loaded_summary_output [OF m]
        rest_def so_def run_root_def)
  moreover have "emits h rest (\<lambda>r ls. \<exists>w z. package_trace (package_at repo environ manifest args run_root w) Fresh ls z \<and>
      (\<not> isl r \<longrightarrow> z = Complete))"
    unfolding rest_def package_at_def so_def [symmetric]
    by (subst prepare_then, intro emits_quiet [OF prepare_silent(1)] emits_quiet [OF prepare_silent(2)] emits_quiet [OF prepare_silent(3)]
        phases_emit) auto
  ultimately show ?thesis unfolding run_root_def by (rule emitsD [rotated])
qed

section \<open>What a run implies\<close>


lemma validate_summary_outputs_iff [res_iff]:
  "validate_summary_outputs w manifest run_root so d = Inr u \<longleftrightarrow>
    (\<forall>(k, p) \<in> set (summary_output_paths manifest run_root). fs_exists w p \<and> 0 < fs_size w p)"
  by (auto simp: validate_summary_outputs_def Let_def each_Inr_iff split: if_splits)

lemma run_phases_checks:
  assumes "run_phases h repo environ manifest args run_root so c d s = Some (Inr (), t)"
  shows "\<forall>(k, p) \<in> set (summary_output_paths manifest run_root). fs_exists (files t) p \<and> 0 < fs_size (files t) p"
proof -
  obtain a1 a2 a3 a4 where "phase_setup (files s) repo environ run_root (s04_arg_device_path args) = (a1, a2, a3, a4)"
    by (metis prod_cases4)
  then show ?thesis using assms
    by (auto simp: run_phases_def validate_report_references_def iobnd_iff look_iff say_iff validate_summary_outputs_iff)
qed

lemma execute_run_checks:
  assumes "execute_run h repo environ manifest_path manifest args s = Some (Inr (), t)"
  shows "\<forall>(k, p) \<in> set (summary_output_paths manifest (run_root_of (files s) repo manifest (s04_arg_run_root args))).
    fs_exists (files t) p \<and> 0 < fs_size (files t) p"
  using assms by (auto simp: execute_run_def Let_def io_iff dest!: run_phases_checks)

text \<open>\<open>main\<close> after the manifest is loaded.\<close>

lemma s04_main_Inr:
  assumes "s04_main h repo environ args s = Some (Inr 0, t)" "\<not> s04_arg_validate_only args"
  obtains manifest l where
    "claim_load_manifest (files s) repo (fs_resolve (files s) (path_of (s04_arg_manifest args))) = Inr manifest"
    "execute_run h repo environ (fs_resolve (files s) (path_of (s04_arg_manifest args))) manifest args
       (s\<lparr>out_log := out_log s @ [l]\<rparr>) = Some (Inr (), t)"
  using assms by (auto simp: s04_main_def s04_body_def try_except_def iobnd_def look_def lift_def say_def complain_def ret_def
      split: option.splits sum.splits if_splits prod.splits)


section \<open>When a run succeeds\<close>

text \<open>For a loaded package the references of the report always match the outputs.\<close>

lemma reference_targets:
  assumes m: "claim_load_manifest w0 repo p = Inr manifest"
  shows "mapm (reference_target w manifest run_root so d) (cm_required_references manifest) =
    Inr (map (\<lambda>(_, relpath). path_str (fs_resolve w (path_div run_root relpath))) (cm_derived_outputs manifest))"
proof -
  have r: "cm_run_root manifest = S04_RUN_ROOT" using m by (rule claim_load_manifest_Inr)
  have d: "cm_derived_outputs manifest = EXPECTED_DERIVED_OUTPUTS" using m by (rule claim_load_manifest_Inr)
  have q: "cm_required_references manifest = expected_report_references S04_RUN_ROOT" using m by (rule claim_load_manifest_Inr)
  have "reference_target w manifest run_root so d (S04_RUN_ROOT @ ''/'' @ v) =
      Inr (path_str (fs_resolve w (path_div run_root v)))" for v
    unfolding reference_target_def r Let_def using startswith_append [of "S04_RUN_ROOT @ ''/''" v]
    by (simp add: removeprefix_def)
  then show ?thesis unfolding q d expected_report_references_def EXPECTED_DERIVED_OUTPUTS_def by simp
qed

lemma check_references_iff:
  assumes m: "claim_load_manifest w0 repo p = Inr manifest"
  shows "check_report_references w repo manifest run_root so d = Inr rc \<longleftrightarrow>
    (\<exists>raw. map_of (cm_inputs manifest) ''report_contract'' = Some raw \<and> rc = fs_resolve w (resolve_repo_path repo raw) \<and>
      fs_exists w rc \<and> (\<forall>(k, p) \<in> set (summary_output_paths manifest run_root). fs_exists w p))"
proof -
  have e: "each (\<lambda>(key, p). if \<not> fs_exists w p then Inl (f key p) else Inr ()) xs = Inr () \<longleftrightarrow>
      (\<forall>(k, p) \<in> set xs. fs_exists w p)" for f :: "string \<Rightarrow> path \<Rightarrow> exn" and xs
    by (auto simp: each_Inr_iff split: if_splits)
  show ?thesis
    unfolding check_report_references_def Let_def reference_targets [OF m]
    by (cases "map_of (cm_inputs manifest) ''report_contract''") (auto simp: bnd_Inr_iff key_item_def e)
qed

text \<open>A host that grants the runner's writes, on which every child process passes, and on which nothing
  is deleted or made unreadable while the run is going.\<close>

definition granting :: "host \<Rightarrow> bool" where
  "granting h \<longleftrightarrow> (\<forall>p k. h_mkdir h p k = None \<and> h_write h p k = None)"

definition all_pass :: "host \<Rightarrow> bool" where
  "all_pass h \<longleftrightarrow> (\<forall>cmd k. passed (h_run h cmd k))"

definition persists :: "world \<Rightarrow> world \<Rightarrow> bool" where
  "persists w w' \<longleftrightarrow> fs_resolve w' = fs_resolve w \<and> (\<forall>p. fs_exists w p \<longrightarrow> fs_exists w' p) \<and>
     (\<forall>p. \<not> isl (fs_read w p) \<longrightarrow> \<not> isl (fs_read w' p))"

definition nothing_lost :: "host \<Rightarrow> bool" where
  "nothing_lost h \<longleftrightarrow> (\<forall>k w. persists w (h_drift h k w))"

lemma persists_refl [simp]: "persists w w"
  by (simp add: persists_def)

lemma persists_trans: "persists u v \<Longrightarrow> persists v w \<Longrightarrow> persists u w"
  by (simp add: persists_def)

lemma persists_put_text: "persists w (put_text p t w)"
  by (auto simp: persists_def put_text_def)

lemma persists_put_copy: "\<not> isl (fs_read w p) \<Longrightarrow> persists w (put_copy p q w)"
  by (auto simp: persists_def put_copy_def)

text \<open>\<open>can m s x n\<close>: from \<open>s\<close>, \<open>m\<close> returns \<open>x\<close> after \<open>n\<close> external calls, with nothing lost.\<close>

definition can :: "'a io \<Rightarrow> mach \<Rightarrow> 'a \<Rightarrow> nat \<Rightarrow> bool" where
  "can m s x n \<longleftrightarrow> (\<exists>t. m s = Some (Inr x, t) \<and> tick t = tick s + n \<and> persists (files s) (files t))"

named_theorems goes \<open>computations that cannot fail on a supportive host\<close>

lemma can_seq:
  assumes "can m s x n" "\<And>u. persists (files s) (files u) \<Longrightarrow> tick u = tick s + n \<Longrightarrow> can (f x) u y k"
  shows "can (iobnd m f) s y (n + k)"
proof -
  obtain u where u: "m s = Some (Inr x, u)" "tick u = tick s + n" "persists (files s) (files u)"
    using assms(1) by (auto simp: can_def)
  then obtain t where "f x u = Some (Inr y, t)" "tick t = tick u + k" "persists (files u) (files t)"
    using assms(2) by (auto simp: can_def)
  with u show ?thesis by (auto simp: can_def iobnd_def intro: persists_trans)
qed

lemma can_basic [goes]: "can (ret x) s x 0" "can (lift (Inr x)) s x 0" "can (say l) s () 0"
  by (simp_all add: can_def ret_def lift_def say_def)

lemma can_look:
  assumes "\<not> isl (g (files s))" "\<And>x. g (files s) = Inr x \<Longrightarrow> can (f x) s y k"
  shows "can (iobnd (look g) f) s y k"
  using assms by (cases "g (files s)") (simp_all add: can_def iobnd_def look_def)

lemma can_mkdir [goes]: "granting h \<Longrightarrow> nothing_lost h \<Longrightarrow> can (mkdir_p h p) s () 1"
  by (simp add: can_def mkdir_p_def granting_def nothing_lost_def ext_def)

lemma can_write [goes]: "granting h \<Longrightarrow> nothing_lost h \<Longrightarrow> can (write_text h p u) s () 1"
  using persists_trans [OF _ persists_put_text]
  by (simp add: can_def write_text_def write_with_def granting_def nothing_lost_def ext_def)

lemma can_copy:
  assumes "granting h" "nothing_lost h" "fs_exists (files s) p" "\<not> isl (fs_read (files s) p)"
    "fs_resolve (files s) p \<noteq> fs_resolve (files s) q"
  shows "can (copy_file h p q) s () 1"
proof -
  have "persists (files s) (h_drift h (tick s) (files s))" using assms(2) by (simp add: nothing_lost_def)
  moreover from this have "\<not> isl (fs_read (h_drift h (tick s) (files s)) p)" using assms(4) by (simp add: persists_def)
  ultimately show ?thesis using assms persists_trans [OF _ persists_put_copy]
    by (simp add: can_def copy_file_def write_with_def iobnd_def look_def granting_def ext_def)
qed

lemma can_each: "(\<And>x s. can (f x) s () 0) \<Longrightarrow> can (ioeach f xs) s () 0"
proof (induction xs arbitrary: s)
  case Nil
  show ?case by (simp add: goes)
next
  case (Cons x xs)
  then show ?case using can_seq [of "f x" s "()" 0 "\<lambda>_. ioeach f xs" "()" 0] by simp
qed

lemma run_phase_passes:
  assumes "all_pass h"
  shows "\<exists>t. run_phase_command h phase command env timeout_s run_root so d s = Some (Inr (), t) \<and>
    tick t = Suc (tick s) \<and> files t = h_drift h (tick s) (files s)"
proof -
  have "passed (h_run h (map lit command) (tick s))" using assms by (simp add: all_pass_def)
  then obtain o1 o2 where r: "h_run h (map lit command) (tick s) = Inr (0, o1, o2)"
    by (cases "h_run h (map lit command) (tick s)") auto
  then show ?thesis
    by (simp add: run_phase_command_def Let_def iobnd_def say_def try_except_def run_env_def
        emit_completed_process_output_def complain_def ret_def ext_def)
qed

lemma can_run_phase [goes]:
  assumes "all_pass h" "nothing_lost h"
  shows "can (run_phase_command h phase command env timeout_s run_root so d) s () 1"
  using run_phase_passes [OF assms(1)] assms(2) by (fastforce simp: can_def nothing_lost_def)

lemma can_look_eq: "g (files s) = Inr x \<Longrightarrow> can (f x) s y k \<Longrightarrow> can (iobnd (look g) f) s y k"
  by (simp add: can_def iobnd_def look_def)

lemma prepare_can:
  assumes h: "granting h" "nothing_lost h" and so: "summary_output_of manifest run_root = Inr so"
    and r: "\<not> isl (fs_read (files s) manifest_path)"
  shows "can (prepare_run_root h manifest_path manifest run_root) s (manifest_copy_path run_root) 5"
proof -
  have "can (prepare_run_root h manifest_path manifest run_root) s (manifest_copy_path run_root)
      (1 + (1 + (1 + (1 + (1 + (0 + (0 + 0)))))))"
    unfolding prepare_run_root_def Let_def so
  proof (intro can_seq [OF can_mkdir [OF h]] can_look can_seq [OF can_write [OF h]] can_seq [OF can_basic(2)]
      can_seq [OF can_basic(3)] can_basic(1))
    fix a b c d :: mach
    assume "persists (files s) (files a)" "persists (files a) (files b)" "persists (files b) (files c)"
      "persists (files c) (files d)"
    then show "\<not> isl (fs_read (files d) manifest_path)" using r by (simp add: persists_def)
  qed
  then show ?thesis by (simp add: numeral_eq_Suc)
qed

lemma copy_floor_can:
  assumes h: "granting h" "nothing_lost h" and raw: "key_item (cm_inputs manifest) ''control_floor_summary'' = Inr raw"
    and source: "source = fs_resolve (files s) (resolve_repo_path repo raw)" "fs_exists (files s) source"
    "\<not> isl (fs_read (files s) source)"
    and dest: "dest = path_div (path_div run_root ''control-floor'') ''async_control_floor_summary.json''"
    "fs_resolve (files s) source \<noteq> fs_resolve (files s) dest"
  shows "can (copy_control_floor_reference h repo manifest run_root) s dest 2"
proof -
  have "can (copy_control_floor_reference h repo manifest run_root) s dest (0 + (1 + (1 + (0 + 0))))"
    unfolding copy_control_floor_reference_def Let_def raw dest(1) [symmetric]
  proof (intro can_seq [OF can_basic(2)] can_look can_seq [OF can_mkdir [OF h]])
    fix u v :: mach and x
    assume "persists (files s) (files u)" "Inr (fs_resolve (files u) (resolve_repo_path repo raw)) = (Inr x :: path res)"
      "persists (files u) (files v)"
    then have "x = source" "persists (files s) (files v)"
      using source(1) by (auto simp: persists_def)
    then have "can (copy_file h x dest) v () 1"
      using source(2,3) dest(2) by (intro can_copy h) (simp_all add: persists_def)
    then show "can (iobnd (copy_file h x dest) (\<lambda>_. iobnd (say (line x)) (\<lambda>_. ret dest))) v dest (1 + (0 + 0))" for line
      by (rule can_seq) (intro can_seq [OF can_basic(3)] can_basic(1))
  qed simp
  then show ?thesis by (simp add: numeral_eq_Suc)
qed

lemma log_can:
  assumes "summary_output_of manifest run_root = Inr so"
  shows "can (log_artifact_plan manifest run_root d) s () 0"
proof -
  have "can (iobnd (lift (Inr so)) (\<lambda>so. say (line so))) u () (0 + 0)" for u line
    by (intro can_seq [OF can_basic(2)] can_basic(3))
  then show ?thesis unfolding log_artifact_plan_def assms by (intro can_each) simp
qed

lemma idxd_can:
  assumes "all_pass h" "nothing_lost h"
  shows "can (idxd_phase h repo environ manifest s03 env timeout_s run_root so d) s d 1"
proof -
  have "can (iobnd (run_phase_command h ''idxd'' [''bash'', path_str s03] env timeout_s run_root so d) (\<lambda>_. ret d)) s d (1 + 0)"
    by (intro can_seq [OF can_run_phase [OF assms]] can_basic(1))
  then show ?thesis unfolding idxd_phase_def by (auto simp: can_def try_except_def)
qed

text \<open>The phases succeed when the summarizer's call leaves outputs that are not empty.\<close>

definition outputs_present :: "path \<Rightarrow> world \<Rightarrow> bool" where
  "outputs_present run_root w \<longleftrightarrow> (\<forall>(k, relpath) \<in> set EXPECTED_DERIVED_OUTPUTS.
     fs_exists w (path_div run_root relpath) \<and> 0 < fs_size w (path_div run_root relpath))"

lemma checks_can:
  assumes m: "claim_load_manifest w0 repo p = Inr manifest" and o: "outputs_present run_root (files s)"
    and raw: "map_of (cm_inputs manifest) ''report_contract'' = Some raw"
    "fs_exists (files s) (fs_resolve (files s) (resolve_repo_path repo raw))"
  shows "can (iobnd (look (\<lambda>w. validate_summary_outputs w manifest run_root so d)) (\<lambda>_.
    iobnd (validate_report_references repo manifest run_root so d) (\<lambda>_. say l))) s () 0"
proof -
  have d: "cm_derived_outputs manifest = EXPECTED_DERIVED_OUTPUTS" using m by (rule claim_load_manifest_Inr)
  have e: "\<forall>(k, p) \<in> set (summary_output_paths manifest run_root). fs_exists (files s) p \<and> 0 < fs_size (files s) p"
    using o by (auto simp: outputs_present_def summary_output_paths_def d)
  then have "check_report_references (files s) repo manifest run_root so d =
      Inr (fs_resolve (files s) (resolve_repo_path repo raw))"
    using raw by (auto simp: check_references_iff [OF m])
  moreover have "validate_summary_outputs (files s) manifest run_root so d = Inr ()"
    using e by (simp add: validate_summary_outputs_iff)
  ultimately show ?thesis
    by (simp add: can_def iobnd_def look_def say_def validate_report_references_def)
qed

lemma summary_can:
  assumes h: "all_pass h" "nothing_lost h" and m: "claim_load_manifest w0 repo p = Inr manifest"
    and o: "\<And>w. outputs_present run_root (h_drift h (tick s) w)"
    and raw: "map_of (cm_inputs manifest) ''report_contract'' = Some raw"
    "fs_exists (files s) (fs_resolve (files s) (resolve_repo_path repo raw))"
  shows "can (iobnd (run_phase_command h ''summary'' cmd env ts run_root so d) (\<lambda>_.
      iobnd (look (\<lambda>w. validate_summary_outputs w manifest run_root so d)) (\<lambda>_.
      iobnd (validate_report_references repo manifest run_root so d) (\<lambda>_. say l)))) s () 1"
proof -
  obtain t where t: "run_phase_command h ''summary'' cmd env ts run_root so d s = Some (Inr (), t)"
    "tick t = Suc (tick s)" "files t = h_drift h (tick s) (files s)" using run_phase_passes [OF h(1)] by blast
  have p: "persists (files s) (files t)" using t(3) h(2) by (simp add: nothing_lost_def)
  have "outputs_present run_root (files t)" using o t(3) by simp
  moreover have "fs_exists (files t) (fs_resolve (files t) (resolve_repo_path repo raw))"
    using p raw(2) by (simp add: persists_def)
  ultimately have "can (iobnd (look (\<lambda>w. validate_summary_outputs w manifest run_root so d)) (\<lambda>_.
      iobnd (validate_report_references repo manifest run_root so d) (\<lambda>_. say l))) t () 0"
    using checks_can [OF m _ raw(1)] by blast
  then show ?thesis using t(1,2) p by (auto simp: can_def iobnd_def intro: persists_trans)
qed

lemma phases_can:
  assumes h: "all_pass h" "nothing_lost h" and m: "claim_load_manifest w0 repo p = Inr manifest"
    and o: "\<And>w. outputs_present run_root (h_drift h (tick s + 2) w)"
    and raw: "map_of (cm_inputs manifest) ''report_contract'' = Some raw"
    "fs_exists (files s) (fs_resolve (files s) (resolve_repo_path repo raw))"
  shows "can (run_phases h repo environ manifest args run_root so c d) s () 3"
proof -
  obtain a1 a2 a3 a4 where e: "phase_setup (files s) repo environ run_root (s04_arg_device_path args) = (a1, a2, a3, a4)"
    by (metis prod_cases4)
  have last: "can (iobnd (run_phase_command h ''summary'' cmd env ts run_root so d) (\<lambda>_.
      iobnd (look (\<lambda>w. validate_summary_outputs w manifest run_root so d)) (\<lambda>_.
      iobnd (validate_report_references repo manifest run_root so d) (\<lambda>_. say l)))) v () 1"
    if "persists (files s) (files u)" "tick u = tick s + 1" "persists (files u) (files v)" "tick v = tick u + 1" for u v cmd env ts l
    using that o raw(2) by (intro summary_can [OF h m _ raw(1)]) (auto simp: persists_def)
  have "can (run_phases h repo environ manifest args run_root so c d) s () (1 + (1 + 1))"
    unfolding run_phases_def
    by (rule can_look_eq, rule arg_cong [OF e], unfold prod.case,
        intro can_seq [OF can_run_phase [OF h]] can_seq [OF idxd_can [OF h]] last)
  then show ?thesis by (simp add: numeral_eq_Suc)
qed

lemma claim_input:
  assumes "claim_load_manifest w repo p = Inr manifest" "k \<in> set INPUT_KEYS"
  obtains raw where "map_of (cm_inputs manifest) k = Some raw" "fs_exists w (resolve_repo_path repo raw)"
proof -
  have "\<exists>d. cm_inputs manifest = map (\<lambda>k. (k, text_of d k)) INPUT_KEYS \<and>
    list_all (\<lambda>k. str_field d k \<and> fs_exists w (resolve_repo_path repo (text_of d k))) INPUT_KEYS"
    using assms(1) by (auto simp: claim_load_manifest_def res_iff Let_def)
  then obtain d where "cm_inputs manifest = map (\<lambda>k. (k, text_of d k)) INPUT_KEYS"
    "list_all (\<lambda>k. str_field d k \<and> fs_exists w (resolve_repo_path repo (text_of d k))) INPUT_KEYS" by blast
  then show thesis using that assms(2) by (simp add: map_of_map_restrict list_all_iff)
qed

lemma claim_readable: "claim_load_manifest w repo p = Inr manifest \<Longrightarrow> \<not> isl (fs_read w p)"
  unfolding claim_load_manifest_def bnd_Inr_iff contract_load_json_Inr by auto

lemma execute_can:
  assumes h: "granting h" "all_pass h" "nothing_lost h"
    and m: "claim_load_manifest (files s) repo p = Inr manifest" "\<not> isl (fs_read (files s) manifest_path)"
    and root: "run_root = run_root_of (files s) repo manifest (s04_arg_run_root args)"
    and o: "\<And>w. outputs_present run_root (h_drift h (tick s + 9) w)"
    and resolves: "\<And>q. fs_exists (files s) q \<Longrightarrow> fs_exists (files s) (fs_resolve (files s) q)"
    and source: "map_of (cm_inputs manifest) ''control_floor_summary'' = Some floor_raw"
    "source = fs_resolve (files s) (resolve_repo_path repo floor_raw)" "\<not> isl (fs_read (files s) source)"
    "fs_resolve (files s) source \<noteq>
      fs_resolve (files s) (path_div (path_div run_root ''control-floor'') ''async_control_floor_summary.json'')"
  shows "can (execute_run h repo environ manifest_path manifest args) s () 10"
proof -
  let ?d = "selected_device_path environ (s04_arg_device_path args)"
  let ?dest = "path_div (path_div run_root ''control-floor'') ''async_control_floor_summary.json''"
  note so = loaded_summary_output [OF m(1), of run_root]
  have k: "''control_floor_summary'' \<in> set INPUT_KEYS" "''report_contract'' \<in> set INPUT_KEYS" by (simp_all add: INPUT_KEYS_def)
  obtain rc where rc: "map_of (cm_inputs manifest) ''report_contract'' = Some rc"
    "fs_exists (files s) (fs_resolve (files s) (resolve_repo_path repo rc))"
    using claim_input [OF m(1) k(2)] resolves by metis
  have ex: "fs_exists (files s) source" using claim_input [OF m(1) k(1)] resolves source(1,2) by (metis option.inject)
  have c: "can (copy_control_floor_reference h repo manifest run_root) u ?dest 2" if "persists (files s) (files u)" for u
    using that source ex
    by (intro copy_floor_can [OF h(1,3), of _ floor_raw source]) (auto simp: persists_def key_item_def)
  have r: "can (run_phases h repo environ manifest args run_root so' c' d') u () 3"
    if "persists (files s) (files u)" "tick u = tick s + 7" for u so' c' d'
    using that o rc by (intro phases_can [OF h(2,3) m(1) _ rc(1)]) (auto simp: persists_def add.commute)
  have "can (execute_run h repo environ manifest_path manifest args) s () (0 + (5 + (2 + (0 + 3))))"
    unfolding execute_run_def Let_def
    by (rule can_look_eq [OF arg_cong [OF root [symmetric]]], unfold so, rule can_seq [OF can_basic(2)],
        rule can_seq [OF prepare_can [OF h(1,3) so]], (use m(2) in \<open>simp add: persists_def\<close>),
        rule can_seq [OF c], (blast intro: persists_trans), rule can_seq [OF log_can [OF so]], rule r)
      (auto intro: persists_trans)
  then show ?thesis by (simp add: numeral_eq_Suc)
qed

lemma main_can:
  assumes "granting h" and "all_pass h" and "nothing_lost h" and "\<not> s04_arg_validate_only args"
    and "claim_load_manifest (files s) repo (fs_resolve (files s) (path_of (s04_arg_manifest args))) = Inr manifest"
    and "run_root = run_root_of (files s) repo manifest (s04_arg_run_root args)"
    and "\<And>w. outputs_present run_root (h_drift h (tick s + 9) w)"
    and "\<And>q. fs_exists (files s) q \<Longrightarrow> fs_exists (files s) (fs_resolve (files s) q)"
    and "map_of (cm_inputs manifest) ''control_floor_summary'' = Some floor_raw"
    and "source = fs_resolve (files s) (resolve_repo_path repo floor_raw)" and "\<not> isl (fs_read (files s) source)"
    and "fs_resolve (files s) source \<noteq>
      fs_resolve (files s) (path_div (path_div run_root ''control-floor'') ''async_control_floor_summary.json'')"
  shows "\<exists>t. s04_main h repo environ args s = Some (Inr 0, t)"
proof -
  let ?mp = "fs_resolve (files s) (path_of (s04_arg_manifest args))"
  have e: "can (execute_run h repo environ ?mp manifest args) (s\<lparr>out_log := out_log s @ [l]\<rparr>) () 10" for l
    using assms claim_readable [OF assms(5)]
    by (intro execute_can [OF assms(1,2,3), where p = ?mp and run_root = run_root and source = source]) simp_all
  obtain so where so: "summary_output_of manifest (run_root_of (files s) repo manifest (s04_arg_run_root args)) = Inr so"
    using loaded_summary_output [OF assms(5)] by blast
  show ?thesis
    using e [of "[Txt (''phase=manifest-parse manifest='' @ path_str ?mp @ '' run_root='' @
        path_str (run_root_of (files s) repo manifest (s04_arg_run_root args)) @ '' summary_path='' @ path_str so @
        '' report_path='' @ cm_report_path manifest @ '' families='' @ str_nat (length (cm_artifact_families manifest)))]"]
      so assms(4,5)
    by (auto simp: s04_main_def s04_body_def can_def try_except_def iobnd_def look_def lift_def say_def ret_def)
qed


definition s04_demo_host :: host where
  "s04_demo_host = demo_host\<lparr>h_drift := (\<lambda>k w. if k = 9 then w\<lparr>fs_exists := (\<lambda>_. True), fs_size := (\<lambda>_. 1)\<rparr> else w)\<rparr>"

definition s04_demo_args :: s04_args where
  "s04_demo_args = \<lparr>s04_arg_manifest = ''p'', s04_arg_validate_only = False, s04_arg_run_root = None,
     s04_arg_device_path = Some ''/dev/dsa/wq0.0'', s04_arg_software_timeout = 900, s04_arg_idxd_timeout = 900,
     s04_arg_summary_timeout = 120\<rparr>"

abbreviation s04_demo_start :: mach where
  "s04_demo_start \<equiv> demo_mach\<lparr>files := claim_demo_world\<rparr>"

lemma s04_demo_facts:
  "granting s04_demo_host" "all_pass s04_demo_host" "nothing_lost s04_demo_host"
  "\<not> s04_arg_validate_only s04_demo_args"
  "claim_load_manifest (files s04_demo_start) (path_of ''r'')
     (fs_resolve (files s04_demo_start) (path_of (s04_arg_manifest s04_demo_args))) = Inr claim_demo"
  "outputs_present q (h_drift s04_demo_host (tick s04_demo_start + 9) w)"
  "fs_exists (files s04_demo_start) p \<Longrightarrow> fs_exists (files s04_demo_start) (fs_resolve (files s04_demo_start) p)"
  "\<not> isl (fs_read (files s04_demo_start) p)"
  using claim_demo_loads
  by (auto simp: s04_demo_host_def s04_demo_args_def demo_mach_def granting_def all_pass_def nothing_lost_def
      persists_def outputs_present_def claim_demo_world_def)

lemma s04_demo_floor:
  "map_of (cm_inputs claim_demo) ''control_floor_summary'' = Some ''cf''"
  "fs_resolve (files s04_demo_start) (fs_resolve (files s04_demo_start) (resolve_repo_path (path_of ''r'') ''cf'')) \<noteq>
   fs_resolve (files s04_demo_start) (path_div (path_div (run_root_of (files s04_demo_start) (path_of ''r'') claim_demo
     (s04_arg_run_root s04_demo_args)) ''control-floor'') ''async_control_floor_summary.json'')"
  by code_simp+




lemma s04_body_total: "total (s04_body h repo environ args)"
  unfolding s04_body_def execute_run_def run_phases_def idxd_phase_def run_phase_command_def seed_idxd_fallback_def
    seed_reports_def seed_report_def prepare_run_root_def copy_control_floor_reference_def log_artifact_plan_def
    emit_completed_process_output_def validate_report_references_def Let_def
  by (intro calm)

lemma s04_body_zero: "s04_body h repo environ args s = Some (Inr c, t) \<Longrightarrow> c = 0"
  by (auto simp: s04_body_def iobnd_iff look_iff lift_iff say_iff ret_iff split: if_splits)

lemma s04_body_validate:
  assumes "s04_arg_validate_only args"
  shows "\<exists>t. s04_body h repo environ args s = Some (bnd (claim_load_manifest (files s) repo
      (fs_resolve (files s) (path_of (s04_arg_manifest args)))) (\<lambda>_. Inr 0), t) \<and> events t = events s \<and> files t = files s"
proof (cases "claim_load_manifest (files s) repo (fs_resolve (files s) (path_of (s04_arg_manifest args)))")
  case (Inl e)
  then show ?thesis by (simp add: s04_body_def iobnd_def look_def)
next
  case (Inr m)
  then show ?thesis using assms loaded_summary_output [OF Inr]
    by (simp add: s04_body_def iobnd_def look_def lift_def say_def ret_def)
qed



text \<open>C38. A marker anywhere in the output of the accelerator verifier opens the fallback, not only one that
  reports its failure: whenever that child fails after having printed \<open>phase=preflight\<close> (which the
  S03 verifier prints before every preflight, passed or not), the runner accepts the fixture in
  place of the failed evidence.\<close>

theorem s04_preflight_line_opens_fallback:
  assumes "h_run h (map lit command) (tick s) = Inr (code, stdout, stderr)" and "code \<noteq> 0"
    and "contains ''phase=preflight'' stdout"
  shows "\<exists>e t. run_phase_command h phase command env timeout_s run_root summary_output device_path s = Some (Inl e, t) \<and>
    is_run_error e \<and> idxd_failure_allows_fallback e"
proof -
  have c: "contains x (a @ t @ b)" if "contains x t" for x a t b
    using that unfolding contains_iff by (metis append.assoc)
  let ?e = "phase_error phase (phase_where run_root summary_output device_path) timeout_s (Inr (code, stdout, stderr)) ([], [])"
  define line where "line = ''phase='' @ phase @ '' outcome=error'' @ phase_where run_root summary_output device_path @
    '' exit_code='' @ str_int code"
  have "concat (map frag_text (exn_msg ?e)) =
      (line @ [CHR 0x0A] @ ''stdout:'' @ [CHR 0x0A]) @ stdout @ ([CHR 0x0A] @ ''stderr:'' @ [CHR 0x0A] @ stderr)"
    by (simp add: phase_error_def with_output_def line_def)
  then have "contains ''phase=preflight'' (concat (map frag_text (exn_msg ?e)))" by (simp only: c [OF assms(3)])
  then have "idxd_failure_allows_fallback ?e"
    unfolding idxd_failure_allows_fallback_def Let_def FALLBACK_MARKERS_def by simp
  moreover have "is_run_error ?e" by (simp add: phase_error_def with_output_def)
  moreover have "\<exists>t. run_phase_command h phase command env timeout_s run_root summary_output device_path s = Some (Inl ?e, t)"
    using assms(1,2) by (simp add: run_phase_command_def Let_def iobnd_def say_def try_except_def run_env_def
        emit_completed_process_output_def complain_def ret_def raise_io_def phase_error_def)
  ultimately show ?thesis by blast
qed

text \<open>The lines the S03 verifier prints when its preflight passes and its runner then fails.\<close>

definition preflight_demo_host :: host where
  "preflight_demo_host = demo_host\<lparr>h_run := (\<lambda>_ _. Inr (1,
     ''[verify_s03_idxd_path] phase=preflight-validation artifact=a device_path=/dev/dsa/wq0.0 verdict=pass'',
     ''[verify_s03_idxd_path] phase=runner message=split-process idxd runner failed''))\<rparr>"

theorem s04_preflight_line_opens_fallback_witness:
  "\<exists>e t. run_phase_command preflight_demo_host ''idxd'' [''bash'', ''verify_s03_idxd_path.sh''] [] 900 (path_of ''r'')
      (path_of ''s'') ''/dev/dsa/wq0.0'' demo_mach = Some (Inl e, t) \<and> is_run_error e \<and> idxd_failure_allows_fallback e"
proof (rule s04_preflight_line_opens_fallback)
  show "h_run preflight_demo_host (map lit [''bash'', ''verify_s03_idxd_path.sh'']) (tick demo_mach) = Inr (1,
      ''[verify_s03_idxd_path] phase=preflight-validation artifact=a device_path=/dev/dsa/wq0.0 verdict=pass'',
      ''[verify_s03_idxd_path] phase=runner message=split-process idxd runner failed'')"
    by (simp add: preflight_demo_host_def)
  show "contains ''phase=preflight''
      ''[verify_s03_idxd_path] phase=preflight-validation artifact=a device_path=/dev/dsa/wq0.0 verdict=pass''"
    by code_simp
qed simp

end
