(* ===== verification/PyRegex.thy ===== *)
theory PyRegex
  imports Prelude
begin

text \<open>
  Python's \<open>re\<close> module, as far as the scripts use it. A text is a list of code points, so that the
  papers' typographic characters are covered; the character classes of the Unicode database are a
  parameter (\<open>unicode\<close>). A pattern is a datatype; \<open>ends\<close> lists, in the order in which the
  backtracking matcher tries them, the positions where a match can end, and the first one is the
  match. \<open>search\<close>, \<open>finditer\<close> and \<open>sub_re\<close> scan a text from left to right.
\<close>

section \<open>Texts and patterns\<close>

type_synonym utext = "int list"

definition pts :: "string \<Rightarrow> utext" where
  "pts t = map of_char t"

definition LF :: int where "LF = 10"

record unicode =
  uc_space :: "int \<Rightarrow> bool"
  uc_value :: "int \<Rightarrow> nat option"
  uc_word :: "int \<Rightarrow> bool"
  uc_lower :: "int \<Rightarrow> bool"

text \<open>The characters at which \<open>splitlines\<close> ends a line.\<close>

definition is_break :: "int \<Rightarrow> bool" where
  "is_break c \<longleftrightarrow> c \<in> {10, 11, 12, 13, 28, 29, 30, 133, 8232, 8233}"

text \<open>What the Unicode database says of the ASCII characters, and that line ends are white space; \<open>latin\<close> is a
  table that says nothing else but the no-break space.\<close>

definition unicode_ok :: "unicode \<Rightarrow> bool" where
  "unicode_ok uc \<longleftrightarrow> (\<forall>n \<in> {0..<128}. (uc_space uc n \<longleftrightarrow> 9 \<le> n \<and> n \<le> 13 \<or> 28 \<le> n \<and> n \<le> 32) \<and>
     uc_value uc n = (if 48 \<le> n \<and> n \<le> 57 then Some (nat (n - 48)) else None) \<and>
     (uc_word uc n \<longleftrightarrow> 48 \<le> n \<and> n \<le> 57 \<or> 65 \<le> n \<and> n \<le> 90 \<or> n = 95 \<or> 97 \<le> n \<and> n \<le> 122) \<and>
     (uc_lower uc n \<longleftrightarrow> 97 \<le> n \<and> n \<le> 122)) \<and> (\<forall>n. is_break n \<longrightarrow> uc_space uc n)"

definition latin :: unicode where
  "latin = \<lparr>uc_space = (\<lambda>n. 9 \<le> n \<and> n \<le> 13 \<or> 28 \<le> n \<and> n \<le> 32 \<or> n \<in> {133, 160, 8232, 8233}),
     uc_value = (\<lambda>n. if 48 \<le> n \<and> n \<le> 57 then Some (nat (n - 48)) else None),
     uc_word = (\<lambda>n. 48 \<le> n \<and> n \<le> 57 \<or> 65 \<le> n \<and> n \<le> 90 \<or> n = 95 \<or> 97 \<le> n \<and> n \<le> 122),
     uc_lower = (\<lambda>n. 97 \<le> n \<and> n \<le> 122)\<rparr>"

text \<open>\<open>c\<close>, \<open>\s\<close>, \<open>\d\<close>, \<open>.\<close>, and a set of ranges such as \<open>[0-9.]\<close>.\<close>

datatype cls = Lit int | Space | Digit | Dot | In "(int \<times> int) list"

fun cls_ok :: "unicode \<Rightarrow> cls \<Rightarrow> int \<Rightarrow> bool" where
  "cls_ok uc (Lit c) n \<longleftrightarrow> n = c"
| "cls_ok uc Space n \<longleftrightarrow> uc_space uc n"
| "cls_ok uc Digit n \<longleftrightarrow> uc_value uc n \<noteq> None"
| "cls_ok uc Dot n \<longleftrightarrow> n \<noteq> LF"
| "cls_ok uc (In rs) n \<longleftrightarrow> (\<exists>(a, b) \<in> set rs. a \<le> n \<and> n \<le> b)"

text \<open>\<open>Many c lo hi\<close> is the greedy \<open>c{lo,hi}\<close>; \<open>Opt\<close> and \<open>Star\<close> are greedy too. \<open>Bol\<close> and \<open>Eol\<close> are \<open>^\<close> and
  \<open>$\<close> with \<open>re.MULTILINE\<close>, \<open>Bos\<close> and \<open>Eos\<close> without.\<close>

datatype re = Eps | Cls cls | Seq re re | Alt re re | Many cls nat "nat option" | Opt re | Star re | Grp nat re
  | WordB | Bol | Eol | Bos | Eos

text \<open>A position: the character before it, the rest of the text, and the groups matched so far.\<close>

type_synonym pos = "int option \<times> utext \<times> (nat \<times> utext) list"

definition advance :: "nat \<Rightarrow> pos \<Rightarrow> pos" where
  "advance k = (\<lambda>(p, s, g). (if k = 0 then p else Some (s ! (k - 1)), drop k s, g))"

definition rep_ends :: "unicode \<Rightarrow> cls \<Rightarrow> nat \<Rightarrow> nat option \<Rightarrow> pos \<Rightarrow> pos list" where
  "rep_ends uc c lo hi st = (let n = length (takeWhile (cls_ok uc c) (fst (snd st)));
       m = (case hi of None \<Rightarrow> n | Some h \<Rightarrow> min h n) in
     map (\<lambda>k. advance k st) (rev [lo..<Suc m]))"

text \<open>\<open>r*\<close>: one more round first, each round consuming something; \<open>n\<close> bounds the rounds.\<close>

fun star_ends :: "(pos \<Rightarrow> pos list) \<Rightarrow> nat \<Rightarrow> pos \<Rightarrow> pos list" where
  "star_ends f 0 st = [st]"
| "star_ends f (Suc n) st = concat (map (star_ends f n)
     (filter (\<lambda>t. length (fst (snd t)) < length (fst (snd st))) (f st))) @ [st]"

definition is_word :: "unicode \<Rightarrow> int option \<Rightarrow> bool" where
  "is_word uc c = (case c of None \<Rightarrow> False | Some n \<Rightarrow> uc_word uc n)"

definition next_char :: "utext \<Rightarrow> int option" where
  "next_char s = (case s of [] \<Rightarrow> None | c # _ \<Rightarrow> Some c)"

primrec ends :: "unicode \<Rightarrow> re \<Rightarrow> pos \<Rightarrow> pos list" where
  "ends uc Eps st = [st]"
| "ends uc (Cls c) st = rep_ends uc c 1 (Some 1) st"
| "ends uc (Seq a b) st = concat (map (ends uc b) (ends uc a st))"
| "ends uc (Alt a b) st = ends uc a st @ ends uc b st"
| "ends uc (Many c lo hi) st = rep_ends uc c lo hi st"
| "ends uc (Opt a) st = ends uc a st @ [st]"
| "ends uc (Star a) st = star_ends (ends uc a) (length (fst (snd st))) st"
| "ends uc (Grp i a) st = map (\<lambda>(p, s, g). (p, s, (i, take (length (fst (snd st)) - length s) (fst (snd st))) # g))
     (ends uc a st)"
| "ends uc WordB st = (if is_word uc (fst st) \<noteq> is_word uc (next_char (fst (snd st))) then [st] else [])"
| "ends uc Bol st = (if fst st = None \<or> fst st = Some LF then [st] else [])"
| "ends uc Eol st = (if next_char (fst (snd st)) \<in> {None, Some LF} then [st] else [])"
| "ends uc Bos st = (if fst st = None then [st] else [])"
| "ends uc Eos st = (if fst (snd st) \<in> {[], [LF]} then [st] else [])"

text \<open>A literal text, and \<open>m.group(i)\<close>.\<close>

definition lits :: "utext \<Rightarrow> re" where
  "lits t = foldr (\<lambda>c. Seq (Cls (Lit c))) t Eps"

abbreviation tx :: "string \<Rightarrow> re" where "tx t \<equiv> lits (pts t)"

definition seqs :: "re list \<Rightarrow> re" where
  "seqs rs = foldr Seq rs Eps"

definition group :: "nat \<Rightarrow> (nat \<times> utext) list \<Rightarrow> utext" where
  "group i g = (case map_of g i of Some t \<Rightarrow> t | None \<Rightarrow> [])"

section \<open>Scanning\<close>

definition match_at :: "unicode \<Rightarrow> re \<Rightarrow> int option \<Rightarrow> utext \<Rightarrow> pos option" where
  "match_at uc r p s = (case ends uc r (p, s, []) of [] \<Rightarrow> None | st # _ \<Rightarrow> Some st)"

text \<open>\<open>re.match(r, s)\<close> as a truth value.\<close>

definition re_match :: "unicode \<Rightarrow> re \<Rightarrow> utext \<Rightarrow> bool" where
  "re_match uc r s \<longleftrightarrow> match_at uc r None s \<noteq> None"

text \<open>The first match from here on: the text skipped and the position after the match.\<close>

fun search :: "unicode \<Rightarrow> re \<Rightarrow> int option \<Rightarrow> utext \<Rightarrow> (utext \<times> pos) option" where
  "search uc r p [] = map_option (Pair []) (match_at uc r p [])"
| "search uc r p (c # s) = (case match_at uc r p (c # s) of Some st \<Rightarrow> Some ([], st)
     | None \<Rightarrow> map_option (\<lambda>(pre, st). (c # pre, st)) (search uc r (Some c) s))"

text \<open>The groups of all matches, and \<open>re.sub\<close> with a count (\<open>None\<close>: all). No pattern of the scripts matches
  the empty text (\<open>eats\<close> below), so a match always shortens what is left.\<close>

function finditer :: "unicode \<Rightarrow> re \<Rightarrow> int option \<Rightarrow> utext \<Rightarrow> (nat \<times> utext) list list" where
  "finditer uc r p s = (case search uc r p s of None \<Rightarrow> []
     | Some (pre, (p', s', g)) \<Rightarrow> g # (if length s' < length s then finditer uc r p' s' else []))"
  by pat_completeness auto
termination
  by (relation "measure (\<lambda>(uc, r, p, s). length s)") auto

function sub_re :: "unicode \<Rightarrow> re \<Rightarrow> ((nat \<times> utext) list \<Rightarrow> utext) \<Rightarrow> nat option \<Rightarrow> int option \<Rightarrow> utext \<Rightarrow> utext" where
  "sub_re uc r f k p s = (if k = Some 0 then s else case search uc r p s of None \<Rightarrow> s
     | Some (pre, (p', s', g)) \<Rightarrow> if length s' < length s
         then pre @ f g @ sub_re uc r f (map_option (\<lambda>n. n - 1) k) p' s' else s)"
  by pat_completeness auto
termination
  by (relation "measure (\<lambda>(uc, r, f, k, p, s). length s)") auto

declare finditer.simps [simp del] sub_re.simps [simp del]

section \<open>Other operations on texts\<close>

text \<open>\<open>strip\<close>, \<open>rstrip\<close>, \<open>splitlines\<close> and \<open>replace\<close>.\<close>

definition urstrip :: "unicode \<Rightarrow> utext \<Rightarrow> utext" where
  "urstrip uc s = rev (dropWhile (uc_space uc) (rev s))"

definition ustrip :: "unicode \<Rightarrow> utext \<Rightarrow> utext" where
  "ustrip uc s = urstrip uc (dropWhile (uc_space uc) s)"

fun splitlines_from :: "utext \<Rightarrow> utext \<Rightarrow> utext list" where
  "splitlines_from line [] = (if line = [] then [] else [rev line])"
| "splitlines_from line (c # s) = (if is_break c
     then rev line # splitlines_from [] (if c = 13 \<and> next_char s = Some LF then tl s else s)
     else splitlines_from (c # line) s)"

definition splitlines :: "utext \<Rightarrow> utext list" where
  "splitlines s = splitlines_from [] s"

fun split_at :: "int \<Rightarrow> utext \<Rightarrow> utext list" where
  "split_at c [] = [[]]"
| "split_at c (x # s) = (if x = c then [] # split_at c s
     else (case split_at c s of l # ls \<Rightarrow> (x # l) # ls | [] \<Rightarrow> [[x]]))"

function replace :: "utext \<Rightarrow> utext \<Rightarrow> utext \<Rightarrow> utext" where
  "replace a b s = (if s = [] then [] else if a \<noteq> [] \<and> startswith s a
     then b @ replace a b (drop (length a) s) else hd s # replace a b (tl s))"
  by pat_completeness auto
termination
  by (relation "measure (\<lambda>(a, b, s). length s)") (auto simp: startswith_def)

declare replace.simps [simp del]

section \<open>Lemmas: a match consumes a part of the text\<close>

lemma rep_ends_iff: "t \<in> set (rep_ends uc c lo hi st) \<longleftrightarrow>
    (\<exists>k \<ge> lo. k \<le> length (takeWhile (cls_ok uc c) (fst (snd st))) \<and> (\<forall>h. hi = Some h \<longrightarrow> k \<le> h) \<and> t = advance k st)"
  unfolding rep_ends_def Let_def
  by (cases hi) (fastforce simp del: upt_Suc simp: image_iff less_Suc_eq_le)+

lemma advance_rest [simp]: "fst (snd (advance k st)) = drop k (fst (snd st))"
  by (simp add: advance_def split: prod.splits)

lemma star_ends_suffix:
  assumes "\<And>st t. t \<in> set (f st) \<Longrightarrow> suffix (fst (snd t)) (fst (snd st))"
  shows "t \<in> set (star_ends f n st) \<Longrightarrow> suffix (fst (snd t)) (fst (snd st))"
proof (induction n arbitrary: st)
  case (Suc n)
  then have "t = st \<or> (\<exists>m. m \<in> set (f st) \<and> t \<in> set (star_ends f n m))" by (simp only: star_ends.simps) fastforce
  then show ?case using Suc.IH assms suffix_order.order_trans by blast
qed simp

lemma ends_suffix: "t \<in> set (ends uc r st) \<Longrightarrow> suffix (fst (snd t)) (fst (snd st))"
proof (induction r arbitrary: st t)
  case (Seq a b)
  then obtain m where "m \<in> set (ends uc a st)" "t \<in> set (ends uc b m)" by (simp only: ends.simps set_concat set_map) blast
  with Seq.IH show ?case using suffix_order.order_trans by blast
next
  case (Star a)
  then show ?case using star_ends_suffix [of "ends uc a"] by simp
next
  case (Grp i a)
  then obtain m where "m \<in> set (ends uc a st)" "fst (snd t) = fst (snd m)" by (auto split: prod.splits)
  with Grp.IH show ?case by simp
qed (auto simp: rep_ends_iff suffix_drop split: if_splits)

text \<open>The patterns that cannot match the empty text.\<close>

primrec eats :: "re \<Rightarrow> bool" where
  "eats Eps \<longleftrightarrow> False"
| "eats (Cls c) \<longleftrightarrow> True"
| "eats (Seq a b) \<longleftrightarrow> eats a \<or> eats b"
| "eats (Alt a b) \<longleftrightarrow> eats a \<and> eats b"
| "eats (Many c lo hi) \<longleftrightarrow> 0 < lo"
| "eats (Opt a) \<longleftrightarrow> False"
| "eats (Star a) \<longleftrightarrow> False"
| "eats (Grp i a) \<longleftrightarrow> eats a"
| "eats WordB \<longleftrightarrow> False"
| "eats Bol \<longleftrightarrow> False"
| "eats Eol \<longleftrightarrow> False"
| "eats Bos \<longleftrightarrow> False"
| "eats Eos \<longleftrightarrow> False"

lemma rep_ends_shortens:
  assumes "t \<in> set (rep_ends uc c lo hi st)" "0 < lo"
  shows "length (fst (snd t)) < length (fst (snd st))"
proof -
  obtain k where k: "lo \<le> k" "k \<le> length (takeWhile (cls_ok uc c) (fst (snd st)))" "t = advance k st"
    using assms(1) by (auto simp: rep_ends_iff)
  have "k \<le> length (fst (snd st))" using k(2) length_takeWhile_le order_trans by blast
  then show ?thesis using k assms(2) by simp
qed

lemma eats_shortens: "eats r \<Longrightarrow> t \<in> set (ends uc r st) \<Longrightarrow> length (fst (snd t)) < length (fst (snd st))"
proof (induction r arbitrary: st t)
  case (Cls c)
  then show ?case using rep_ends_shortens [of t uc c 1] by simp
next
  case (Seq a b)
  then obtain m where m: "m \<in> set (ends uc a st)" "t \<in> set (ends uc b m)"
    by (simp only: ends.simps set_concat set_map) blast
  have l: "length (fst (snd m)) \<le> length (fst (snd st))" "length (fst (snd t)) \<le> length (fst (snd m))"
    using ends_suffix m suffix_length_le by blast+
  show ?case
  proof (cases "eats a")
    case True
    then show ?thesis using Seq.IH(1) [OF True m(1)] l by simp
  next
    case False
    then show ?thesis using Seq.IH(2) [OF _ m(2)] Seq.prems(1) l by simp
  qed
next
  case (Many c lo hi)
  then show ?case using rep_ends_shortens [of t uc c lo] by simp
next
  case (Grp i a)
  then obtain m where "m \<in> set (ends uc a st)" "fst (snd t) = fst (snd m)" by (auto split: prod.splits)
  with Grp show ?case by simp
qed auto

text \<open>A match and a search divide the text.\<close>

lemma match_at_ends: "match_at uc r p s = Some t \<Longrightarrow> t \<in> set (ends uc r (p, s, []))"
  by (auto simp: match_at_def split: list.splits)

lemma search_divides:
  "search uc r p s = Some (pre, t) \<Longrightarrow> \<exists>m q. s = pre @ m @ fst (snd t) \<and> match_at uc r q (m @ fst (snd t)) = Some t"
proof (induction uc r p s arbitrary: pre t rule: search.induct)
  case (1 uc r p)
  then show ?case using ends_suffix [OF match_at_ends] by fastforce
next
  case (2 uc r p c s)
  show ?case
  proof (cases "match_at uc r p (c # s)")
    case None
    with 2 obtain pre' where "search uc r (Some c) s = Some (pre', t)" "pre = c # pre'" by auto
    with 2(1) [OF None this(1)] show ?thesis by auto
  next
    case (Some u)
    with "2.prems" have "pre = []" "t = u" by auto
    moreover obtain m where "c # s = m @ fst (snd u)"
      using ends_suffix [OF match_at_ends [OF Some]] by (auto simp: suffix_def)
    ultimately show ?thesis using Some by auto
  qed
qed

lemma search_None_iff: "search uc r p s = None \<longleftrightarrow>
    (\<forall>u v. s = u @ v \<longrightarrow> match_at uc r (if u = [] then p else Some (last u)) v = None)"
proof (induction uc r p s rule: search.induct)
  case (2 uc r p c s)
  show ?case
  proof
    assume a: "search uc r p (c # s) = None"
    show "\<forall>u v. c # s = u @ v \<longrightarrow> match_at uc r (if u = [] then p else Some (last u)) v = None"
    proof (intro allI impI)
      fix u v
      assume uv: "c # s = u @ v"
      show "match_at uc r (if u = [] then p else Some (last u)) v = None"
      proof (cases u)
        case Nil
        then show ?thesis using a uv by (auto split: option.splits)
      next
        case (Cons c' u')
        have n: "match_at uc r p (c # s) = None" "search uc r (Some c) s = None" using a by (auto split: option.splits)
        have "s = u' @ v" "c' = c" using uv Cons by auto
        with 2 [OF n(1)] n(2) have "match_at uc r (if u' = [] then Some c else Some (last u')) v = None" by blast
        then show ?thesis using Cons \<open>c' = c\<close> by (auto split: if_splits)
      qed
    qed
  next
    assume a: "\<forall>u v. c # s = u @ v \<longrightarrow> match_at uc r (if u = [] then p else Some (last u)) v = None"
    then have n: "match_at uc r p (c # s) = None" by (metis append_Nil)
    have "match_at uc r (if u = [] then Some c else Some (last u)) v = None" if "s = u @ v" for u v
      using a [rule_format, of "c # u" v] that by (auto split: if_splits)
    with 2 [OF n] n show "search uc r p (c # s) = None" by auto
  qed
qed auto

section \<open>Lemmas: literal texts\<close>

lemma ends_lit: "ends uc (Cls (Lit c)) (p, s, g) = (case s of d # s' \<Rightarrow> if d = c then [(Some c, s', g)] else [] | [] \<Rightarrow> [])"
  by (cases s) (auto simp: rep_ends_def advance_def)

lemma ends_lits: "ends uc (lits t) (p, s, g) =
    (if startswith s t then [(if t = [] then p else Some (last t), drop (length t) s, g)] else [])"
proof (induction t arbitrary: p s)
  case (Cons c t)
  show ?case
  proof (cases s)
    case (Cons d s')
    then show ?thesis using Cons.IH [of "Some c" s'] by (simp add: lits_def ends_lit startswith_def del: ends.simps(2))
  qed (simp add: lits_def ends_lit startswith_def del: ends.simps(2))
qed (simp add: lits_def startswith_def)

lemma match_lits_prefix:
  assumes "match_at uc (Seq a (Seq (lits t) r)) p s = Some st" "\<And>p s g. set (ends uc a (p, s, g)) \<subseteq> {(p, s, g)}"
  shows "prefix t s"
proof (rule ccontr)
  assume n: "\<not> prefix t s"
  have "set (ends uc (Seq (lits t) r) m) = {}" if "m \<in> set (ends uc a (p, s, []))" for m
    using that assms(2) [of p s "[]"] n by (auto simp: ends_lits startswith_iff prefix_def)
  then have "set (ends uc (Seq a (Seq (lits t) r)) (p, s, [])) = {}" by simp
  then show False using match_at_ends [OF assms(1)] by (simp only: empty_iff)
qed

section \<open>Lemmas: what a substitution cannot introduce\<close>

text \<open>\<open>re.sub\<close> with a replacement that starts with a line break and otherwise keeps the end of the match
  brings in no text without line breaks.\<close>

definition keeps_end :: "unicode \<Rightarrow> re \<Rightarrow> ((nat \<times> utext) list \<Rightarrow> utext) \<Rightarrow> bool" where
  "keeps_end uc r f \<longleftrightarrow> (\<forall>p m s t. match_at uc r p (m @ s) = Some t \<longrightarrow> fst (snd t) = s \<longrightarrow>
     (\<exists>e. suffix e m \<and> f (snd (snd t)) = [LF, LF] @ e))"

lemma sublist_break:
  assumes "sublist a (x @ [LF, LF] @ y)" "LF \<notin> set a"
  shows "sublist a x \<or> sublist a y"
proof -
  have p: "b = []" if "prefix b (LF # z)" "set b \<subseteq> set a" for b z
    using that assms(2) by (cases b) auto
  show ?thesis using assms(1) p [of a "LF # y"] p [of a y]
    by (auto simp: sublist_append sublist_Cons_right dest: p)
qed

lemma sub_keeps_out:
  assumes "keeps_end uc r f" "LF \<notin> set a"
  shows "\<not> sublist a (q @ s) \<Longrightarrow> \<not> sublist a (q @ sub_re uc r f k p s)"
  using assms(1)
proof (induction uc r f k p s arbitrary: q rule: sub_re.induct)
  case (1 uc r f k p s)
  show ?case
  proof (cases "k = Some 0 \<or> search uc r p s = None")
    case True
    then show ?thesis using "1.prems" by (auto simp: sub_re.simps [of uc r f k p s])
  next
    case False
    then obtain pre t where t: "search uc r p s = Some (pre, t)" by auto
    obtain m p0 where m: "s = pre @ m @ fst (snd t)" "match_at uc r p0 (m @ fst (snd t)) = Some t"
      using search_divides [OF t] by blast
    then obtain e where e: "suffix e m" "f (snd (snd t)) = [LF, LF] @ e"
      using "1.prems"(2) unfolding keeps_end_def by blast
    show ?thesis
    proof (cases "length (fst (snd t)) < length s")
      case True
      let ?rest = "sub_re uc r f (map_option (\<lambda>n. n - 1) k) (fst t) (fst (snd t))"
      have "suffix (e @ fst (snd t)) s" using e(1) m(1) by (auto simp: suffix_def)
      then have "sublist (e @ fst (snd t)) s" by (rule suffix_imp_sublist)
      then have "\<not> sublist a (e @ fst (snd t))" using "1.prems"(1) sublist_order.order_trans sublist_append_leftI by blast
      then have "\<not> sublist a (e @ ?rest)" using 1 False t True by (cases t) auto
      moreover have "\<not> sublist a (q @ pre)" using "1.prems"(1) m(1) by (metis append.assoc sublist_append_rightI sublist_order.order_trans)
      ultimately have "\<not> sublist a ((q @ pre) @ [LF, LF] @ e @ ?rest)" using sublist_break assms(2) by blast
      then show ?thesis using False t True e(2) by (cases t) (simp add: sub_re.simps [of uc r f k p s])
    next
      case len: False
      then show ?thesis using "1.prems" t by (cases t) (simp add: sub_re.simps [of uc r f k p s])
    qed
  qed
qed

text \<open>A fixed replacement that no proper beginning or end of \<open>a\<close> fits onto brings in no \<open>a\<close> either.\<close>

definition seals :: "utext \<Rightarrow> utext \<Rightarrow> bool" where
  "seals a b \<longleftrightarrow> \<not> sublist a b \<and> length a \<le> length b \<and>
     list_all (\<lambda>k. \<not> suffix (take k a) b \<and> \<not> prefix (drop k a) b) [1..<length a]"

lemma seals_splice:
  assumes "seals a b" "\<not> sublist a x" "\<not> sublist a y"
  shows "\<not> sublist a (x @ b @ y)"
proof
  have n: "\<not> (suffix c b)" "\<not> (prefix d b)" if "a = c @ d" "c \<noteq> []" "d \<noteq> []" for c d
  proof -
    have "length c \<in> set [1..<length a]" using that by (simp add: Suc_le_eq)
    then have "\<not> suffix (take (length c) a) b \<and> \<not> prefix (drop (length c) a) b"
      using assms(1) by (simp only: seals_def list_all_iff) blast
    then show "\<not> suffix c b" "\<not> prefix d b" using that(1) by auto
  qed
  have by_: "\<not> sublist a (b @ y)"
  proof
    assume "sublist a (b @ y)"
    then obtain c d where cd: "a = c @ d" "suffix c b" "prefix d y" using assms by (auto simp: sublist_append seals_def)
    then show False using n [OF cd(1)] assms by (cases "c = []"; cases "d = []") (auto simp: seals_def)
  qed
  assume "sublist a (x @ b @ y)"
  then obtain c d where cd: "a = c @ d" "suffix c x" "prefix d (b @ y)" using assms(2) by_ by (auto simp: sublist_append)
  have "c \<noteq> []" "d \<noteq> []" using cd assms(2) by_ by auto
  moreover from this have "length d < length b" using cd(1) assms(1) by (cases c) (auto simp: seals_def)
  then have "prefix d b" using cd(3) by (auto simp: prefix_append)
  ultimately show False using n [OF cd(1)] by blast
qed

lemma sub_one_seals:
  assumes "seals a b" "\<not> sublist a s"
  shows "\<not> sublist a (sub_re uc r (\<lambda>_. b) (Some 1) p s)"
proof (cases "search uc r p s")
  case None
  then show ?thesis using assms by (simp add: sub_re.simps)
next
  case (Some st)
  obtain pre q t g where st: "st = (pre, q, t, g)" by (cases st)
  obtain m where m: "s = pre @ m @ t" using search_divides [OF Some [unfolded st]] by auto
  then have "\<not> sublist a pre" "\<not> sublist a t" using assms(2) by (auto simp: sublist_append)
  then have "\<not> sublist a (pre @ b @ t)" by (rule seals_splice [OF assms(1)])
  then show ?thesis using assms(2) Some st
    by (subst sub_re.simps) (simp add: sub_re.simps [of uc r _ "Some 0"])
qed

lemma sub_no_match: "search uc r p s = None \<Longrightarrow> sub_re uc r f k p s = s"
  by (simp add: sub_re.simps)

end
