(* ===== verification/PaperText.thy ===== *)
theory PaperText
  imports PyRegex PyValue PyPath
begin

text \<open>
  The paper-text tools (tools/paper-text): \<open>extract_paper_text.py\<close> turns the pages of a PDF into
  Markdown with page headings, \<open>sectionize_markdown.py\<close> replaces these by section headings, and
  \<open>verify_paper_text.py\<close> checks the structure of the result. Texts are lists of code points; what
  \<open>pdftotext\<close> and \<open>pdfinfo\<close> print is a parameter (\<open>pdf_tools\<close>), as are the files that are read.
\<close>

section \<open>sectionize\_markdown.py\<close>

definition PAGE_RE :: re where
  "PAGE_RE = seqs [Bol, tx ''## Page '', Many Digit 1 None, Eol]"

text \<open>The replacements: pattern, replacement and count; \<open>para\<close> is a text with one blank line in it.\<close>

definition para :: "string \<Rightarrow> string \<Rightarrow> utext" where
  "para heading rest = pts heading @ [LF, LF] @ pts rest"

definition REPLACEMENTS :: "(re \<times> utext \<times> nat) list" where
  "REPLACEMENTS = [
    (seqs [WordB, tx ''Abstract'', Many Space 1 None], para ''## Abstract'' '''', 1),
    (seqs [WordB, tx ''CCS Concepts:'', Many Space 0 None], para ''## CCS Concepts'' '''', 1),
    (seqs [WordB, tx ''Keywords:'', Many Space 0 None], para ''## Keywords'' '''', 1),
    (seqs [WordB, tx ''ACM Reference Format:'', Many Space 0 None], para ''## ACM Reference Format'' '''', 1),
    (seqs [WordB, tx ''Introduction'', Many Space 1 None, tx ''Modern cloud computing''], para ''## 1 Introduction'' ''Modern cloud computing'', 1),
    (seqs [WordB, tx ''2 Characteristics of RPCs at Hyperscale'', Many Space 0 None], para ''## 2 Characteristics of RPCs at Hyperscale'' '''', 1),
    (seqs [tx ''Characteristics of RPCs at Hyperscale'', Many Space 1 None, tx ''This section analyzes''], para ''## 2 Characteristics of RPCs at Hyperscale'' ''This section analyzes'', 1),
    (seqs [WordB, tx ''2.1 Methodology'', Many Space 0 None], para ''### 2.1 Methodology'' '''', 1),
    (seqs [WordB, tx ''2.2 Why is RPC Evaluation Important?'', Many Space 0 None], para ''### 2.2 Why is RPC Evaluation Important?'' '''', 1),
    (seqs [WordB, tx ''2.3 Not all RPCs are the same.'', Many Space 0 None], para ''### 2.3 Not all RPCs are the same.'' '''', 1),
    (seqs [WordB, tx ''2.4 Nested RPCs are Wider than Deep'', Many Space 0 None], para ''### 2.4 Nested RPCs are Wider than Deep'' '''', 1),
    (seqs [WordB, tx ''2.5 RPC Size Matters'', Many Space 0 None], para ''### 2.5 RPC Size Matters'' '''', 1),
    (seqs [WordB, tx ''2.6 Storage RPCs are Important'', Many Space 0 None], para ''### 2.6 Storage RPCs are Important'' '''', 1),
    (seqs [WordB, tx ''RPC Latency'', Many Space 1 None, tx ''The previous section showed''], para ''## 3 RPC Latency'' ''The previous section showed'', 1),
    (seqs [WordB, tx ''3.1 RPC Components'', Many Space 0 None], para ''### 3.1 RPC Components'' '''', 1),
    (seqs [WordB, tx ''3.2 Fleet-Wide Latency Variation'', Many Space 0 None], para ''### 3.2 Fleet-Wide Latency Variation'' '''', 1),
    (seqs [WordB, tx ''3.3 Service-Specific Latency Variation'', Many Space 0 None], para ''### 3.3 Service-Specific Latency Variation'' '''', 1),
    (seqs [WordB, tx ''3.3.1 Latency Variation Within a Cluster.'', Many Space 0 None], para ''#### 3.3.1 Latency Variation Within a Cluster'' '''', 1),
    (seqs [WordB, tx ''3.3.2 Component Impact on Tail Latency.'', Many Space 0 None], para ''#### 3.3.2 Component Impact on Tail Latency'' '''', 1),
    (seqs [WordB, tx ''3.3.3 Service Latency of Different Clusters.'', Many Space 0 None], para ''#### 3.3.3 Service Latency of Different Clusters'' '''', 1),
    (seqs [WordB, tx ''3.3.4 Exogenous Variables Affecting Latency Variation.'', Many Space 0 None], para ''#### 3.3.4 Exogenous Variables Affecting Latency Variation'' '''', 1),
    (seqs [WordB, tx ''3.3.5 Latency of Cross-Cluster RPCs.'', Many Space 0 None], para ''#### 3.3.5 Latency of Cross-Cluster RPCs'' '''', 1),
    (seqs [Opt (seqs [WordB, tx ''a'', Many Space 1 None]), tx ''Resource Utilization of RPCs'', Many Space 1 None, tx ''This section studies''], para ''## 4 Resource Utilization of RPCs'' ''This section studies'', 1),
    (seqs [WordB, tx ''4.1 CPU Cycle Breakdown'', Many Space 0 None], para ''### 4.1 CPU Cycle Breakdown'' '''', 1),
    (seqs [WordB, tx ''4.2 Fleet-Wide CPU Cycle Variation'', Many Space 0 None], para ''### 4.2 Fleet-Wide CPU Cycle Variation'' '''', 1),
    (seqs [WordB, tx ''4.3 Load-Balancing Resources'', Many Space 0 None], para ''### 4.3 Load-Balancing Resources'' '''', 1),
    (seqs [WordB, tx ''4.4 RPC Cancellations and Errors'', Many Space 0 None], para ''### 4.4 RPC Cancellations and Errors'' '''', 1),
    (seqs [WordB, tx ''Implications'', Many Space 1 None, tx ''This section briefly highlights''], para ''## 5 Implications'' ''This section briefly highlights'', 1),
    (seqs [WordB, tx ''5.1 RPC Behavior and Problems'', Many Space 0 None], para ''### 5.1 RPC Behavior and Problems'' '''', 1),
    (seqs [WordB, tx ''5.2 Software Optimizations'', Many Space 0 None], para ''### 5.2 Software Optimizations'' '''', 1),
    (seqs [WordB, tx ''5.3 Hardware Optimizations'', Many Space 0 None], para ''### 5.3 Hardware Optimizations'' '''', 1),
    (seqs [WordB, tx ''5.4 Limitations'', Many Space 0 None], para ''### 5.4 Limitations'' '''', 1),
    (seqs [WordB, tx ''Related Work'', Many Space 1 None], para ''## 6 Related Work'' '''', 1),
    (seqs [WordB, tx ''Conclusions'', Many Space 1 None, tx ''This paper presents''], para ''## 7 Conclusions'' ''This paper presents'', 1),
    (seqs [WordB, tx ''References'', Many Space 1 None, tx ''[1]'', Many Space 0 None], para ''## References'' ''[1] '', 1)]"

text \<open>The loop over the lines: the lines before the first page heading are the header, the lines after it that
  are no page headings the body.\<close>

fun header_body :: "unicode \<Rightarrow> bool \<Rightarrow> utext list \<Rightarrow> utext list \<times> utext list" where
  "header_body uc in_body [] = ([], [])"
| "header_body uc in_body (line # lines) = (if re_match uc PAGE_RE line then header_body uc True lines
     else let (header, body) = header_body uc in_body lines in
       if \<not> in_body then (line # header, body) else (header, line # body))"

definition collapse_breaks :: "unicode \<Rightarrow> utext \<Rightarrow> utext" where
  "collapse_breaks uc t = ustrip uc (sub_re uc (Many (Lit LF) 3 None) (\<lambda>_. [LF, LF]) None None t)"

definition HASHES :: re where
  "HASHES = seqs [Many Space 1 None, Grp 1 (seqs [Many (Lit 35) 2 (Some 4), Cls Space])]"

definition PAGE_LINE :: re where
  "PAGE_LINE = seqs [Bol, tx ''## Page '', Many Digit 1 None, Many (Lit LF) 0 (Some 1)]"

definition promote :: "unicode \<Rightarrow> utext \<Rightarrow> utext" where
  "promote uc t = foldl (\<lambda>t (pattern, replacement, count). sub_re uc pattern (\<lambda>_. replacement) (Some count) None t) t REPLACEMENTS"

definition sectionize_markdown :: "unicode \<Rightarrow> utext \<Rightarrow> utext" where
  "sectionize_markdown uc text =
    (let (header, body) = header_body uc False (splitlines text);
         body_text = collapse_breaks uc (joined [LF] body);
         body_text = promote uc body_text;
         body_text = sub_re uc HASHES (\<lambda>g. [LF, LF] @ group 1 g) None None body_text;
         body_text = sub_re uc PAGE_LINE (\<lambda>_. []) None None body_text;
         body_text = collapse_breaks uc body_text;
         header_text = urstrip uc (joined [LF] header) in
     header_text @ [LF, LF] @ body_text @ [LF])"

text \<open>\<open>main\<close>: the file that is written, its text and the line that is printed.\<close>

record sec_args =
  sec_input :: path
  sec_output :: "path option"
  sec_in_place :: bool

definition sec_main :: "unicode \<Rightarrow> (path \<Rightarrow> utext res) \<Rightarrow> sec_args \<Rightarrow> (path \<times> utext \<times> string) res" where
  "sec_main uc read_text args =
    bnd (if sec_in_place args then Inr (sec_input args)
         else case sec_output args of Some p \<Rightarrow> Inr p
           | None \<Rightarrow> Inl (OtherError ''provide OUTPUT_MD or use --in-place'')) (\<lambda>output_path.
    bnd (read_text (sec_input args)) (\<lambda>text.
    Inr (output_path, sectionize_markdown uc text, ''wrote '' @ path_str output_path)))"

section \<open>verify\_paper\_text.py\<close>

definition HEADING_RE :: re where
  "HEADING_RE = seqs [Bol, Grp 1 (Many (Lit 35) 2 (Some 4)), Many Space 1 None, Grp 2 (Many Dot 1 None), Eol]"

definition NUMBERED_HEADING_RE :: re where
  "NUMBERED_HEADING_RE = seqs [Bol, Alt (tx ''##'') (Alt (tx ''###'') (tx ''####'')), Many Space 1 None,
     Grp 1 (seqs [Cls (In [(49, 57)]), Star (seqs [tx ''.'', Many (In [(48, 57)]) 1 None])]), Many Space 1 None]"

definition digits_num :: "utext \<Rightarrow> nat" where
  "digits_num t = foldl (\<lambda>n c. 10 * n + nat (c - 48)) 0 t"

definition numbered_heading_tuple :: "utext \<Rightarrow> nat list" where
  "numbered_heading_tuple text = map digits_num (split_at 46 text)"

definition tuple_text :: "nat list \<Rightarrow> string" where
  "tuple_text ns = ''('' @ joined '', '' (map str_nat ns) @ (if length ns = 1 then '','' else '''') @ '')''"

text \<open>The scan of the numbered headings: the first pair that is out of order.\<close>

fun order_issue :: "nat list \<Rightarrow> nat list list \<Rightarrow> string list" where
  "order_issue previous [] = []"
| "order_issue previous (current # rest) = (if current < previous \<and> hd current \<ge> hd previous
     then [''non-monotonic heading order around '' @ tuple_text previous @ '' -> '' @ tuple_text current]
     else order_issue current rest)"

definition numbered_headings :: "unicode \<Rightarrow> utext \<Rightarrow> nat list list" where
  "numbered_headings uc text = map (\<lambda>g. numbered_heading_tuple (group 1 g)) (finditer uc NUMBERED_HEADING_RE None text)"

definition heading_texts :: "unicode \<Rightarrow> utext \<Rightarrow> utext list" where
  "heading_texts uc text = map (group 2) (finditer uc HEADING_RE None text)"

definition verify :: "unicode \<Rightarrow> utext \<Rightarrow> string list" where
  "verify uc text =
    (if contains (pts ''## Page '') text then [''page headings still present''] else []) @
    concat (map (\<lambda>required. if contains (pts required) text then [] else [''missing required heading: '' @ required])
      [''## Abstract'', ''## References'']) @
    (case numbered_headings uc text of [] \<Rightarrow> [''no numbered headings found'']
     | previous # rest \<Rightarrow> order_issue previous rest) @
    concat (map (\<lambda>h. if pts h \<in> set (heading_texts uc text) then [] else [''missing '' @ h @ '' heading''])
      [''1 Introduction'', ''6 Related Work'', ''7 Conclusions''])"

definition verify_main :: "unicode \<Rightarrow> (path \<Rightarrow> utext res) \<Rightarrow> path \<Rightarrow> (int \<times> string list) res" where
  "verify_main uc read_text input_md = bnd (read_text input_md) (\<lambda>text. let issues = verify uc text in
     Inr (if issues \<noteq> [] then (1, map (\<lambda>i. ''ERROR: '' @ i) issues) else (0, [''verification passed''])))"

section \<open>Page headings do not survive sectionizing\<close>

definition PAGE_MARK :: utext where
  "PAGE_MARK = pts ''## P''"

lemma page_mark: "LF \<notin> set PAGE_MARK" "PAGE_MARK \<noteq> []" "prefix PAGE_MARK (pts ''## Page '')"
  by (simp_all add: PAGE_MARK_def pts_def LF_def)

lemma contains_sublist: "contains a s \<longleftrightarrow> sublist a s"
  by (simp add: contains_iff sublist_def)

lemma sublist_one_break: "LF \<notin> set a \<Longrightarrow> sublist a (x @ LF # y) \<Longrightarrow> sublist a x \<or> sublist a y"
proof -
  assume a: "LF \<notin> set a" "sublist a (x @ LF # y)"
  have p: "b = []" if "prefix b (LF # z)" "set b \<subseteq> set a" for b z
    using that a(1) by (cases b) auto
  show ?thesis using a(2) p [of a y] by (auto simp: sublist_append sublist_Cons_right dest: p)
qed

lemma joined_keeps_out:
  assumes "LF \<notin> set a" "a \<noteq> []"
  shows "\<forall>l \<in> set ls. \<not> sublist a l \<Longrightarrow> \<not> sublist a (joined [LF] ls)"
  using assms by (induction "[LF]" ls rule: joined.induct) (auto dest!: sublist_one_break)

lemma header_body_lines:
  "header_body uc b ls = (header, body) \<Longrightarrow> set header \<union> set body \<subseteq> {l \<in> set ls. \<not> re_match uc PAGE_RE l}"
  by (induction uc b ls arbitrary: header body rule: header_body.induct) (fastforce split: if_splits prod.splits)+

lemma ustrip_sublist: "sublist (ustrip uc t) t" "sublist (urstrip uc t) t"
proof -
  have r: "sublist (urstrip uc t) t" for t
    unfolding urstrip_def by (metis rev_rev_ident suffix_dropWhile suffix_to_prefix prefix_imp_sublist)
  then show "sublist (urstrip uc t) t" .
  show "sublist (ustrip uc t) t"
    unfolding ustrip_def using r sublist_order.order_trans suffix_dropWhile suffix_imp_sublist by blast
qed

lemma collapse_keeps_out:
  assumes "LF \<notin> set a" "\<not> sublist a t"
  shows "\<not> sublist a (collapse_breaks uc t)"
proof -
  have "keeps_end uc (Many (Lit LF) 3 None) (\<lambda>_. [LF, LF])" by (auto simp: keeps_end_def)
  from sub_keeps_out [OF this assms(1), of "[]" t]
  have "\<not> sublist a (sub_re uc (Many (Lit LF) 3 None) (\<lambda>_. [LF, LF]) None None t)" using assms(2) by simp
  then show ?thesis unfolding collapse_breaks_def using ustrip_sublist(1) sublist_order.order_trans by blast
qed

lemma ends_Seq_iff: "t \<in> set (ends uc (Seq a b) st) \<longleftrightarrow> (\<exists>m. m \<in> set (ends uc a st) \<and> t \<in> set (ends uc b m))"
  by (simp add: Bex_def)

lemma seq_group_ends:
  assumes "t \<in> set (ends uc (Seq r (Seq (Grp i q) Eps)) st)"
  obtains a b where "a \<in> set (ends uc r st)" "b \<in> set (ends uc q a)" "fst (snd t) = fst (snd b)"
    "snd (snd t) = (i, take (length (fst (snd a)) - length (fst (snd b))) (fst (snd a))) # snd (snd b)"
proof -
  from assms obtain a c where a: "a \<in> set (ends uc r st)" and c: "c \<in> set (ends uc (Grp i q) a)" "t \<in> set (ends uc Eps c)"
    unfolding ends_Seq_iff by blast
  from c obtain b where "b \<in> set (ends uc q a)"
    "t = (fst b, fst (snd b), (i, take (length (fst (snd a)) - length (fst (snd b))) (fst (snd a))) # snd (snd b))"
    by (auto split: prod.splits)
  with a that show thesis by simp
qed

lemma seqs_two: "seqs [x, y] = Seq x (Seq y Eps)"
  by (simp add: seqs_def)

lemma hashes_keep_end: "keeps_end uc HASHES (\<lambda>g. [LF, LF] @ group 1 g)"
  unfolding keeps_end_def
proof (intro allI impI)
  fix p m s t
  assume "match_at uc HASHES p (m @ s) = Some t" and s: "fst (snd t) = s"
  then have "t \<in> set (ends uc HASHES (p, m @ s, []))" by (blast dest: match_at_ends)
  then obtain a b where a: "a \<in> set (ends uc (Many Space 1 None) (p, m @ s, []))"
    and b: "b \<in> set (ends uc (seqs [Many (Lit 35) 2 (Some 4), Cls Space]) a)"
    and t: "fst (snd t) = fst (snd b)" "snd (snd t) = (1, take (length (fst (snd a)) - length (fst (snd b))) (fst (snd a))) # snd (snd b)"
    unfolding HASHES_def seqs_two by (rule seq_group_ends)
  obtain w where w: "fst (snd a) = w @ s" using ends_suffix [OF b] s t(1) by (auto simp: suffix_def)
  then have "suffix (w @ s) (m @ s)" using ends_suffix [OF a] by simp
  then have "suffix w m" by (auto simp: suffix_append)
  moreover have "group 1 (snd (snd t)) = w" using t w s by (simp add: group_def)
  ultimately show "\<exists>e. suffix e m \<and> [LF, LF] @ group 1 (snd (snd t)) = [LF, LF] @ e" by blast
qed

lemma page_line_search:
  assumes "\<not> sublist PAGE_MARK t"
  shows "search uc PAGE_LINE p t = None"
proof -
  have "match_at uc PAGE_LINE q v = None" if v: "t = u @ v" for u v q
  proof (rule ccontr)
    assume "match_at uc PAGE_LINE q v \<noteq> None"
    then obtain st where "match_at uc PAGE_LINE q v = Some st" by blast
    then have "prefix (pts ''## Page '') v"
      unfolding PAGE_LINE_def seqs_def foldr.simps comp_def by (rule match_lits_prefix) (auto split: if_splits)
    then have "sublist PAGE_MARK v" using page_mark(3) by (meson prefix_imp_sublist prefix_order.order_trans)
    then show False using assms v by (metis sublist_append_leftI sublist_order.order_trans)
  qed
  then show ?thesis unfolding search_None_iff by blast
qed

lemma replacements_seal:
  "list_all (\<lambda>(pattern, replacement, count). seals PAGE_MARK replacement \<and> count = 1) REPLACEMENTS"
  by code_simp

lemma promote_keeps_out:
  assumes "\<not> sublist PAGE_MARK t"
  shows "\<not> sublist PAGE_MARK (promote uc t)"
proof -
  have "\<not> sublist PAGE_MARK (foldl (\<lambda>t (pattern, replacement, count).
      sub_re uc pattern (\<lambda>_. replacement) (Some count) None t) t rs)"
    if "list_all (\<lambda>(pattern, replacement, count). seals PAGE_MARK replacement \<and> count = 1) rs" for rs
    using that assms
  proof (induction rs arbitrary: t)
    case (Cons r rs)
    then obtain p b where "r = (p, b, 1)" "seals PAGE_MARK b" by (cases r) auto
    then show ?case using Cons.IH [of "sub_re uc p (\<lambda>_. b) (Some 1) None t"] Cons.prems sub_one_seals by simp
  qed simp
  then show ?thesis unfolding promote_def using replacements_seal by blast
qed

lemma framed_keeps_out:
  assumes "\<not> sublist a h" "\<not> sublist a b" "LF \<notin> set a" "a \<noteq> []"
  shows "\<not> sublist a (h @ [LF, LF] @ b @ [LF])"
  using assms sublist_break [of a h "b @ [LF]"] sublist_one_break [of a b "[]"] by auto

lemma order_issue_text: "''page headings still present'' \<notin> set (order_issue previous rest)"
  by (induction previous rest rule: order_issue.induct) auto

lemma verify_pages: "''page headings still present'' \<in> set (verify uc text) \<longleftrightarrow> contains (pts ''## Page '') text"
  by (auto simp: verify_def order_issue_text split: list.splits)

lemma sectionize_lacks_pages:
  assumes "\<forall>line \<in> set (splitlines text). re_match uc PAGE_RE line \<or> \<not> contains (pts ''## P'') line"
  shows "\<not> contains (pts ''## P'') (sectionize_markdown uc text)"
proof -
  obtain header body where hb: "header_body uc False (splitlines text) = (header, body)" by fastforce
  have lines: "\<forall>l \<in> set header \<union> set body. \<not> sublist PAGE_MARK l"
    using header_body_lines [OF hb] assms by (auto simp: contains_sublist PAGE_MARK_def)
  have "\<not> sublist PAGE_MARK (promote uc (collapse_breaks uc (joined [LF] body)))"
    using lines by (intro promote_keeps_out collapse_keeps_out joined_keeps_out page_mark) auto
  then have h: "\<not> sublist PAGE_MARK (sub_re uc HASHES (\<lambda>g. [LF, LF] @ group 1 g) None None
      (promote uc (collapse_breaks uc (joined [LF] body))))" (is "\<not> sublist PAGE_MARK ?t")
    using sub_keeps_out [OF hashes_keep_end page_mark(1), where q = "[]"] by simp
  then have "\<not> sublist PAGE_MARK (collapse_breaks uc (sub_re uc PAGE_LINE (\<lambda>_. []) None None ?t))"
    by (intro collapse_keeps_out page_mark) (simp add: sub_no_match [OF page_line_search])
  moreover have "\<not> sublist PAGE_MARK (urstrip uc (joined [LF] header))"
    using lines joined_keeps_out [OF page_mark(1,2)] ustrip_sublist(2) sublist_order.order_trans by blast
  ultimately have "\<not> sublist PAGE_MARK (sectionize_markdown uc text)"
    unfolding sectionize_markdown_def hb Let_def case_prod_conv by (intro framed_keeps_out page_mark)
  then show ?thesis by (simp only: contains_sublist PAGE_MARK_def [symmetric] not_False_eq_True)
qed

lemma page_mark_contains: "\<not> contains (pts ''## P'') t \<Longrightarrow> \<not> contains (pts ''## Page '') t"
  unfolding contains_sublist PAGE_MARK_def [symmetric]
  using sublist_order.order_trans [OF prefix_imp_sublist [OF page_mark(3)]] by blast

text \<open>C17. Sectionizing removes every page heading: when no line of the text other than the page headings
  themselves contains \<open>## P\<close>, the sectionized text does not contain it either, so the first check of
  \<open>verify\<close> passes.\<close>

theorem sectionize_removes_pages:
  assumes "\<forall>line \<in> set (splitlines text). re_match uc PAGE_RE line \<or> \<not> contains (pts ''## P'') line"
  shows "\<not> contains (pts ''## P'') (sectionize_markdown uc text) \<and>
    ''page headings still present'' \<notin> set (verify uc (sectionize_markdown uc text))"
  using sectionize_lacks_pages [OF assms] page_mark_contains verify_pages by blast

definition paper_demo :: utext where
  "paper_demo = joined [LF] (map pts [''# T'', ''## Page 1'', ''Abstract We'', ''## Page 2'', ''References [1] X''])"

theorem sectionize_removes_pages_witness:
  "contains (pts ''## Page '') paper_demo \<and> \<not> contains (pts ''## P'') (sectionize_markdown latin paper_demo)"
proof -
  have "\<forall>line \<in> set (splitlines paper_demo). re_match latin PAGE_RE line \<or> \<not> contains (pts ''## P'') line" by code_simp
  moreover have "contains (pts ''## Page '') paper_demo" by code_simp
  ultimately show ?thesis using sectionize_removes_pages [of paper_demo latin] by blast
qed

text \<open>One step of the loop over the replacements.\<close>

definition replace_step :: "unicode \<Rightarrow> nat \<Rightarrow> utext \<Rightarrow> utext" where
  "replace_step uc i t = (case REPLACEMENTS ! i of (pattern, replacement, count) \<Rightarrow>
     sub_re uc pattern (\<lambda>_. replacement) (Some count) None t)"

text \<open>The sectionizer promotes one heading twice: where the number and the title of section 2 stand
  before its first sentence, the sixth replacement makes the heading, and the seventh, meant for a
  title without its number, matches inside that heading and makes it again, after a second \<open>## 2\<close>.\<close>

theorem sectionize_promotes_twice:
  "replace_step latin 5 (pts ''2 Characteristics of RPCs at Hyperscale This section analyzes RPCs.'') =
     para ''## 2 Characteristics of RPCs at Hyperscale'' ''This section analyzes RPCs.'' \<and>
   replace_step latin 6 (para ''## 2 Characteristics of RPCs at Hyperscale'' ''This section analyzes RPCs.'') =
     pts ''## 2 '' @ para ''## 2 Characteristics of RPCs at Hyperscale'' ''This section analyzes RPCs.''"
  by code_simp

section \<open>What the verifier accepts\<close>

lemma order_issue_Nil_iff:
  "\<forall>x \<in> set (previous # rest). x \<noteq> [] \<Longrightarrow>
    order_issue previous rest = [] \<longleftrightarrow> successively (\<lambda>a b. hd a = hd b \<longrightarrow> a \<le> b) (previous # rest)"
proof (induction previous rest rule: order_issue.induct)
  case (2 previous current rest)
  have "current < previous \<and> hd current \<ge> hd previous \<longleftrightarrow> \<not> (hd previous = hd current \<longrightarrow> previous \<le> current)"
    using 2(2) by (cases current; cases previous) (auto simp: Cons_less_Cons)
  then show ?case using 2 by auto
qed simp

lemma split_at_nonempty [simp]: "split_at c s \<noteq> []"
  by (cases s) (auto split: list.splits)

lemma numbered_nonempty: "x \<in> set (numbered_headings uc text) \<Longrightarrow> x \<noteq> []"
  by (auto simp: numbered_headings_def numbered_heading_tuple_def)



end
