(* ===== verification/PaperExtract.thy ===== *)
theory PaperExtract
  imports PaperText
begin

text \<open>
  \<open>extract_paper_text.py\<close>: the text of each page, by way of \<open>pdftotext\<close>, cleaned up and put under a
  page heading. The two programs are parameters: \<open>pt_text\<close> gives what \<open>pdftotext\<close> leaves in its output
  file, \<open>pt_info\<close> what \<open>pdfinfo\<close> prints, or the exception of a failed call; \<open>pt_temp\<close> names the
  temporary directory.
\<close>

record pdf_tools =
  pt_text :: "string list \<Rightarrow> utext res"
  pt_info :: "string list \<Rightarrow> utext res"
  pt_temp :: path

section \<open>Calls\<close>

definition extract_crop :: "pdf_tools \<Rightarrow> path \<Rightarrow> nat \<Rightarrow> int \<Rightarrow> int \<Rightarrow> int \<Rightarrow> int \<Rightarrow> utext res" where
  "extract_crop pt pdf_path page_num x y width height = pt_text pt
     [''pdftotext'', ''-f'', str_nat page_num, ''-l'', str_nat page_num, ''-x'', str_int x, ''-y'', str_int y,
      ''-W'', str_int width, ''-H'', str_int height, path_str pdf_path, path_str (path_div (pt_temp pt) ''page.txt'')]"

definition detect_columns :: "pdf_tools \<Rightarrow> path \<Rightarrow> string res" where
  "detect_columns pt pdf_path = bnd (extract_crop pt pdf_path 1 0 0 5000 5000) (\<lambda>sample_text.
     Inr (if contains (pts ''Abstract'') sample_text \<and> contains (pts ''Introduction'') sample_text \<and>
            contains (pts ''in prior research.'') sample_text then ''two'' else ''one''))"

definition pdfinfo_output :: "pdf_tools \<Rightarrow> path \<Rightarrow> utext res" where
  "pdfinfo_output pt pdf_path = pt_info pt [''pdfinfo'', path_str pdf_path]"

text \<open>\<open>float(t)\<close> of a text of digits and points, and \<open>int(t)\<close> of a text of decimal digits.\<close>

definition decimal_float :: "utext \<Rightarrow> pyfloat res" where
  "decimal_float t = (case split_at 46 t of
       [a] \<Rightarrow> (if a = [] then Inl ValueError else Inr (round_double (of_nat (digits_num a))))
     | [a, b] \<Rightarrow> (if a @ b = [] then Inl ValueError
         else Inr (round_double (of_nat (digits_num (a @ b)) / 10 ^ length b)))
     | _ \<Rightarrow> Inl ValueError)"

definition PAGE_SIZE_RE :: re where
  "PAGE_SIZE_RE = seqs [tx ''Page size:'', Many Space 1 None, Grp 1 (Many (In [(48, 57), (46, 46)]) 1 None), tx '' x '',
     Grp 2 (Many (In [(48, 57), (46, 46)]) 1 None), tx '' pts'']"

definition page_dimensions :: "unicode \<Rightarrow> pdf_tools \<Rightarrow> path \<Rightarrow> nat \<Rightarrow> (int \<times> int) res" where
  "page_dimensions uc pt pdf_path page_num = bnd (pdfinfo_output pt pdf_path) (\<lambda>info.
     case search uc PAGE_SIZE_RE None info of
       None \<Rightarrow> Inl (OtherError (''could not determine page size for '' @ path_str pdf_path))
     | Some (_, _, _, g) \<Rightarrow>
         bnd (bnd (decimal_float (group 1 g)) (\<lambda>f. py_int (JFloat f))) (\<lambda>width.
         bnd (bnd (decimal_float (group 2 g)) (\<lambda>f. py_int (JFloat f))) (\<lambda>height.
         Inr (width, height))))"

definition PAGES_RE :: re where
  "PAGES_RE = seqs [tx ''Pages:'', Many Space 1 None, Grp 1 (Many Digit 1 None)]"

definition digits_value :: "unicode \<Rightarrow> utext \<Rightarrow> nat" where
  "digits_value uc t = foldl (\<lambda>n c. 10 * n + (case uc_value uc c of Some d \<Rightarrow> d | None \<Rightarrow> 0)) 0 t"

definition total_pages :: "unicode \<Rightarrow> pdf_tools \<Rightarrow> path \<Rightarrow> nat res" where
  "total_pages uc pt pdf_path = bnd (pdfinfo_output pt pdf_path) (\<lambda>info.
     case search uc PAGES_RE None info of
       None \<Rightarrow> Inl (OtherError (''could not determine page count for '' @ path_str pdf_path))
     | Some (_, _, _, g) \<Rightarrow> Inr (digits_value uc (group 1 g)))"

section \<open>Cleaning a block of text\<close>

definition BOILERPLATE_PATTERNS :: "re list" where
  "BOILERPLATE_PATTERNS = [
     seqs [Bos, tx ''This work is licensed under''],
     seqs [Bos, tx ''4.0 License'', Many (Lit 46) 0 (Some 1), Eos],
     seqs [Bos, tx ''SOSP'', Many Dot 0 (Some 1), Many (Lit 32) 0 (Some 1), Cls (Lit 8217), tx ''23,''],
     seqs [Bos, Cls (Lit 169), Many (Lit 32) 0 (Some 1), tx ''2023 Copyright held by the owner/author(s)'',
           Many (Lit 46) 0 (Some 1), Eos],
     seqs [Bos, tx ''ACM ISBN ''],
     seqs [Bos, tx ''https://doi.org/''],
     seqs [Bos, Many Digit 1 None, Eos]]"

definition clean_lines :: "unicode \<Rightarrow> utext list \<Rightarrow> utext list" where
  "clean_lines uc lines = concat (map (\<lambda>raw_line. let line = ustrip uc raw_line in
     if line = [] then [[]]
     else if list_ex (\<lambda>pattern. re_match uc pattern line) BOILERPLATE_PATTERNS then []
     else [line]) lines)"

text \<open>The loop that joins lines to paragraphs: the paragraphs so far and the buffer.\<close>

definition add_line :: "unicode \<Rightarrow> utext list \<times> utext \<Rightarrow> utext \<Rightarrow> utext list \<times> utext" where
  "add_line uc = (\<lambda>(paragraphs, buffer) line.
     if line = [] then (if buffer \<noteq> [] then (paragraphs @ [buffer], []) else (paragraphs, buffer))
     else if buffer = [] then (paragraphs, line)
     else if last buffer = 45 \<and> uc_lower uc (hd line) then (paragraphs, butlast buffer @ line)
     else (paragraphs, buffer @ [32] @ line))"

definition paragraphs_of :: "unicode \<Rightarrow> utext \<Rightarrow> utext list" where
  "paragraphs_of uc text =
    (let lines = split_at LF (replace [13] [LF] (replace [13, LF] [LF] text));
         (paragraphs, buffer) = foldl (add_line uc) ([], []) (clean_lines uc lines) in
     if buffer \<noteq> [] then paragraphs @ [buffer] else paragraphs)"

definition SPACES :: re where
  "SPACES = Many Space 1 None"

definition normalize_block :: "unicode \<Rightarrow> utext \<Rightarrow> utext" where
  "normalize_block uc text =
    (let text = joined [LF, LF] (paragraphs_of uc text);
         text = ustrip uc (sub_re uc SPACES (\<lambda>_. [32]) None None text) in
     foldl (\<lambda>t (before, after). replace before after t) text
       [(pts '' .'', pts ''.''), (pts '' ,'', pts '',''), (pts '' ;'', pts '';''), (pts '' :'', pts '':'')])"

section \<open>Pages and the document\<close>

text \<open>\<open>t[t.find(marker):]\<close> where \<open>marker\<close> occurs.\<close>

fun from_first :: "utext \<Rightarrow> utext \<Rightarrow> utext option" where
  "from_first marker [] = (if marker = [] then Some [] else None)"
| "from_first marker (c # s) = (if startswith (c # s) marker then Some (c # s) else from_first marker s)"

fun from_any :: "utext list \<Rightarrow> utext \<Rightarrow> utext" where
  "from_any [] s = s"
| "from_any (marker # markers) s = (case from_first marker s of Some t \<Rightarrow> t | None \<Rightarrow> from_any markers s)"

definition page_chunks :: "unicode \<Rightarrow> nat \<Rightarrow> utext \<Rightarrow> utext \<Rightarrow> utext" where
  "page_chunks uc page_num left right =
    (let left = (if page_num = 1 then from_any [pts ''Abstract''] left else left);
         right = (if page_num = 1 then from_any (map pts [''in prior research.'', ''CCS Concepts:'', ''Introduction'']) right
           else right);
         chunks = map (normalize_block uc) [left, right] in
     joined [LF, LF] (filter (\<lambda>chunk. chunk \<noteq> []) chunks))"

definition extract_page_text :: "unicode \<Rightarrow> pdf_tools \<Rightarrow> path \<Rightarrow> nat \<Rightarrow> string \<Rightarrow> utext res" where
  "extract_page_text uc pt pdf_path page_num mode =
    bnd (page_dimensions uc pt pdf_path page_num) (\<lambda>(width, height).
    if mode = ''two'' then
      let midpoint = width div 2; overlap = 10 in
      bnd (extract_crop pt pdf_path page_num 0 0 (midpoint + overlap) height) (\<lambda>left.
      bnd (extract_crop pt pdf_path page_num (max (midpoint - overlap) 0) 0 (width - (midpoint - overlap)) height) (\<lambda>right.
      Inr (page_chunks uc page_num left right)))
    else
      bnd (extract_crop pt pdf_path page_num 0 0 width height) (\<lambda>page_text.
      Inr (normalize_block uc page_text)))"

text \<open>\<open>path.stem\<close>\<close>

definition path_stem :: "path \<Rightarrow> string" where
  "path_stem p = (let name = path_name p; suffix = takeWhile (\<lambda>c. c \<noteq> CHR ''.'') (rev name);
       stem = take (length name - Suc (length suffix)) name in
     if suffix = rev name \<or> suffix = [] \<or> stem = [] then name else stem)"

definition page_block :: "nat \<Rightarrow> utext \<Rightarrow> utext list" where
  "page_block page_num text = [pts (''## Page '' @ str_nat page_num), [], text, []]"

definition top_lines :: "utext \<Rightarrow> string \<Rightarrow> utext list" where
  "top_lines heading mode = [pts ''# '' @ heading, [], pts (''> Extracted from `paper.pdf` with '' @ mode @
     ''-column-aware `pdftotext` processing. Raw KB-searchable text; minor PDF artifacts may remain.''), []]"

definition page_lines :: "unicode \<Rightarrow> pdf_tools \<Rightarrow> path \<Rightarrow> string \<Rightarrow> nat \<Rightarrow> utext list res" where
  "page_lines uc pt pdf_path mode page_num = bnd (extract_page_text uc pt pdf_path page_num mode) (\<lambda>text.
     Inr (page_block page_num text))"

definition build_markdown :: "unicode \<Rightarrow> pdf_tools \<Rightarrow> path \<Rightarrow> utext option \<Rightarrow> string \<Rightarrow> utext res" where
  "build_markdown uc pt pdf_path title mode =
    bnd (total_pages uc pt pdf_path) (\<lambda>page_count.
    let heading = (case title of Some t \<Rightarrow> if t \<noteq> [] then t else pts (path_stem pdf_path) | None \<Rightarrow> pts (path_stem pdf_path)) in
    bnd (mapm (page_lines uc pt pdf_path mode) [1..<page_count + 1]) (\<lambda>pages.
    Inr (urstrip uc (joined [LF] (top_lines heading mode @ concat pages)) @ [LF])))"

record ext_args =
  ext_input :: path
  ext_output :: path
  ext_title :: "utext option"
  ext_columns :: string

definition ext_main :: "unicode \<Rightarrow> pdf_tools \<Rightarrow> ext_args \<Rightarrow> (path \<times> utext \<times> string list) res" where
  "ext_main uc pt args =
    bnd (if ext_columns args = ''auto'' then detect_columns pt (ext_input args) else Inr (ext_columns args)) (\<lambda>mode.
    bnd (build_markdown uc pt (ext_input args) (ext_title args) mode) (\<lambda>markdown.
    Inr (ext_output args, markdown, [''wrote '' @ path_str (ext_output args), ''columns='' @ mode])))"

section \<open>What cleaning a block amounts to\<close>

text \<open>Reference definitions: the words of a text, and the text without the spaces that directly precede one
  of the given characters.\<close>

function uwords :: "unicode \<Rightarrow> utext \<Rightarrow> utext list" where
  "uwords uc s = (let t = dropWhile (uc_space uc) s in if t = [] then []
     else takeWhile (\<lambda>c. \<not> uc_space uc c) t # uwords uc (dropWhile (\<lambda>c. \<not> uc_space uc c) t))"
  by pat_completeness auto
termination
proof (relation "measure (\<lambda>(uc, s). length s)")
  fix uc :: unicode and s t
  assume t: "t = dropWhile (uc_space uc) s" "t \<noteq> []"
  then have "\<not> uc_space uc (hd t)" using hd_dropWhile by blast
  then have "length (dropWhile (\<lambda>c. \<not> uc_space uc c) t) < length t"
    using t(2) by (cases t) (simp_all add: le_imp_less_Suc length_dropWhile_le)
  moreover have "length t \<le> length s" using t(1) by (simp add: length_dropWhile_le)
  ultimately show "((uc, dropWhile (\<lambda>c. \<not> uc_space uc c) t), uc, s) \<in> measure (\<lambda>(uc, s). length s)" by simp
qed simp

declare uwords.simps [simp del]

fun drop_before :: "int list \<Rightarrow> utext \<Rightarrow> utext" where
  "drop_before ps (a # b # s) = (if a = 32 \<and> b \<in> set ps then drop_before ps (b # s) else a # drop_before ps (b # s))"
| "drop_before ps s = s"

lemma drop_before_Cons: "a \<noteq> 32 \<Longrightarrow> drop_before ps (a # s) = a # drop_before ps s"
  by (cases s) simp_all

lemma replace_drops:
  assumes "p \<noteq> 32"
  shows "replace [32, p] [p] s = drop_before [p] s"
proof (induction s rule: induct_list012)
  case (3 a b s)
  then show ?case using assms
    by (simp add: replace.simps [of _ _ "a # b # s"] startswith_def drop_before_Cons)
qed (simp_all add: replace.simps startswith_def)

lemma drop_before_hd: "\<exists>c t. drop_before qs (b # s) = c # t \<and> c \<in> insert b (set qs)"
proof (induction s arbitrary: b)
  case (Cons c s)
  from Cons.IH [of c] obtain d t where "drop_before qs (c # s) = d # t" "d \<in> insert c (set qs)" by blast
  then show ?case by auto
qed simp

lemma drop_before_compose:
  assumes "set ps \<inter> set qs = {}" "32 \<notin> set ps"
  shows "drop_before ps (drop_before qs s) = drop_before (ps @ qs) s"
proof (induction s rule: induct_list012)
  case (3 a b s)
  obtain c t where c: "drop_before qs (b # s) = c # t" "c \<in> insert b (set qs)" using drop_before_hd by blast
  show ?case
  proof (cases "a = 32 \<and> b \<in> set qs")
    case True
    then show ?thesis using 3(2) by simp
  next
    case False
    then have "drop_before ps (drop_before qs (a # b # s)) = drop_before ps (a # c # t)" using c(1) by simp
    moreover have "c = b" if "b \<in> set ps" using that assms(2) c(1) drop_before_Cons [of b qs s] by auto
    ultimately show ?thesis using 3(2) c assms(1) False by auto
  qed
qed simp_all

section \<open>Runs of white space\<close>

lemma space_run:
  assumes "uc_space uc c"
  shows "search uc SPACES p (c # s) =
    Some ([], Some (last (takeWhile (uc_space uc) (c # s))), dropWhile (uc_space uc) (c # s), [])"
proof -
  let ?n = "length (takeWhile (uc_space uc) (c # s))"
  have "rev [1..<Suc ?n] = ?n # rev [1..<?n]" using assms by simp
  then have "\<exists>ts. ends uc SPACES (p, c # s, []) = advance ?n (p, c # s, []) # ts"
    by (simp add: SPACES_def rep_ends_def Let_def cls_ok.simps(2) [abs_def] del: upt_Suc takeWhile.simps)
  moreover have "advance ?n (p, c # s, []) = (Some (last (takeWhile (uc_space uc) (c # s))), dropWhile (uc_space uc) (c # s), [])"
    using assms by (simp add: advance_def dropWhile_eq_drop last_conv_nth takeWhile_nth)
  ultimately show ?thesis by (auto simp: match_at_def simp del: ends.simps)
qed

lemma word_run:
  assumes "\<forall>c \<in> set w. \<not> uc_space uc c"
  shows "search uc SPACES p (w @ s) =
    map_option (\<lambda>(pre, st). (w @ pre, st)) (search uc SPACES (if w = [] then p else Some (last w)) s)"
  using assms
proof (induction w arbitrary: p)
  case Nil
  then show ?case by (simp add: option.map_ident_strong split: prod.splits)
next
  case (Cons c w)
  have "match_at uc SPACES p ((c # w) @ s) = None"
    using Cons.prems by (simp add: SPACES_def match_at_def rep_ends_def)
  then show ?case using Cons by (simp add: option.map_comp comp_def case_prod_unfold)
qed

lemma search_shortens:
  assumes "eats r" "search uc r p s = Some (pre, t)"
  shows "length (fst (snd t)) < length s"
proof -
  obtain m q where m: "s = pre @ m @ fst (snd t)" "match_at uc r q (m @ fst (snd t)) = Some t"
    using search_divides [OF assms(2)] by blast
  show ?thesis using eats_shortens [OF assms(1) match_at_ends [OF m(2)]] m(1) by simp
qed

text \<open>Replacing every run of white space by a space, case by case on what the text starts with.\<close>

definition squeeze :: "unicode \<Rightarrow> int option \<Rightarrow> utext \<Rightarrow> utext" where
  "squeeze uc p s = sub_re uc SPACES (\<lambda>_. [32]) None p s"

lemma squeeze_Nil: "squeeze uc p [] = []"
  by (simp add: SPACES_def squeeze_def sub_re.simps match_at_def rep_ends_def)

lemma squeeze_space: "uc_space uc c \<Longrightarrow>
    squeeze uc p (c # s) = 32 # squeeze uc (Some (last (takeWhile (uc_space uc) (c # s)))) (dropWhile (uc_space uc) s)"
  unfolding squeeze_def using space_run [of uc c p s]
  by (subst sub_re.simps) (simp add: le_imp_less_Suc length_dropWhile_le)

lemma squeeze_word: "\<forall>c \<in> set w. \<not> uc_space uc c \<Longrightarrow>
    squeeze uc p (w @ s) = w @ squeeze uc (if w = [] then p else Some (last w)) s"
proof (cases "search uc SPACES (if w = [] then p else Some (last w)) s")
  case None
  then show "\<forall>c \<in> set w. \<not> uc_space uc c \<Longrightarrow> ?thesis"
    unfolding squeeze_def by (simp only: sub_no_match) (simp add: sub_no_match word_run)
next
  case (Some st)
  obtain pre q t g where st: "st = (pre, q, t, g)" by (cases st)
  have l: "length t < length s" using search_shortens [OF _ Some [unfolded st]] by (simp add: SPACES_def st)
  assume "\<forall>c \<in> set w. \<not> uc_space uc c"
  then have "search uc SPACES p (w @ s) = Some (w @ pre, q, t, g)" using word_run Some st by simp
  then show ?thesis unfolding squeeze_def using Some st l
    by (simp add: sub_re.simps [of uc SPACES _ None p "w @ s"] sub_re.simps [of uc SPACES _ None _ s])
qed

section \<open>Words\<close>

lemma uwords_Nil [simp]: "uwords uc [] = []"
  by (simp add: uwords.simps)

lemma uwords_space: "uc_space uc c \<Longrightarrow> uwords uc (c # s) = uwords uc s"
  by (simp add: uwords.simps [of uc "c # s"] uwords.simps [of uc s])

lemma uwords_spaces: "\<forall>c \<in> set w. uc_space uc c \<Longrightarrow> uwords uc (w @ s) = uwords uc s"
  by (induction w) (simp_all add: uwords_space)

lemma uwords_word:
  assumes "\<forall>c \<in> set w. \<not> uc_space uc c" "w \<noteq> []" "s = [] \<or> uc_space uc (hd s)"
  shows "uwords uc (w @ s) = w # uwords uc s"
proof -
  have "takeWhile (\<lambda>c. \<not> uc_space uc c) (w @ s) = w" "dropWhile (\<lambda>c. \<not> uc_space uc c) (w @ s) = s"
    using assms by (cases s; simp add: takeWhile_append dropWhile_append)+
  moreover have "dropWhile (uc_space uc) (w @ s) = w @ s" using assms by (cases w) simp_all
  ultimately show ?thesis using assms(2) by (subst uwords.simps) (simp add: Let_def)
qed

text \<open>A text starts with white space or with a word that ends at white space or at the end.\<close>

lemma text_cases [case_names Nil space word]:
  assumes "s = [] \<Longrightarrow> P"
    and "\<And>w r. s = w @ r \<Longrightarrow> w \<noteq> [] \<Longrightarrow> \<forall>c \<in> set w. uc_space uc c \<Longrightarrow> r = [] \<or> \<not> uc_space uc (hd r) \<Longrightarrow> P"
    and "\<And>w r. s = w @ r \<Longrightarrow> w \<noteq> [] \<Longrightarrow> \<forall>c \<in> set w. \<not> uc_space uc c \<Longrightarrow> r = [] \<or> uc_space uc (hd r) \<Longrightarrow> P"
  shows P
proof (cases s)
  case (Cons c s')
  show P
  proof (cases "uc_space uc c")
    case True
    then show P using Cons assms(2) [of "takeWhile (uc_space uc) s" "dropWhile (uc_space uc) s"]
      by (metis hd_dropWhile list.discI takeWhile.simps(2) takeWhile_dropWhile_id set_takeWhileD)
  next
    case False
    then show P using Cons assms(3) [of "takeWhile (\<lambda>c. \<not> uc_space uc c) s" "dropWhile (\<lambda>c. \<not> uc_space uc c) s"]
      by (metis (mono_tags, lifting) hd_dropWhile list.discI takeWhile.simps(2) takeWhile_dropWhile_id set_takeWhileD)
  qed
qed (rule assms(1))

lemma squeeze_spaces:
  assumes "w \<noteq> []" "\<forall>c \<in> set w. uc_space uc c" "r = [] \<or> \<not> uc_space uc (hd r)"
  shows "\<exists>q. squeeze uc p (w @ r) = 32 # squeeze uc q r"
proof -
  obtain c w' where w: "w = c # w'" using assms(1) by (cases w) auto
  have "dropWhile (uc_space uc) (w' @ r) = r" using assms(2,3) w by (cases r) (auto simp: dropWhile_append)
  then show ?thesis using squeeze_space [of uc c p "w' @ r"] assms(2) w by auto
qed

lemma uwords_Nil_iff: "uwords uc s = [] \<longleftrightarrow> (\<forall>c \<in> set s. uc_space uc c)"
  by (subst uwords.simps) (simp add: Let_def)

lemma squeeze_words:
  assumes "uc_space uc 32"
  shows "squeeze uc p s = (if s \<noteq> [] \<and> uc_space uc (hd s) then [32] else []) @ joined [32] (uwords uc s) @
    (if uwords uc s \<noteq> [] \<and> uc_space uc (last s) then [32] else [])"
proof (induction s arbitrary: p rule: length_induct)
  case (1 s)
  show ?case
  proof (cases rule: text_cases [where s = s and uc = uc])
    case Nil
    then show ?thesis by (simp add: squeeze_Nil)
  next
    case (space w r)
    obtain q where q: "squeeze uc p s = 32 # squeeze uc q r" using squeeze_spaces space by blast
    have u: "uwords uc s = uwords uc r" using space by (simp add: uwords_spaces)
    have s: "hd s = hd w" "s \<noteq> []" "uc_space uc (hd w)" using space by simp_all
    show ?thesis
    proof (cases "r = []")
      case True
      then show ?thesis using q u s by (simp add: squeeze_Nil)
    next
      case False
      have "squeeze uc q r = joined [32] (uwords uc r) @ (if uwords uc r \<noteq> [] \<and> uc_space uc (last r) then [32] else [])"
        using 1 [rule_format, of r q] space False by simp
      moreover have "last s = last r" using space False by simp
      ultimately show ?thesis using q u s by simp
    qed
  next
    case (word w r)
    have q: "squeeze uc p s = w @ squeeze uc (Some (last w)) r" "uwords uc s = w # uwords uc r"
      using word squeeze_word [of w uc p r] uwords_word [of w uc r] by simp_all
    have s: "s \<noteq> []" "\<not> uc_space uc (hd s)" using word by simp_all
    show ?thesis
    proof (cases "r = []")
      case True
      then show ?thesis using q word s by (simp add: squeeze_Nil)
    next
      case False
      then have r: "squeeze uc (Some (last w)) r = [32] @ joined [32] (uwords uc r) @
          (if uwords uc r \<noteq> [] \<and> uc_space uc (last r) then [32] else [])"
        using word 1 [rule_format, of r "Some (last w)"] by simp
      have l: "last s = last r" using word False by simp
      have e: "uc_space uc (last r)" if "uwords uc r = []"
        using that False by (simp add: uwords_Nil_iff)
      show ?thesis
      proof (cases "uwords uc r")
        case Nil
        then show ?thesis using q r l s e by simp
      next
        case (Cons x xs)
        then show ?thesis using q r l s by simp
      qed
    qed
  qed
qed

text \<open>The words are not empty and hold no white space, so their joined text has nothing to strip.\<close>

lemma uwords_words: "w \<in> set (uwords uc s) \<Longrightarrow> w \<noteq> [] \<and> (\<forall>c \<in> set w. \<not> uc_space uc c)"
proof (induction uc s rule: uwords.induct)
  case (1 uc s)
  let ?t = "dropWhile (uc_space uc) s"
  show ?case
  proof (cases "?t = []")
    case True
    then show ?thesis using "1.prems" by (simp add: uwords.simps [of uc s])
  next
    case False
    then have h: "\<not> uc_space uc (hd ?t)" using hd_dropWhile by blast
    have "uwords uc s = takeWhile (\<lambda>c. \<not> uc_space uc c) ?t # uwords uc (dropWhile (\<lambda>c. \<not> uc_space uc c) ?t)"
      using False by (subst uwords.simps) (simp add: Let_def)
    then consider "w = takeWhile (\<lambda>c. \<not> uc_space uc c) ?t" | "w \<in> set (uwords uc (dropWhile (\<lambda>c. \<not> uc_space uc c) ?t))"
      using "1.prems" by auto
    then show ?thesis
    proof cases
      case 1
      then show ?thesis using h False by (cases ?t) (auto dest: set_takeWhileD)
    next
      case 2
      then show ?thesis using "1.IH" [OF refl False] by blast
    qed
  qed
qed

lemma joined_ends:
  assumes "\<forall>w \<in> set ws. w \<noteq> [] \<and> (\<forall>c \<in> set w. \<not> uc_space uc c)" "ws \<noteq> []"
  shows "joined sep ws \<noteq> [] \<and> \<not> uc_space uc (hd (joined sep ws)) \<and> \<not> uc_space uc (last (joined sep ws))"
  using assms by (induction sep ws rule: joined.induct) auto

lemma ustrip_frame:
  assumes "t = [] \<or> \<not> uc_space uc (hd t) \<and> \<not> uc_space uc (last t)" "\<forall>c \<in> set a \<union> set b. uc_space uc c"
  shows "ustrip uc (a @ t @ b) = t"
proof -
  show ?thesis
  proof (cases "t = []")
    case True
    then have n: "dropWhile (uc_space uc) (a @ t @ b) = []"
      using assms(2) by (simp only: dropWhile_eq_Nil_conv) auto
    show ?thesis unfolding ustrip_def urstrip_def n using True by simp
  next
    case False
    then have d: "dropWhile (uc_space uc) (a @ t @ b) = t @ b" using assms by (cases t) (auto simp: dropWhile_append)
    from False have "dropWhile (uc_space uc) (rev b @ rev t) = rev t"
      using assms by (cases t rule: rev_cases) (auto simp: dropWhile_append)
    then show ?thesis using d False by (simp add: ustrip_def urstrip_def)
  qed
qed

lemma strip_squeeze: "uc_space uc 32 \<Longrightarrow> ustrip uc (squeeze uc p s) = joined [32] (uwords uc s)"
proof -
  assume "uc_space uc 32"
  moreover have "joined [32] (uwords uc s) = [] \<or> \<not> uc_space uc (hd (joined [32] (uwords uc s))) \<and>
      \<not> uc_space uc (last (joined [32] (uwords uc s)))"
    using joined_ends [of "uwords uc s" uc "[32]"] uwords_words by (cases "uwords uc s = []") auto
  ultimately show ?thesis by (simp only: squeeze_words) (rule ustrip_frame, auto)
qed

lemma uwords_append: "uc_space uc c \<Longrightarrow> uwords uc (a @ c # b) = uwords uc a @ uwords uc b"
proof (induction a rule: length_induct)
  case (1 a)
  show ?case
  proof (cases rule: text_cases [where s = a and uc = uc])
    case Nil
    then show ?thesis using 1(2) by (simp add: uwords_space)
  next
    case (space w r)
    have "uwords uc (r @ c # b) = uwords uc r @ uwords uc b" using 1 space by simp
    then show ?thesis using space by (simp add: uwords_spaces)
  next
    case (word w r)
    have "uwords uc (r @ c # b) = uwords uc r @ uwords uc b" using 1 word by simp
    moreover have "r @ c # b = [] \<or> uc_space uc (hd (r @ c # b))" using word 1(2) by (cases r) auto
    ultimately show ?thesis using word by (simp add: uwords_word)
  qed
qed

lemma uwords_joined: "uc_space uc LF \<Longrightarrow> uwords uc (joined [LF, LF] ps) = concat (map (uwords uc) ps)"
  by (induction "[LF, LF]" ps rule: joined.induct) (simp_all add: uwords_append uwords_space)

lemma drop_before_cong: "set ps = set qs \<Longrightarrow> drop_before ps s = drop_before qs s"
  by (induction s rule: induct_list012) simp_all

lemma normalize_block_eq:
  assumes "unicode_ok uc"
  shows "normalize_block uc text =
    drop_before (pts ''.,;:'') (joined [32] (concat (map (uwords uc) (paragraphs_of uc text))))"
proof -
  have sp: "uc_space uc 32" "uc_space uc LF" using assms by (auto simp: unicode_ok_def LF_def)
  have t: "ustrip uc (sub_re uc SPACES (\<lambda>_. [32]) None None (joined [LF, LF] (paragraphs_of uc text))) =
      joined [32] (concat (map (uwords uc) (paragraphs_of uc text)))"
    using strip_squeeze [OF sp(1)] uwords_joined [OF sp(2)] by (simp add: squeeze_def)
  have "pts ''.,;:'' = [46, 44, 59, 58]" by (simp add: pts_def)
  then show ?thesis
    unfolding normalize_block_def Let_def t
    by (simp add: pts_def replace_drops drop_before_compose) (rule drop_before_cong, auto)
qed

text \<open>C33. Cleaning a block leaves its words, one space apart, with no space before a full stop, comma,
  semicolon or colon: the paragraph breaks that the loop has found are not in the result.\<close>

theorem normalize_block_words:
  assumes "unicode_ok uc"
  shows "normalize_block uc text =
    drop_before (pts ''.,;:'') (joined [32] (concat (map (uwords uc) (paragraphs_of uc text))))"
  using assms by (rule normalize_block_eq)

lemma latin_ok: "unicode_ok latin"
  by (auto simp: unicode_ok_def latin_def is_break_def)

theorem normalize_block_words_witness:
  "normalize_block latin (pts ''a b- '' @ [LF] @ pts ''c .'' @ [LF, LF] @ pts ''d'') = pts ''a bc. d''"
proof -
  let ?t = "pts ''a b- '' @ [LF] @ pts ''c .'' @ [LF, LF] @ pts ''d''"
  have "unicode_ok latin" by (rule latin_ok)
  moreover have "paragraphs_of latin ?t = [pts ''a bc .'', pts ''d'']" by code_simp
  moreover have "drop_before (pts ''.,;:'') (joined [32] (concat (map (uwords latin) [pts ''a bc .'', pts ''d'']))) =
      pts ''a bc. d''" by code_simp
  ultimately show ?thesis using normalize_block_words [of latin ?t] by simp
qed

section \<open>The extracted document\<close>

lemma urstrip_keeps:
  assumes "\<not> uc_space uc c"
  shows "\<exists>t. urstrip uc (a @ c # b) = a @ c # t"
proof -
  have "dropWhile (uc_space uc) (rev b @ c # rev a) = dropWhile (uc_space uc) (rev b) @ c # rev a"
    using assms by (cases "\<forall>x \<in> set (rev b). uc_space uc x") (auto simp: dropWhile_append)
  then show ?thesis by (simp add: urstrip_def)
qed

lemma joined_split: "joined sep (xs @ y # ys) = (if xs = [] then [] else joined sep xs @ sep) @ y @ (if ys = [] then [] else sep @ joined sep ys)"
proof (induction sep xs rule: joined.induct)
  case (1 sep)
  then show ?case by (cases ys) simp_all
next
  case (2 sep x)
  then show ?case by (cases ys) simp_all
qed simp

lemma build_markdown_Inr:
  assumes "build_markdown uc pt pdf_path title mode = Inr md"
  obtains n heading texts where "total_pages uc pt pdf_path = Inr n"
    "heading = (case title of Some t \<Rightarrow> if t \<noteq> [] then t else pts (path_stem pdf_path) | None \<Rightarrow> pts (path_stem pdf_path))"
    "list_all2 (\<lambda>k text. extract_page_text uc pt pdf_path k mode = Inr text) [1..<n + 1] texts"
    "md = urstrip uc (joined [LF] (top_lines heading mode @ concat (map2 page_block [1..<n + 1] texts))) @ [LF]"
proof -
  from assms obtain n pages where n: "total_pages uc pt pdf_path = Inr n"
    and p: "list_all2 (\<lambda>k y. page_lines uc pt pdf_path mode k = Inr y) [1..<n + 1] pages"
    and md: "md = urstrip uc (joined [LF] (top_lines (case title of Some t \<Rightarrow> if t \<noteq> [] then t else pts (path_stem pdf_path)
        | None \<Rightarrow> pts (path_stem pdf_path)) mode @ concat pages)) @ [LF]"
    by (auto simp: build_markdown_def bnd_Inr_iff mapm_Inr_iff Let_def)
  have "\<exists>texts. list_all2 (\<lambda>k text. extract_page_text uc pt pdf_path k mode = Inr text) ks texts \<and> pages = map2 page_block ks texts"
    if "list_all2 (\<lambda>k y. page_lines uc pt pdf_path mode k = Inr y) ks pages" for ks pages
    using that
  proof (induction rule: list_all2_induct)
    case (Cons k ks y ys)
    then obtain texts where "list_all2 (\<lambda>k text. extract_page_text uc pt pdf_path k mode = Inr text) ks texts"
      "ys = map2 page_block ks texts" by blast
    moreover obtain t where "extract_page_text uc pt pdf_path k mode = Inr t" "y = page_block k t"
      using Cons(1) by (auto simp: page_lines_def bnd_Inr_iff)
    ultimately show ?case by (intro exI [of _ "t # texts"]) simp
  qed simp
  from this [OF p] n md that show thesis by blast
qed

text \<open>C35. The verifier refuses every document as the extractor writes it: the page headings that each page
  gets are an issue to it, so the extracted Markdown has to be sectionized before it is verified.\<close>

theorem extracted_fails_verify:
  assumes "unicode_ok uc" "build_markdown uc pt pdf_path title mode = Inr md"
    and "total_pages uc pt pdf_path = Inr (Suc n)"
  shows "''page headings still present'' \<in> set (verify uc md)"
  using assms(2)
proof (rule build_markdown_Inr)
  fix k heading texts
  assume k: "total_pages uc pt pdf_path = Inr k"
    and t: "list_all2 (\<lambda>k text. extract_page_text uc pt pdf_path k mode = Inr text) [1..<k + 1] texts"
    and md: "md = urstrip uc (joined [LF] (top_lines heading mode @ concat (map2 page_block [1..<k + 1] texts))) @ [LF]"
  obtain t1 ts where texts: "texts = t1 # ts" using t assms(3) k by (cases texts) auto
  have page: "page_block 1 t1 = (pts ''## Page '' @ [49]) # [[], t1, []]"
  proof -
    have "str_nat 1 = ''1''" by code_simp
    then show ?thesis by (simp add: page_block_def pts_def)
  qed
  have "[1..<k + 1] = 1 # [2..<k + 1]" using assms(3) k by (simp add: upt_conv_Cons numeral_2_eq_2 del: upt_Suc)
  then have "concat (map2 page_block [1..<k + 1] texts) = (pts ''## Page '' @ [49]) # [[], t1, []] @ concat (map2 page_block [2..<k + 1] ts)"
    using texts page by simp
  then obtain a b where "joined [LF] (top_lines heading mode @ concat (map2 page_block [1..<k + 1] texts)) = (a @ pts ''## Page '') @ 49 # b"
    using joined_split [of "[LF]" "top_lines heading mode" "pts ''## Page '' @ [49]"] by fastforce
  moreover have "\<not> uc_space uc 49" using assms(1) by (auto simp: unicode_ok_def)
  ultimately obtain c where "md = (a @ pts ''## Page '') @ 49 # c @ [LF]"
    using urstrip_keeps [of uc 49 "a @ pts ''## Page ''" b] md by auto
  then have "contains (pts ''## Page '') md" by (auto simp: contains_iff)
  then show ?thesis by (simp only: verify_pages)
qed

definition demo_tools :: pdf_tools where
  "demo_tools = \<lparr>pt_text = (\<lambda>_. Inr (pts ''Some text.'')), pt_info = (\<lambda>_. Inr (pts ''Pages: 1 Page size: 10 x 20 pts'')),
     pt_temp = path_of ''/tmp''\<rparr>"

definition demo_markdown :: utext where
  "demo_markdown = (case build_markdown latin demo_tools (path_of ''p.pdf'') None ''one'' of Inr md \<Rightarrow> md | Inl _ \<Rightarrow> [])"

lemma crop_demo: "pt_text demo_tools cmd = Inr (pts ''Some text.'')"
  by (simp add: demo_tools_def)

lemma demo_markdown_built: "build_markdown latin demo_tools (path_of ''p.pdf'') None ''one'' = Inr demo_markdown"
  "total_pages latin demo_tools (path_of ''p.pdf'') = Inr 1"
proof -
  have "page_dimensions latin demo_tools (path_of ''p.pdf'') 1 = Inr (10, 20)" by code_simp
  moreover have t: "total_pages latin demo_tools (path_of ''p.pdf'') = Inr 1" by code_simp
  ultimately have "\<not> isl (build_markdown latin demo_tools (path_of ''p.pdf'') None ''one'')"
    by (simp add: build_markdown_def page_lines_def extract_page_text_def extract_crop_def crop_demo Let_def)
  then show "build_markdown latin demo_tools (path_of ''p.pdf'') None ''one'' = Inr demo_markdown"
    by (auto simp: demo_markdown_def split: sum.splits)
  show "total_pages latin demo_tools (path_of ''p.pdf'') = Inr 1" by (rule t)
qed

theorem extracted_fails_verify_witness:
  "build_markdown latin demo_tools (path_of ''p.pdf'') None ''one'' = Inr demo_markdown \<and>
    ''page headings still present'' \<in> set (verify latin demo_markdown)"
  using extracted_fails_verify [OF latin_ok demo_markdown_built(1), of 0] demo_markdown_built by simp

section \<open>From the PDF to sections\<close>

lemma prefix_joined:
  assumes "joined [LF] ls = u @ z" "ls \<noteq> []"
  shows "\<exists>i v r. i < length ls \<and> ls ! i = v @ r \<and> u = joined [LF] (take i ls @ [v]) \<and> prefix r z"
  using assms
proof (induction "[LF]" ls arbitrary: u rule: joined.induct)
  case (2 x)
  then show ?case by (intro exI [of _ 0] exI [of _ u] exI [of _ z]) simp
next
  case (3 x y ys)
  then consider (short) r where "x = u @ r" "prefix r z" | (long) u' where "u = x @ LF # u'" "joined [LF] (y # ys) = u' @ z"
    by (auto simp: append_eq_append_conv2 Cons_eq_append_conv prefix_def)
  then show ?case
  proof cases
    case short
    then show ?thesis by (intro exI [of _ 0] exI [of _ u] exI [of _ r]) simp
  next
    case long
    then obtain i v r where i: "i < length (y # ys)" "(y # ys) ! i = v @ r" "u' = joined [LF] (take i (y # ys) @ [v])" "prefix r z"
      using 3(1) by blast
    then have "u = joined [LF] (take (Suc i) (x # y # ys) @ [v])" using long(1) by (cases i) simp_all
    then show ?thesis using i by (intro exI [of _ "Suc i"] exI [of _ v] exI [of _ r]) simp
  qed
qed simp

lemma splitlines_from_line:
  "\<forall>c \<in> set w. \<not> is_break c \<Longrightarrow> splitlines_from acc (w @ LF # s) = (rev acc @ w) # splitlines_from [] s"
  by (induction w arbitrary: acc) (auto simp: is_break_def LF_def)

lemma splitlines_joined:
  "\<forall>l \<in> set ls. \<forall>c \<in> set l. \<not> is_break c \<Longrightarrow> ls \<noteq> [] \<Longrightarrow> splitlines (joined [LF] ls @ [LF]) = ls"
  unfolding splitlines_def
  by (induction "[LF]" ls rule: joined.induct) (simp_all add: splitlines_from_line)

lemma split_at_joined: "joined [c] (split_at c s) = s"
proof (induction s)
  case (Cons x s)
  obtain l ls where "split_at c s = l # ls" using split_at_nonempty [of c s] by (cases "split_at c s") auto
  with Cons show ?case by (cases ls) auto
qed simp

lemma joined_append: "xs \<noteq> [] \<Longrightarrow> ys \<noteq> [] \<Longrightarrow> joined sep (xs @ ys) = joined sep xs @ sep @ joined sep ys"
  by (induction sep xs rule: joined.induct) (auto simp: neq_Nil_conv)

lemma joined_flatten: "joined [LF] (concat (map (split_at LF) ls)) = joined [LF] ls"
proof (induction ls)
  case (Cons x ls)
  then show ?case
    by (cases ls) (simp_all add: split_at_joined joined_append)
qed simp

lemma split_at_chars: "l \<in> set (split_at c s) \<Longrightarrow> x \<in> set l \<Longrightarrow> x \<in> set s \<and> x \<noteq> c"
  by (induction s arbitrary: l) (fastforce split: if_splits list.splits)+

lemma split_at_id: "c \<notin> set s \<Longrightarrow> split_at c s = [s]"
  by (induction s) auto

text \<open>The characters of a cleaned block.\<close>

lemma replace_chars: "set (replace a b s) \<subseteq> set s \<union> set b"
proof (induction a b s rule: replace.induct)
  case (1 a b s)
  show ?case
    by (subst replace.simps) (use 1 in \<open>auto dest: in_set_dropD list.set_sel(2) simp: list.set_sel(1)\<close>)
qed

lemma paragraphs_chars:
  assumes "p \<in> set (paragraphs_of uc t)" "c \<in> set p"
  shows "c \<in> set t \<union> {32, LF}"
proof -
  have lines: "c \<in> set t \<union> {LF}" if l: "l \<in> set (clean_lines uc (split_at LF (replace [13] [LF] (replace [13, LF] [LF] t))))" and c: "c \<in> set l" for l c
  proof -
    obtain raw where "raw \<in> set (split_at LF (replace [13] [LF] (replace [13, LF] [LF] t)))" "l = ustrip uc raw"
      using l c by (auto simp: clean_lines_def Let_def split: if_splits)
    then have "c \<in> set (replace [13] [LF] (replace [13, LF] [LF] t))"
      using c split_at_chars set_mono_sublist [OF ustrip_sublist(1)] by fastforce
    then show ?thesis using replace_chars [of "[13]" "[LF]"] replace_chars [of "[13, LF]" "[LF]" t] by fastforce
  qed
  have add: "\<forall>p \<in> set (fst st) \<union> {snd st}. set p \<subseteq> A \<Longrightarrow> set l \<subseteq> A \<Longrightarrow> 32 \<in> A \<Longrightarrow>
      \<forall>p \<in> set (fst (add_line uc st l)) \<union> {snd (add_line uc st l)}. set p \<subseteq> A" for st l A
    by (auto simp: add_line_def split: prod.splits) (meson in_set_butlastD subsetD)
  have fold: "\<forall>p \<in> set (fst (foldl (add_line uc) st ls)) \<union> {snd (foldl (add_line uc) st ls)}. set p \<subseteq> A"
    if "\<forall>p \<in> set (fst st) \<union> {snd st}. set p \<subseteq> A" "\<forall>l \<in> set ls. set l \<subseteq> A" "32 \<in> A" for st ls A
    using that
  proof (induction ls arbitrary: st)
    case (Cons l ls)
    have "\<forall>p \<in> set (fst (add_line uc st l)) \<union> {snd (add_line uc st l)}. set p \<subseteq> A"
      by (rule add) (use Cons.prems in simp_all)
    from Cons.IH [OF this] Cons.prems(2,3) show ?case by simp
  qed simp
  let ?ls = "clean_lines uc (split_at LF (replace [13] [LF] (replace [13, LF] [LF] t)))"
  obtain ps b where f: "foldl (add_line uc) ([], []) ?ls = (ps, b)" by fastforce
  have "\<forall>l \<in> set ?ls. set l \<subseteq> set t \<union> {32, LF}" using lines by blast
  with fold [of "([], [])" "set t \<union> {32, LF}" ?ls] have "\<forall>p \<in> set ps \<union> {b}. set p \<subseteq> set t \<union> {32, LF}" unfolding f by simp
  moreover have "p \<in> set ps \<union> {b}" using assms(1) by (auto simp: paragraphs_of_def f split: if_splits)
  ultimately show ?thesis using assms(2) by blast
qed

lemma uwords_chars: "w \<in> set (uwords uc s) \<Longrightarrow> set w \<subseteq> set s"
proof (induction uc s rule: uwords.induct)
  case (1 uc s)
  let ?t = "dropWhile (uc_space uc) s"
  show ?case
  proof (cases "?t = []")
    case True
    then show ?thesis using "1.prems" by (simp add: uwords.simps [of uc s])
  next
    case False
    have t: "set ?t \<subseteq> set s" by (simp add: set_dropWhileD subsetI)
    have "uwords uc s = takeWhile (\<lambda>c. \<not> uc_space uc c) ?t # uwords uc (dropWhile (\<lambda>c. \<not> uc_space uc c) ?t)"
      using False by (subst uwords.simps) (simp add: Let_def)
    then consider "w = takeWhile (\<lambda>c. \<not> uc_space uc c) ?t" | "w \<in> set (uwords uc (dropWhile (\<lambda>c. \<not> uc_space uc c) ?t))"
      using "1.prems" by auto
    then show ?thesis
    proof cases
      case 1
      then show ?thesis using t set_takeWhileD by fast
    next
      case 2
      then have "set w \<subseteq> set (dropWhile (\<lambda>c. \<not> uc_space uc c) ?t)" using "1.IH" [OF refl False] by blast
      then show ?thesis using t set_dropWhileD by fast
    qed
  qed
qed

lemma drop_before_chars: "set (drop_before ps s) \<subseteq> set s"
  by (induction s rule: induct_list012) auto

lemma joined_chars: "set (joined sep ls) \<subseteq> set sep \<union> \<Union> (set ` set ls)"
  by (induction sep ls rule: joined.induct) auto

lemma normalize_block_chars:
  assumes "unicode_ok uc" "c \<in> set (normalize_block uc t)"
  shows "c = 32 \<or> c \<in> set t \<and> \<not> uc_space uc c"
proof -
  have sp: "uc_space uc 32" "uc_space uc LF" using assms(1) by (auto simp: unicode_ok_def LF_def)
  have "c \<in> set (joined [32] (concat (map (uwords uc) (paragraphs_of uc t))))"
    using assms(2) drop_before_chars unfolding normalize_block_eq [OF assms(1)] by fast
  then consider "c = 32" | p w where "p \<in> set (paragraphs_of uc t)" "w \<in> set (uwords uc p)" "c \<in> set w"
    using joined_chars [of "[32]"] by fastforce
  then show ?thesis
  proof cases
    case 2
    then have "\<not> uc_space uc c" "c \<in> set p" using uwords_words uwords_chars by blast+
    then show ?thesis using paragraphs_chars [OF 2(1)] sp by auto
  qed simp
qed

lemma from_any_chars: "set (from_any ms s) \<subseteq> set s"
proof -
  have f: "from_first m s = Some t \<Longrightarrow> set t \<subseteq> set s" for m t s
    by (induction m s rule: from_first.induct) (auto split: if_splits)
  show ?thesis by (induction ms s rule: from_any.induct) (use f in \<open>auto split: option.splits\<close>)
qed

lemma page_chunks_chars:
  assumes "unicode_ok uc" "35 \<notin> set l" "35 \<notin> set r" "c \<in> set (page_chunks uc k l r)"
  shows "c = LF \<or> c = 32 \<or> c \<noteq> 35 \<and> \<not> uc_space uc c"
proof -
  define l' where "l' = (if k = 1 then from_any [pts ''Abstract''] l else l)"
  define r' where "r' = (if k = 1 then from_any (map pts [''in prior research.'', ''CCS Concepts:'', ''Introduction'']) r else r)"
  have lr: "35 \<notin> set l'" "35 \<notin> set r'"
    using assms(2,3) from_any_chars [of "[pts ''Abstract'']" l]
      from_any_chars [of "map pts [''in prior research.'', ''CCS Concepts:'', ''Introduction'']" r]
    unfolding l'_def r'_def by (auto simp del: from_any.simps list.map)
  have "page_chunks uc k l r = joined [LF, LF] (filter (\<lambda>chunk. chunk \<noteq> []) [normalize_block uc l', normalize_block uc r'])"
    by (simp only: page_chunks_def Let_def l'_def r'_def list.map)
  moreover have "set (filter (\<lambda>chunk. chunk \<noteq> []) [normalize_block uc l', normalize_block uc r']) \<subseteq>
      {normalize_block uc l', normalize_block uc r'}" by auto
  ultimately have "c \<in> {LF} \<union> set (normalize_block uc l') \<union> set (normalize_block uc r')"
    using assms(4) joined_chars [of "[LF, LF]" "filter (\<lambda>chunk. chunk \<noteq> []) [normalize_block uc l', normalize_block uc r']"] by fastforce
  then show ?thesis using normalize_block_chars [OF assms(1)] lr by blast
qed

text \<open>A PDF whose text has no \<open>#\<close>.\<close>

definition hash_free :: "pdf_tools \<Rightarrow> bool" where
  "hash_free pt \<longleftrightarrow> (\<forall>cmd s. pt_text pt cmd = Inr s \<longrightarrow> 35 \<notin> set s)"

text \<open>The lines of a page's text: no white space but spaces, and no \<open>#\<close> unless the PDF has one.\<close>

lemma page_text_chars:
  assumes "unicode_ok uc" "extract_page_text uc pt pdf k mode = Inr t" "hash_free pt"
    and "c \<in> set t"
  shows "c = LF \<or> c = 32 \<or> c \<noteq> 35 \<and> \<not> uc_space uc c"
proof -
  have crop: "35 \<notin> set s" if "extract_crop pt pdf k x y w h = Inr s" for x y w h s
    using that assms(3) by (auto simp: extract_crop_def hash_free_def)
  show ?thesis
  proof (cases "mode = ''two''")
    case True
    then obtain x y w h x' y' w' h' l r where lr: "extract_crop pt pdf k x y w h = Inr l" "extract_crop pt pdf k x' y' w' h' = Inr r"
      and t: "t = page_chunks uc k l r"
      using assms(2) unfolding extract_page_text_def Let_def by (auto simp: bnd_Inr_iff)
    show ?thesis using page_chunks_chars [OF assms(1) crop [OF lr(1)] crop [OF lr(2)]] assms(4) t by blast
  next
    case False
    then obtain x y w h s where s: "extract_crop pt pdf k x y w h = Inr s" and t: "t = normalize_block uc s"
      using assms(2) unfolding extract_page_text_def by (auto simp: bnd_Inr_iff)
    show ?thesis using normalize_block_chars [OF assms(1)] crop [OF s] assms(4) t by blast
  qed
qed

lemma digit_points:
  assumes "unicode_ok uc" "is_digit c"
  shows "uc_value uc (of_char c) \<noteq> None" "\<not> uc_space uc (of_char c)" "\<not> is_break (of_char c)" "of_char c \<noteq> (35 :: int)"
proof -
  have n: "48 \<le> (of_char c :: int)" "(of_char c :: int) \<le> 57" using assms(2) by (auto simp: is_digit_def)
  then have "(of_char c :: int) \<in> {0..<128}" by simp
  then show "uc_value uc (of_char c) \<noteq> None" "\<not> uc_space uc (of_char c)" using assms(1) n by (simp_all add: unicode_ok_def)
  show "\<not> is_break (of_char c)" "of_char c \<noteq> (35 :: int)" using n by (auto simp: is_break_def)
qed

lemma page_heading_matches:
  assumes "unicode_ok uc"
  shows "re_match uc PAGE_RE (pts (''## Page '' @ str_nat k))"
proof -
  define d :: utext where "d = pts (str_nat k)"
  have d: "\<forall>c \<in> set d. uc_value uc c \<noteq> None" "d \<noteq> []"
    using str_nat_digits [of k] digit_points [OF assms] by (auto simp: d_def pts_def)
  have e: "pts (''## Page '' @ str_nat k) = pts ''## Page '' @ d" by (simp add: d_def pts_def)
  have "takeWhile (cls_ok uc Digit) d = d" using d(1) by simp
  then have "length (takeWhile (cls_ok uc Digit) d) = length d" by (simp only:)
  then have m: "advance (length d) (Some 32, d, []) \<in> set (ends uc (Many Digit 1 None) (Some 32, d, []))"
    using d(2) by (auto simp: rep_ends_iff Suc_le_eq intro!: exI [of _ "length d"])
  have "ends uc (lits (pts ''## Page '')) (None, pts ''## Page '' @ d, []) = [(Some 32, d, [])]"
    by (simp add: ends_lits) (simp add: pts_def)
  then have "advance (length d) (Some 32, d, []) \<in> set (ends uc PAGE_RE (None, pts ''## Page '' @ d, []))"
    using m unfolding PAGE_RE_def seqs_def foldr.simps comp_def id_apply ends_Seq_iff
    by (auto simp: next_char_def advance_def simp del: ends.simps(5))
  then show ?thesis unfolding re_match_def match_at_def e by (auto split: list.splits)
qed

text \<open>A line of the document: a page heading, or a line without \<open>## P\<close>; none contains a line end.\<close>

definition plain_line :: "unicode \<Rightarrow> utext \<Rightarrow> bool" where
  "plain_line uc l \<longleftrightarrow> (\<forall>c \<in> set l. \<not> is_break c) \<and> \<not> sublist PAGE_MARK l"

lemma hash_free_plain: "\<forall>c \<in> set l. \<not> is_break c \<and> c \<noteq> 35 \<Longrightarrow> plain_line uc l"
  by (auto simp: plain_line_def PAGE_MARK_def pts_def dest!: set_mono_sublist)

lemma sublist_plain: "plain_line uc l \<Longrightarrow> sublist v l \<Longrightarrow> plain_line uc v"
  unfolding plain_line_def using set_mono_sublist sublist_order.order_trans by blast

lemma top_lines_plain:
  assumes "\<forall>c \<in> set heading. \<not> is_break c \<and> c \<noteq> 35" "mode \<in> {''one'', ''two''}" "l \<in> set (top_lines heading mode)"
  shows "plain_line uc l"
proof -
  have "\<not> sublist PAGE_MARK (pts ''# '' @ heading)"
  proof
    assume "sublist PAGE_MARK (pts ''# '' @ heading)"
    then have "sublist [35, 35, 32, 80] (35 # 32 # heading)" by (simp add: PAGE_MARK_def pts_def)
    then have "sublist [35, 35, 32, 80] heading" by (simp add: sublist_Cons_right)
    then show False using assms(1) set_mono_sublist by fastforce
  qed
  then have "plain_line uc (pts ''# '' @ heading)" using assms(1) by (auto simp: plain_line_def pts_def is_break_def)
  moreover have "plain_line uc []" by (simp add: hash_free_plain)
  moreover have "list_all (\<lambda>c. \<not> is_break c \<and> c \<noteq> 35) (pts (''> Extracted from `paper.pdf` with '' @ mode @
     ''-column-aware `pdftotext` processing. Raw KB-searchable text; minor PDF artifacts may remain.''))"
    using assms(2) by (auto simp: pts_def is_break_def)
  then have "plain_line uc (pts (''> Extracted from `paper.pdf` with '' @ mode @
     ''-column-aware `pdftotext` processing. Raw KB-searchable text; minor PDF artifacts may remain.''))"
    by (intro hash_free_plain) (simp only: list_all_iff)
  ultimately show ?thesis using assms(3) by (auto simp: top_lines_def simp del: append_Cons append_assoc)
qed

lemma heading_breaks:
  assumes "unicode_ok uc"
  shows "\<forall>c \<in> set (pts (''## Page '' @ str_nat k)). \<not> is_break c"
proof -
  have "\<forall>c \<in> set (pts (str_nat k)). \<not> is_break c" using str_nat_digits [of k] digit_points(3) [OF assms] by (auto simp: pts_def)
  moreover have "list_all (\<lambda>c. \<not> is_break c) (pts ''## Page '')" by code_simp
  moreover have "pts (''## Page '' @ str_nat k) = pts ''## Page '' @ pts (str_nat k)" by (simp only: pts_def map_append)
  ultimately show ?thesis by (simp only: list_all_iff set_append ball_Un)
qed

lemma block_lines:
  assumes "LF \<notin> set h" "l \<in> set (concat (map (split_at LF) [h, [], t, []]))"
  shows "l = h \<or> l = [] \<or> l \<in> set (split_at LF t)"
  using assms by (auto simp: split_at_id)

lemma page_lines_plain:
  assumes uc: "unicode_ok uc" and t: "extract_page_text uc pt pdf k mode = Inr t"
    and pdf: "hash_free pt"
    and l: "l \<in> set (concat (map (split_at LF) (page_block k t)))"
  shows "l = pts (''## Page '' @ str_nat k) \<or> plain_line uc l"
proof -
  have brk: "is_break LF" by (simp add: is_break_def LF_def)
  then have h: "LF \<notin> set (pts (''## Page '' @ str_nat k))" using heading_breaks [OF uc, of k] by blast
  consider "l = pts (''## Page '' @ str_nat k)" | "l = []" | (page) "l \<in> set (split_at LF t)"
    using block_lines [OF h l [unfolded page_block_def]] by blast
  then show ?thesis
  proof cases
    case page
    have "plain_line uc l"
    proof (rule hash_free_plain, intro ballI)
      fix c
      assume "c \<in> set l"
      then have c: "c \<in> set t" "c \<noteq> LF" using split_at_chars [OF page] by blast+
      have "c = 32 \<or> c \<noteq> 35 \<and> \<not> uc_space uc c" using page_text_chars [OF uc t pdf c(1)] c(2) by blast
      moreover have "is_break c \<Longrightarrow> uc_space uc c" using uc by (simp add: unicode_ok_def)
      moreover have "\<not> is_break 32" by (simp add: is_break_def)
      ultimately show "\<not> is_break c \<and> c \<noteq> 35" by auto
    qed
    then show ?thesis by (rule disjI2)
  next
    case 2
    have "plain_line uc []" by (rule hash_free_plain) simp
    then show ?thesis unfolding 2 by (rule disjI2)
  qed (rule disjI1)
qed

lemma urstrip_split: "\<exists>w. s = urstrip uc s @ w \<and> (\<forall>c \<in> set w. uc_space uc c)"
proof -
  have "s = rev (dropWhile (uc_space uc) (rev s)) @ rev (takeWhile (uc_space uc) (rev s))"
    by (metis rev_append rev_rev_ident takeWhile_dropWhile_id)
  then show ?thesis unfolding urstrip_def using set_takeWhileD by fastforce
qed

text \<open>Stripping the end of the document cuts no page heading short.\<close>

lemma stripped_lines:
  assumes ls: "\<forall>l \<in> set ls. plain_line uc l \<or> (\<exists>k. l = pts (''## Page '' @ str_nat k))" "ls \<noteq> []" and uc: "unicode_ok uc"
    and line: "line \<in> set (splitlines (urstrip uc (joined [LF] ls) @ [LF]))"
  shows "plain_line uc line \<or> (\<exists>k. line = pts (''## Page '' @ str_nat k))"
proof -
  obtain w where w: "joined [LF] ls = urstrip uc (joined [LF] ls) @ w" "\<forall>c \<in> set w. uc_space uc c" using urstrip_split by blast
  obtain i v r where i: "i < length ls" "ls ! i = v @ r" "urstrip uc (joined [LF] ls) = joined [LF] (take i ls @ [v])" "prefix r w"
    using prefix_joined [OF w(1) ls(2)] by blast
  have breaks: "\<forall>c \<in> set l. \<not> is_break c" if "l \<in> set ls" for l
    using ls(1) [rule_format, OF that] heading_breaks [OF uc] by (auto simp: plain_line_def)
  have "\<forall>l \<in> set (take i ls @ [v]). \<forall>c \<in> set l. \<not> is_break c"
    using breaks i(1,2) by (auto dest: in_set_takeD) (metis Un_iff nth_mem set_append)
  then have "splitlines (urstrip uc (joined [LF] ls) @ [LF]) = take i ls @ [v]"
    unfolding i(3) by (intro splitlines_joined) simp_all
  then consider "line \<in> set ls" | "line = v" using line by (auto dest: in_set_takeD)
  then show ?thesis
  proof cases
    case 2
    have m: "v @ r \<in> set ls" using i(1,2) nth_mem by metis
    show ?thesis
    proof (cases "plain_line uc (v @ r)")
      case True
      then show ?thesis using 2 sublist_plain by blast
    next
      case False
      then obtain k where k: "v @ r = pts (''## Page '' @ str_nat k)" using ls(1) m by blast
      have "last (pts (''## Page '' @ str_nat k)) = of_char (last (str_nat k))" by (simp add: pts_def last_map)
      moreover have "is_digit (last (str_nat k))" using str_nat_digits [of k] last_in_set [of "str_nat k"] by simp
      ultimately have "\<not> uc_space uc (last (v @ r))" using k digit_points(2) [OF uc] by simp
      then have "r = []" using i(4) w(2) by (cases r rule: rev_cases) (auto simp: prefix_def)
      then show ?thesis using 2 k by auto
    qed
  qed (use ls(1) in blast)
qed

lemma document_lines:
  assumes uc: "unicode_ok uc" and md: "build_markdown uc pt pdf (Some title) mode = Inr md" and mode: "mode \<in> {''one'', ''two''}"
    and title: "title \<noteq> []" "\<forall>c \<in> set title. \<not> is_break c \<and> c \<noteq> 35"
    and pdf: "hash_free pt"
    and line: "line \<in> set (splitlines md)"
  shows "plain_line uc line \<or> (\<exists>k. line = pts (''## Page '' @ str_nat k))"
  using md
proof (rule build_markdown_Inr)
  fix n heading texts
  assume h: "heading = (case Some title of Some t \<Rightarrow> if t \<noteq> [] then t else pts (path_stem pdf) | None \<Rightarrow> pts (path_stem pdf))"
    and texts: "list_all2 (\<lambda>k t. extract_page_text uc pt pdf k mode = Inr t) [1..<n + 1] texts"
    and md: "md = urstrip uc (joined [LF] (top_lines heading mode @ concat (map2 page_block [1..<n + 1] texts))) @ [LF]"
  define ls where "ls = concat (map (split_at LF) (top_lines heading mode @ concat (map2 page_block [1..<n + 1] texts)))"
  have top: "\<forall>l \<in> set (top_lines heading mode). plain_line uc l" using top_lines_plain title mode h by simp
  then have split: "map (split_at LF) (top_lines heading mode) = map (\<lambda>l. [l]) (top_lines heading mode)"
    by (auto simp: plain_line_def is_break_def LF_def intro!: split_at_id)
  have "plain_line uc l \<or> (\<exists>k. l = pts (''## Page '' @ str_nat k))" if l: "l \<in> set ls" for l
  proof -
    consider "l \<in> set (top_lines heading mode)"
      | k t where "(k, t) \<in> set (zip [1..<n + 1] texts)" "l \<in> set (concat (map (split_at LF) (page_block k t)))"
      using l unfolding ls_def map_append concat_append split by auto
    then show ?thesis
    proof cases
      case 2
      then have "extract_page_text uc pt pdf k mode = Inr t" using texts by (auto simp: list_all2_iff)
      from page_lines_plain [OF uc this pdf 2(2)] show ?thesis by blast
    qed (use top in blast)
  qed
  moreover have "ls \<noteq> []" unfolding ls_def map_append concat_append split by (simp add: top_lines_def)
  moreover have "line \<in> set (splitlines (urstrip uc (joined [LF] ls) @ [LF]))" using line md by (simp only: ls_def joined_flatten)
  ultimately show ?thesis using stripped_lines [OF _ _ uc] by blast
qed



end
