(* ===== verification/PyOps.thy ===== *)
theory PyOps
  imports PyValue
begin

text \<open>
  Python's operators on values read from JSON, as the PDF form scripts use them: indexing, iteration,
  \<open>len\<close>, \<open>in\<close>, the ordering comparisons, and \<open>-\<close>, \<open>*\<close>, \<open>/\<close> on numbers. Rounding to a double is
  shown to be monotone, so that comparisons survive the float arithmetic.
\<close>

abbreviation IndexError :: exn where "IndexError \<equiv> OtherError ''IndexError''"
abbreviation ZeroDivisionError :: exn where "ZeroDivisionError \<equiv> OtherError ''ZeroDivisionError''"

section \<open>Containers\<close>

text \<open>\<open>v[i]\<close> for an index \<open>i\<close> that is not negative; the keys of a JSON object are strings.\<close>

fun index :: "json \<Rightarrow> nat \<Rightarrow> json res" where
  "index (JArr xs) i = (if i < length xs then Inr (xs ! i) else Inl IndexError)"
| "index (JStr s) i = (if i < length s then Inr (JStr [s ! i]) else Inl IndexError)"
| "index (JObj d) i = Inl (KeyError (JInt (int i)))"
| "index _ i = Inl TypeError"

text \<open>What \<open>for x in v\<close> goes through; \<open>len(v)\<close>.\<close>

fun iterate :: "json \<Rightarrow> json list res" where
  "iterate (JArr xs) = Inr xs"
| "iterate (JStr s) = Inr (map (\<lambda>c. JStr [c]) s)"
| "iterate (JObj d) = Inr (map (\<lambda>(k, v). JStr k) d)"
| "iterate _ = Inl TypeError"

definition py_len :: "json \<Rightarrow> nat res" where
  "py_len v = bnd (iterate v) (\<lambda>xs. Inr (length xs))"

text \<open>\<open>v in w\<close> for a string \<open>v\<close>.\<close>

fun str_in :: "string \<Rightarrow> json \<Rightarrow> bool res" where
  "str_in s (JArr xs) = Inr (JStr s \<in> set xs)"
| "str_in s (JStr t) = Inr (contains s t)"
| "str_in s (JObj d) = Inr (has_key d s)"
| "str_in s _ = Inl TypeError"

text \<open>\<open>hash(v)\<close> raises for lists and dictionaries, and so does their use as a key.\<close>

fun hashable :: "json \<Rightarrow> bool" where
  "hashable (JArr xs) = False"
| "hashable (JObj d) = False"
| "hashable _ = True"

section \<open>Comparison\<close>

definition fle :: "pyfloat \<Rightarrow> pyfloat \<Rightarrow> bool" where
  "fle a b \<longleftrightarrow> flt a b \<or> feq a b"

datatype cmp = Lt | Le | Ge

fun cmp_float :: "cmp \<Rightarrow> pyfloat \<Rightarrow> pyfloat \<Rightarrow> bool" where
  "cmp_float Lt a b = flt a b"
| "cmp_float Le a b = fle a b"
| "cmp_float Ge a b = fle b a"

fun cmp_ord :: "cmp \<Rightarrow> 'a :: linorder \<Rightarrow> 'a \<Rightarrow> bool" where
  "cmp_ord Lt a b = (a < b)"
| "cmp_ord Le a b = (a \<le> b)"
| "cmp_ord Ge a b = (b \<le> a)"

text \<open>Two lists compare as their first elements that are not equal, or else as their lengths.\<close>

function py_cmp :: "cmp \<Rightarrow> json \<Rightarrow> json \<Rightarrow> bool res" where
  "py_cmp c v w = (case (v, w) of
     (JStr s, JStr t) \<Rightarrow> Inr (cmp_ord c s t)
   | (JArr (x # xs), JArr (y # ys)) \<Rightarrow>
       (if py_eq x y then py_cmp c (JArr xs) (JArr ys) else py_cmp c x y)
   | (JArr xs, JArr ys) \<Rightarrow> Inr (cmp_ord c (length xs) (length ys))
   | _ \<Rightarrow> (case (num_val v, num_val w) of (Some a, Some b) \<Rightarrow> Inr (cmp_float c a b) | _ \<Rightarrow> Inl TypeError))"
  by pat_completeness auto
termination
  by (relation "measure (\<lambda>(c, v, w). size v)") auto

declare py_cmp.simps [simp del]

section \<open>Arithmetic\<close>

definition fmul :: "pyfloat \<Rightarrow> pyfloat \<Rightarrow> pyfloat" where
  "fmul a b =
     (if a = NaN \<or> b = NaN then NaN
      else let s = (fneg_sign a \<noteq> fneg_sign b) in
        (case (fmag a, fmag b) of
           (Some x, Some y) \<Rightarrow> (if s then fneg (round_double (x * y)) else round_double (x * y))
         | (None, Some y) \<Rightarrow> (if y = 0 then NaN else if s then NInf else PInf)
         | (Some x, None) \<Rightarrow> (if x = 0 then NaN else if s then NInf else PInf)
         | (None, None) \<Rightarrow> (if s then NInf else PInf)))"

text \<open>\<open>v - w\<close> and \<open>-v\<close>: of integers an integer, with a float among them a float. \<open>float_minus\<close> and
  \<open>times_float\<close> are \<open>f - v\<close> and \<open>v * f\<close> for a float \<open>f\<close>; a string or a list times a float is a
  \<open>TypeError\<close>.\<close>

definition py_sub :: "json \<Rightarrow> json \<Rightarrow> json res" where
  "py_sub v w = (case (as_int v, as_int w) of
       (Some m, Some n) \<Rightarrow> Inr (JInt (m - n))
     | _ \<Rightarrow> bnd (num_float v) (\<lambda>a. bnd (num_float w) (\<lambda>b. Inr (JFloat (fsub a b)))))"

definition py_neg :: "json \<Rightarrow> json res" where
  "py_neg v = (case as_int v of Some n \<Rightarrow> Inr (JInt (- n))
     | None \<Rightarrow> (case v of JFloat f \<Rightarrow> Inr (JFloat (fneg f)) | _ \<Rightarrow> Inl TypeError))"

definition float_minus :: "pyfloat \<Rightarrow> json \<Rightarrow> pyfloat res" where
  "float_minus f v = bnd (num_float v) (\<lambda>a. Inr (fsub f a))"

definition times_float :: "json \<Rightarrow> pyfloat \<Rightarrow> pyfloat res" where
  "times_float v f = bnd (num_float v) (\<lambda>a. Inr (fmul a f))"

text \<open>\<open>f / v\<close> for a float \<open>f\<close>.\<close>

definition float_div :: "pyfloat \<Rightarrow> json \<Rightarrow> pyfloat res" where
  "float_div f v = bnd (num_float v) (\<lambda>a.
     if feq a (Fin 0) then Inl ZeroDivisionError else Inr (fdiv f a))"

section \<open>Rounding is monotone\<close>

lemma round_half_even_mono: "x \<le> y \<Longrightarrow> round_half_even x \<le> round_half_even y"
proof -
  assume le: "x \<le> y"
  show ?thesis
  proof (cases "\<lfloor>x\<rfloor> = \<lfloor>y\<rfloor>")
    case True
    then show ?thesis using le by (auto simp: round_half_even_def Let_def)
  next
    case False
    then have "\<lfloor>x\<rfloor> + 1 \<le> \<lfloor>y\<rfloor>" using floor_mono [OF le] by simp
    then show ?thesis by (auto simp: round_half_even_def Let_def)
  qed
qed

lemma ilog2_mono:
  assumes "0 < x" "x \<le> y"
  shows "ilog2 x \<le> ilog2 y"
proof -
  have "pow2 (ilog2 x) < pow2 (ilog2 y + 1)" using ilog2_bounds(1) [of x] ilog2_bounds(2) [of y] assms by linarith
  then show ?thesis by (simp add: pow2_less_iff)
qed

text \<open>A power of two on the grid of \<open>y\<close> bounds the rounded value on the side where it bounds \<open>y\<close>.\<close>

lemma grid_power: "ulp_exp y \<le> e \<Longrightarrow> pow2 e / pow2 (ulp_exp y) = of_int (2 ^ nat (e - ulp_exp y))"
  using pow2_of_nat [of "nat (e - ulp_exp y)"] by (simp add: pow2_diff)

lemma round_mag_ge: "ulp_exp y \<le> e \<Longrightarrow> pow2 e \<le> y \<Longrightarrow> pow2 e \<le> round_mag y"
proof -
  assume e: "ulp_exp y \<le> e" "pow2 e \<le> y"
  have "pow2 e / pow2 (ulp_exp y) \<le> y / pow2 (ulp_exp y)" using e(2) by (simp add: divide_right_mono)
  then have "2 ^ nat (e - ulp_exp y) \<le> round_half_even (y / pow2 (ulp_exp y))"
    unfolding grid_power [OF e(1)] using round_half_even_mono round_half_even_of_int by metis
  then have "pow2 e / pow2 (ulp_exp y) \<le> of_int (round_half_even (y / pow2 (ulp_exp y)))"
    unfolding grid_power [OF e(1)] by (simp only: of_int_le_iff)
  then show ?thesis by (simp add: round_mag_def pos_divide_le_eq)
qed

lemma round_mag_le: "ulp_exp y \<le> e \<Longrightarrow> y \<le> pow2 e \<Longrightarrow> round_mag y \<le> pow2 e"
proof -
  assume e: "ulp_exp y \<le> e" "y \<le> pow2 e"
  have "y / pow2 (ulp_exp y) \<le> pow2 e / pow2 (ulp_exp y)" using e(2) by (simp add: divide_right_mono)
  then have "round_half_even (y / pow2 (ulp_exp y)) \<le> 2 ^ nat (e - ulp_exp y)"
    unfolding grid_power [OF e(1)] using round_half_even_mono round_half_even_of_int by metis
  then have "of_int (round_half_even (y / pow2 (ulp_exp y))) \<le> pow2 e / pow2 (ulp_exp y)"
    unfolding grid_power [OF e(1)] by (simp only: of_int_le_iff)
  then show ?thesis by (simp add: round_mag_def pos_le_divide_eq)
qed

lemma round_mag_mono:
  assumes "0 < x" "x \<le> y"
  shows "round_mag x \<le> round_mag y"
proof (cases "ulp_exp x = ulp_exp y")
  case True
  have "x / pow2 (ulp_exp x) \<le> y / pow2 (ulp_exp x)" using assms(2) by (simp add: divide_right_mono)
  then have "round_half_even (x / pow2 (ulp_exp x)) \<le> round_half_even (y / pow2 (ulp_exp y))"
    using round_half_even_mono True by simp
  then show ?thesis using True by (simp add: round_mag_def mult_right_mono)
next
  case False
  then have lt: "ilog2 x + 1 \<le> ilog2 y" "ulp_exp y \<le> ilog2 y" "ulp_exp x \<le> ilog2 y"
    using ilog2_mono [OF assms] by (simp_all add: ulp_exp_def max_def split: if_splits)
  have "x \<le> pow2 (ilog2 y)" using ilog2_bounds(2) [OF assms(1)] pow2_mono [OF lt(1)] by linarith
  then have "round_mag x \<le> pow2 (ilog2 y)" by (rule round_mag_le [OF lt(3)])
  also have "\<dots> \<le> round_mag y" using round_mag_ge [OF lt(2)] ilog2_bounds(1) [of y] assms by simp
  finally show ?thesis .
qed

lemma round_mag_nonneg: "0 < x \<Longrightarrow> 0 \<le> round_mag x"
  by (simp add: round_mag_def round_half_even_nonneg)

lemma round_double_mono:
  assumes "x \<le> y"
  shows "fle (round_double x) (round_double y)"
proof -
  have z: "\<not> pow2 1024 \<le> 0" using pow2_pos [of 1024] by linarith
  consider "x \<le> 0" "0 \<le> y" | "0 < x" | "y < 0" using assms by linarith
  then show ?thesis
  proof cases
    case 1
    then have "x < 0 \<Longrightarrow> 0 \<le> round_mag (- x)" "0 < y \<Longrightarrow> 0 \<le> round_mag y" using round_mag_nonneg by simp_all
    then show ?thesis using 1 z by (cases "x = 0"; cases "y = 0") (auto simp: round_double_def fle_def Let_def)
  next
    case 2
    then show ?thesis using assms round_mag_mono [of x y] round_mag_nonneg [of x]
      by (auto simp: round_double_def fle_def Let_def)
  next
    case 3
    then show ?thesis using assms round_mag_mono [of "- y" "- x"] round_mag_nonneg [of "- y"]
      by (auto simp: round_double_def fle_def Let_def)
  qed
qed

section \<open>Doubles\<close>

text \<open>A float that a double can be: rounding does not change it. Rounding gives such floats.\<close>

definition is_double :: "pyfloat \<Rightarrow> bool" where
  "is_double f = (case f of Fin x \<Rightarrow> round_double x = Fin x | NaN \<Rightarrow> False | _ \<Rightarrow> True)"

lemma round_mag_representable:
  assumes "0 < x" "round_mag x < pow2 1024"
  shows "representable (round_mag x)"
proof -
  define e where "e = ulp_exp x"
  define m where "m = round_half_even (x / pow2 e)"
  have y: "round_mag x = of_int m * pow2 e" by (simp add: round_mag_def m_def e_def)
  have e: "- 1074 \<le> e" "ilog2 x - 52 \<le> e" by (simp_all add: e_def ulp_exp_def)
  have m0: "0 \<le> m" using assms(1) by (simp add: m_def round_half_even_nonneg)
  have "x \<le> pow2 (e + 53)" using ilog2_bounds(2) [OF assms(1)] pow2_mono [of "ilog2 x + 1" "e + 53"] e(2) by linarith
  then have "x / pow2 e \<le> of_int (2 ^ 53)" using pow2_of_nat [of 53] by (simp add: pow2_add pos_divide_le_eq mult.commute)
  then have m53: "m \<le> 2 ^ 53" unfolding m_def using round_half_even_mono round_half_even_of_int by metis
  show ?thesis
  proof (cases "m = 0")
    case True
    then show ?thesis using y representable_int [of 0] by simp
  next
    case False
    have small: "k \<le> 971" if k: "pow2 (k + 52) \<le> round_mag x" for k
    proof -
      have "pow2 (k + 52) < pow2 1024" using k assms(2) by linarith
      then show ?thesis by (simp add: pow2_less_iff)
    qed
    show ?thesis
    proof (cases "m < 2 ^ 53 \<and> e \<le> 971")
      case True
      then show ?thesis using y m0 e(1) unfolding representable_def by (intro exI [of _ m] exI [of _ e]) simp
    next
      case False
      have "2 ^ 52 \<le> m"
      proof (rule ccontr)
        assume "\<not> 2 ^ 52 \<le> m"
        then have "971 < e" using False by simp
        then have "e = ilog2 x - 52" by (simp add: e_def ulp_exp_def max_def split: if_splits)
        then have "pow2 (e + 52) \<le> x" using ilog2_bounds(1) [OF assms(1)] by simp
        then have "pow2 (e + 52) \<le> round_mag x" using round_mag_ge [of x "e + 52"] by (simp add: e_def)
        from small [OF this] \<open>971 < e\<close> show False by simp
      qed
      then have "pow2 52 \<le> of_int m" using pow2_of_nat [of 52] of_int_le_iff [of "2 ^ 52" m, where ?'a = rat] by simp
      then have "pow2 52 * pow2 e \<le> round_mag x" unfolding y by (intro mult_right_mono) simp_all
      then have "e \<le> 971" by (intro small) (simp add: pow2_add mult.commute)
      then have m: "m = 2 ^ 53" using False m53 by simp
      then have "round_mag x = of_int (2 ^ 52) * pow2 (e + 1)" using y pow2_add [of e 1] pow2_of_nat [of 1] by simp
      moreover have "e + 1 \<le> 971"
      proof -
        have "pow2 (e + 1 + 52) \<le> round_mag x" using m y pow2_of_nat [of 53] by (simp add: pow2_add)
        then show ?thesis by (rule small)
      qed
      ultimately show ?thesis using e(1) unfolding representable_def by (intro exI [of _ "2 ^ 52"] exI [of _ "e + 1"]) simp
    qed
  qed
qed

lemma is_double_round: "is_double (round_double x)"
proof (cases "x = 0")
  case False
  then have "round_mag \<bar>x\<bar> < pow2 1024 \<Longrightarrow> representable (round_mag \<bar>x\<bar>)" using round_mag_representable by simp
  then show ?thesis using False by (auto simp: round_double_def [of x] is_double_def Let_def round_double_exact not_le)
qed (simp add: is_double_def round_double_def)

text \<open>The order of floats other than NaN.\<close>

lemma fle_trans: "fle a b \<Longrightarrow> fle b c \<Longrightarrow> fle a c"
  unfolding fle_def by (cases a; cases b; cases c) auto

lemma fle_feq: "feq a b \<Longrightarrow> fle a b" "feq a b \<Longrightarrow> fle b a"
  by (simp_all add: fle_def feq_sym)

lemma fle_Fin [simp]: "fle (Fin x) (Fin y) \<longleftrightarrow> x \<le> y"
  by (auto simp: fle_def)

lemma round_double_minus: "feq (round_double (- x)) (fneg (round_double x))"
  by (auto simp: round_double_def Let_def)

lemma fadd_round:
  assumes "is_double a" "is_double b" "fval a = Some x" "fval b = Some y"
  shows "feq (fadd a b) (round_double (x + y))"
proof -
  have r: "round_double (x + y) \<noteq> NaN" by (simp add: round_double_def Let_def)
  show ?thesis using assms r by (cases a; cases b) (auto simp: is_double_def feq_refl round_double_def [of 0])
qed

lemma is_double_fneg:
  assumes "is_double a"
  shows "is_double (fneg a)"
proof (cases a)
  case (Fin x)
  then have x: "round_double x = Fin x" using assms by (simp add: is_double_def)
  show ?thesis
  proof (cases "x = 0")
    case False
    then have "round_mag \<bar>x\<bar> = \<bar>x\<bar>" "\<not> pow2 1024 \<le> \<bar>x\<bar>"
      using x by (auto simp: round_double_def Let_def split: if_splits)
    then show ?thesis using Fin False by (auto simp: is_double_def round_double_def Let_def)
  qed (simp add: Fin is_double_def)
qed (use assms in \<open>simp_all add: is_double_def round_double_def\<close>)

lemma fsub_round:
  assumes "is_double a" "is_double b" "fval a = Some x" "fval b = Some y"
  shows "feq (fsub a b) (round_double (x - y))"
proof -
  have "fval (fneg b) = Some (- y)" using assms(4) by (cases b) auto
  from fadd_round [OF assms(1) is_double_fneg [OF assms(2)] assms(3) this] show ?thesis by (simp add: fsub_def)
qed

lemma fsub_mono:
  assumes h: "is_double h" "fval h = Some z" and a: "is_double a" and b: "is_double b" and le: "fle a b"
  shows "fle (fsub h b) (fsub h a)"
proof -
  have inf: "fsub h PInf = NInf" "fsub h NInf = PInf" using h(2) by (cases h; simp add: fsub_def)+
  have fin: "fsub h c \<noteq> NaN" if "is_double c" for c
    using that h(2) by (cases h; cases c) (auto simp: fsub_def is_double_def round_double_def Let_def)
  consider "a = NInf \<or> b = PInf" | x y where "fval a = Some x" "fval b = Some y"
    using a b le by (cases a; cases b) (auto simp: is_double_def fle_def)
  then show ?thesis
  proof cases
    case 1
    then show ?thesis using fin [OF a] fin [OF b] by (cases "fsub h a"; cases "fsub h b") (auto simp: inf fle_def)
  next
    case 2
    then have "x \<le> y" using le by (cases a; cases b) (auto simp: fle_def)
    then have "fle (round_double (z - y)) (round_double (z - x))" by (intro round_double_mono) simp
    then show ?thesis
      using fsub_round [OF h(1) a h(2) 2(1)] fsub_round [OF h(1) b h(2) 2(2)] by (meson fle_feq fle_trans)
  qed
qed

lemma fmul_round:
  assumes "fval a = Some x" "fval s = Some z"
  shows "feq (fmul a s) (round_double (x * z))" "is_double (fmul a s)"
proof -
  have m: "fmag a = Some \<bar>x\<bar>" "fmag s = Some \<bar>z\<bar>" "a \<noteq> NaN" "s \<noteq> NaN" using assms by (cases a; cases s; auto)+
  have f: "fmul a s = (if fneg_sign a \<noteq> fneg_sign s then fneg (round_double (\<bar>x * z\<bar>)) else round_double \<bar>x * z\<bar>)"
    using m by (simp add: fmul_def abs_mult)
  have sgn: "x * z = (if fneg_sign a \<noteq> fneg_sign s then - \<bar>x * z\<bar> else \<bar>x * z\<bar>)"
    using assms by (cases a; cases s) (auto simp: abs_mult mult_le_0_iff zero_le_mult_iff)
  have r: "round_double y \<noteq> NaN" for y by (simp add: round_double_def Let_def)
  show "feq (fmul a s) (round_double (x * z))"
    using f sgn round_double_minus [of "\<bar>x * z\<bar>"] feq_refl [OF r] by (auto simp: feq_sym)
  show "is_double (fmul a s)" unfolding f by (simp add: is_double_round is_double_fneg)
qed

lemma fmul_mono:
  assumes "fval a = Some x" "fval b = Some y" "fval s = Some z" "0 \<le> z" "x \<le> y"
  shows "fle (fmul a s) (fmul b s)"
proof -
  have "fle (round_double (x * z)) (round_double (y * z))" using assms(4,5) by (intro round_double_mono mult_right_mono)
  then show ?thesis using fmul_round(1) [OF assms(1,3)] fmul_round(1) [OF assms(2,3)] by (meson fle_feq fle_trans)
qed

end
