(* ===== verification/PdfBoxes.thy ===== *)
theory PdfBoxes
  imports PyOps Host
begin

text \<open>
  The scripts for PDF forms without fillable fields, which all read one \<open>fields.json\<close>:
  \<open>check_bounding_boxes.py\<close> checks its boxes, \<open>create_validation_image.py\<close> draws them, and
  \<open>fill_pdf_form_with_annotations.py\<close> turns its entries into text annotations. The document is the
  value that \<open>json.load\<close> returns; the PDF and image libraries are parameters.
\<close>

section \<open>Checking the boxes\<close>

text \<open>\<open>raf_id\<close> is the position of the field in the document: \<open>json.load\<close> makes a new dictionary for each
  field, so \<open>ri.field is rj.field\<close> compares the positions.\<close>

record raf =
  raf_rect :: json
  raf_type :: string
  raf_field :: json
  raf_id :: nat

text \<open>\<open>a or b\<close>, where \<open>b\<close> is not evaluated when \<open>a\<close> holds.\<close>

definition bool_or :: "bool res \<Rightarrow> bool res \<Rightarrow> bool res" where
  "bool_or a b = bnd a (\<lambda>x. if x then Inr True else b)"

definition cmp_at :: "cmp \<Rightarrow> json \<Rightarrow> nat \<Rightarrow> json \<Rightarrow> nat \<Rightarrow> bool res" where
  "cmp_at c r1 i r2 j = bnd (index r1 i) (\<lambda>a. bnd (index r2 j) (\<lambda>b. py_cmp c a b))"

definition rects_intersect :: "json \<Rightarrow> json \<Rightarrow> bool res" where
  "rects_intersect r1 r2 =
     bnd (bool_or (cmp_at Ge r1 0 r2 2) (cmp_at Le r1 2 r2 0)) (\<lambda>disjoint_horizontal.
     bnd (bool_or (cmp_at Ge r1 1 r2 3) (cmp_at Le r1 3 r2 1)) (\<lambda>disjoint_vertical.
     Inr (\<not> (disjoint_horizontal \<or> disjoint_vertical))))"

definition rects_of_field :: "nat \<Rightarrow> json \<Rightarrow> raf list res" where
  "rects_of_field i f = bnd (subscr f ''label_bounding_box'') (\<lambda>l. bnd (subscr f ''entry_bounding_box'') (\<lambda>e.
     Inr [\<lparr>raf_rect = l, raf_type = ''label'', raf_field = f, raf_id = i\<rparr>,
          \<lparr>raf_rect = e, raf_type = ''entry'', raf_field = f, raf_id = i\<rparr>]))"

text \<open>The body of the loops either returns from the function with the messages or goes on with the
  messages and \<open>has_error\<close>.\<close>

datatype flow = Return "msg list" | Next "msg list" bool

definition ABORTING :: msg where
  "ABORTING = [Txt ''Aborting further checks; fix bounding boxes and try again'']"

definition add_failure :: "msg list \<Rightarrow> msg \<Rightarrow> flow" where
  "add_failure messages m = (let messages = messages @ [m] in
     if 20 \<le> length messages then Return (messages @ [ABORTING]) else Next messages True)"

definition pair_hits :: "raf \<Rightarrow> raf \<Rightarrow> bool res" where
  "pair_hits ri rj = bnd (subscr (raf_field ri) ''page_number'') (\<lambda>p. bnd (subscr (raf_field rj) ''page_number'') (\<lambda>q.
     if py_eq p q then rects_intersect (raf_rect ri) (raf_rect rj) else Inr False))"

definition pair_message :: "raf \<Rightarrow> raf \<Rightarrow> msg res" where
  "pair_message ri rj =
     (if raf_id ri = raf_id rj then
        bnd (subscr (raf_field ri) ''description'') (\<lambda>d.
        Inr [Txt ''FAILURE: intersection between label and entry bounding boxes for `'', str_frag d, Txt ''` ('',
             str_frag (raf_rect ri), Txt '', '', str_frag (raf_rect rj), Txt '')''])
      else
        bnd (subscr (raf_field ri) ''description'') (\<lambda>d. bnd (subscr (raf_field rj) ''description'') (\<lambda>e.
        Inr [Txt ''FAILURE: intersection between '', Txt (raf_type ri), Txt '' bounding box for `'', str_frag d, Txt ''` ('',
             str_frag (raf_rect ri), Txt '') and '', Txt (raf_type rj), Txt '' bounding box for `'', str_frag e, Txt ''` ('',
             str_frag (raf_rect rj), Txt '')''])))"

fun pair_loop :: "raf \<Rightarrow> raf list \<Rightarrow> msg list \<Rightarrow> bool \<Rightarrow> flow res" where
  "pair_loop ri [] messages has_error = Inr (Next messages has_error)"
| "pair_loop ri (rj # rs) messages has_error = bnd (pair_hits ri rj) (\<lambda>hit.
     if hit then bnd (pair_message ri rj) (\<lambda>m.
       case add_failure messages m of
         Return ms \<Rightarrow> Inr (Return ms)
       | Next ms e \<Rightarrow> pair_loop ri rs ms e)
     else pair_loop ri rs messages has_error)"

definition entry_check :: "raf \<Rightarrow> msg list \<Rightarrow> bool \<Rightarrow> flow res" where
  "entry_check ri messages has_error =
     (if raf_type ri = ''entry'' then
        bnd (str_in ''entry_text'' (raf_field ri)) (\<lambda>has_text.
        if has_text then
          bnd (bnd (subscr (raf_field ri) ''entry_text'') (\<lambda>t. get_method t ''font_size'' (JInt 14))) (\<lambda>font_size.
          bnd (bnd (index (raf_rect ri) 3) (\<lambda>b. bnd (index (raf_rect ri) 1) (\<lambda>t. py_sub b t))) (\<lambda>entry_height.
          bnd (py_cmp Lt entry_height font_size) (\<lambda>short.
          if short then
            bnd (subscr (raf_field ri) ''description'') (\<lambda>d.
            Inr (add_failure messages [Txt ''FAILURE: entry bounding box height ('', str_frag entry_height, Txt '') for `'', str_frag d,
              Txt ''` is too short for the text content (font size: '', str_frag font_size,
              Txt ''). Increase the box height or decrease the font size.'']))
          else Inr (Next messages has_error))))
        else Inr (Next messages has_error))
      else Inr (Next messages has_error))"

fun rect_loop :: "raf list \<Rightarrow> msg list \<Rightarrow> bool \<Rightarrow> flow res" where
  "rect_loop [] messages has_error = Inr (Next messages has_error)"
| "rect_loop (ri # rs) messages has_error = bnd (pair_loop ri rs messages has_error) (\<lambda>fl.
     case fl of Return ms \<Rightarrow> Inr (Return ms)
     | Next ms e \<Rightarrow> bnd (entry_check ri ms e) (\<lambda>fl.
         case fl of Return ms \<Rightarrow> Inr (Return ms) | Next ms e \<Rightarrow> rect_loop rs ms e))"

definition SUCCESS :: msg where
  "SUCCESS = [Txt ''SUCCESS: All bounding boxes are valid'']"

definition get_bounding_box_messages :: "json \<Rightarrow> msg list res" where
  "get_bounding_box_messages document =
     bnd (subscr document ''form_fields'') (\<lambda>ff. bnd (py_len ff) (\<lambda>n.
     bnd (iterate ff) (\<lambda>fs. bnd (mapm (\<lambda>(i, f). rects_of_field i f) (enumerate 0 fs)) (\<lambda>rects_and_fields.
     bnd (rect_loop (concat rects_and_fields) [[Txt ''Read '', Txt (str_nat n), Txt '' fields'']] False) (\<lambda>fl.
     Inr (case fl of Return messages \<Rightarrow> messages
          | Next messages has_error \<Rightarrow> if has_error then messages else messages @ [SUCCESS]))))))"

text \<open>The script itself, on its arguments: the exit status and the lines printed.\<close>

definition load_document :: "world \<Rightarrow> string \<Rightarrow> json res" where
  "load_document w name = bnd (fs_read w (path_of name)) (json_loads w)"

definition cbb_main :: "world \<Rightarrow> string list \<Rightarrow> (int \<times> msg list) res" where
  "cbb_main w argv = (case argv of
       [_, name] \<Rightarrow> bnd (load_document w name) (\<lambda>document.
         bnd (get_bounding_box_messages document) (\<lambda>messages. Inr (0, messages)))
     | _ \<Rightarrow> Inr (1, [[Txt ''Usage: check_bounding_boxes.py [fields.json]'']]))"

section \<open>Drawing the boxes\<close>

text \<open>\<open>draw\<close> is what \<open>ImageDraw.rectangle\<close> answers for a box, \<open>open_image\<close> and \<open>save\<close> what opening the input
  and saving the output answer. The result lists the rectangles drawn, with their colours.\<close>

definition draw_field :: "(json \<Rightarrow> unit res) \<Rightarrow> int \<Rightarrow> (string \<times> json) list \<Rightarrow> json \<Rightarrow> (string \<times> json) list res" where
  "draw_field draw page_number boxes f = bnd (subscr f ''page_number'') (\<lambda>p.
     if py_eq p (JInt page_number) then
       bnd (subscr f ''entry_bounding_box'') (\<lambda>entry_box. bnd (subscr f ''label_bounding_box'') (\<lambda>label_box.
       bnd (draw entry_box) (\<lambda>_. bnd (draw label_box) (\<lambda>_.
       Inr (boxes @ [(''red'', entry_box), (''blue'', label_box)])))))
     else Inr boxes)"

definition create_validation_image ::
    "unit res \<Rightarrow> (json \<Rightarrow> unit res) \<Rightarrow> unit res \<Rightarrow> int \<Rightarrow> json res \<Rightarrow> string \<Rightarrow> ((string \<times> json) list \<times> msg) res" where
  "create_validation_image open_image draw save page_number document output_path =
     bnd document (\<lambda>doc. bnd open_image (\<lambda>_.
     bnd (bnd (subscr doc ''form_fields'') iterate) (\<lambda>fs.
     bnd (foldm (draw_field draw page_number) [] fs) (\<lambda>boxes.
     bnd save (\<lambda>_.
     Inr (boxes, [Txt ''Created validation image at '', Txt output_path, Txt '' with '', Txt (str_nat (length boxes)),
       Txt '' bounding boxes'']))))))"

definition cvi_main :: "unit res \<Rightarrow> (json \<Rightarrow> unit res) \<Rightarrow> unit res \<Rightarrow> world \<Rightarrow> string list \<Rightarrow> (int \<times> (string \<times> json) list \<times> msg) res" where
  "cvi_main open_image draw save w argv = (case argv of
       [_, page, fields_json_path, input_image_path, output_image_path] \<Rightarrow>
         bnd (py_int (JStr page)) (\<lambda>page_number.
         bnd (create_validation_image open_image draw save page_number (load_document w fields_json_path) output_image_path) (\<lambda>(boxes, m).
         Inr (0, boxes, m)))
     | _ \<Rightarrow> Inr (1, [], [Txt ''Usage: create_validation_image.py [page number] [fields.json file] [input image path] [output image path]'']))"

section \<open>Filling in the annotations\<close>

text \<open>A rectangle is given as \<open>(left, bottom, right, top)\<close>.\<close>

definition transform_from_image_coords :: "json \<Rightarrow> json \<Rightarrow> json \<Rightarrow> pyfloat \<Rightarrow> pyfloat \<Rightarrow> json list res" where
  "transform_from_image_coords bbox image_width image_height pdf_width pdf_height =
     bnd (float_div pdf_width image_width) (\<lambda>x_scale.
     bnd (float_div pdf_height image_height) (\<lambda>y_scale.
     bnd (bnd (index bbox 0) (\<lambda>v. times_float v x_scale)) (\<lambda>left.
     bnd (bnd (index bbox 2) (\<lambda>v. times_float v x_scale)) (\<lambda>right.
     bnd (bnd (index bbox 1) (\<lambda>v. times_float v y_scale)) (\<lambda>t.
     bnd (bnd (index bbox 3) (\<lambda>v. times_float v y_scale)) (\<lambda>b.
     Inr [JFloat left, JFloat (fsub pdf_height b), JFloat right, JFloat (fsub pdf_height t)]))))))"

definition transform_from_pdf_coords :: "json \<Rightarrow> pyfloat \<Rightarrow> json list res" where
  "transform_from_pdf_coords bbox pdf_height =
     bnd (index bbox 0) (\<lambda>left.
     bnd (index bbox 2) (\<lambda>right.
     bnd (bnd (index bbox 1) (float_minus pdf_height)) (\<lambda>pypdf_top.
     bnd (bnd (index bbox 3) (float_minus pdf_height)) (\<lambda>pypdf_bottom.
     Inr [left, JFloat pypdf_bottom, right, JFloat pypdf_top]))))"

record free_text =
  ft_text :: json
  ft_rect :: "json list"
  ft_font :: json
  ft_font_size :: msg
  ft_font_color :: json

text \<open>\<open>pl_pages\<close> gives the widths and heights of a PDF's pages as floats, \<open>pl_add\<close> what making an
  annotation and adding it to a page answers, \<open>pl_write\<close> what writing the file answers.\<close>

record pdf_lib =
  pl_pages :: "string \<Rightarrow> (pyfloat \<times> pyfloat) list res"
  pl_add :: "json \<Rightarrow> free_text \<Rightarrow> unit res"
  pl_write :: "string \<Rightarrow> unit res"

abbreviation StopIteration :: exn where "StopIteration \<equiv> OtherError ''StopIteration''"

fun find_page :: "json \<Rightarrow> json list \<Rightarrow> json res" where
  "find_page page_num [] = Inl StopIteration"
| "find_page page_num (p # ps) = bnd (subscr p ''page_number'') (\<lambda>n.
     if py_eq n page_num then Inr p else find_page page_num ps)"

definition pdf_dimensions :: "(pyfloat \<times> pyfloat) list \<Rightarrow> json \<Rightarrow> (pyfloat \<times> pyfloat) res" where
  "pdf_dimensions pages page_num = (if \<not> hashable page_num then Inl TypeError
     else case find (\<lambda>(i, wh). py_eq (JInt (int i)) page_num) (enumerate 1 pages) of
       None \<Rightarrow> Inl (KeyError page_num) | Some (i, wh) \<Rightarrow> Inr wh)"

definition entry_box :: "json \<Rightarrow> json \<Rightarrow> (pyfloat \<times> pyfloat) list \<Rightarrow> json \<Rightarrow> json list res" where
  "entry_box document f pages page_num =
     bnd (bnd (subscr document ''pages'') iterate) (\<lambda>ps. bnd (find_page page_num ps) (\<lambda>page_info.
     bnd (pdf_dimensions pages page_num) (\<lambda>(pdf_width, pdf_height).
     bnd (str_in ''pdf_width'' page_info) (\<lambda>in_pdf_coords.
     if in_pdf_coords then bnd (subscr f ''entry_bounding_box'') (\<lambda>bbox. transform_from_pdf_coords bbox pdf_height)
     else bnd (subscr page_info ''image_width'') (\<lambda>image_width. bnd (subscr page_info ''image_height'') (\<lambda>image_height.
       bnd (subscr f ''entry_bounding_box'') (\<lambda>bbox.
       transform_from_image_coords bbox image_width image_height pdf_width pdf_height)))))))"

text \<open>\<open>"entry_text" in field and "text" in field["entry_text"]\<close>, and the annotation of such a field.\<close>

definition has_entry_text :: "json \<Rightarrow> bool res" where
  "has_entry_text f = bnd (str_in ''entry_text'' f) (\<lambda>b.
     if b then bnd (subscr f ''entry_text'') (str_in ''text'') else Inr False)"

definition make_annotation :: "json \<Rightarrow> json list \<Rightarrow> free_text option res" where
  "make_annotation entry_text rect = bnd (subscr entry_text ''text'') (\<lambda>t.
     if \<not> truthy t then Inr None
     else bnd (get_method entry_text ''font'' (JStr ''Arial'')) (\<lambda>font_name.
       bnd (get_method entry_text ''font_size'' (JInt 14)) (\<lambda>font_size.
       bnd (get_method entry_text ''font_color'' (JStr ''000000'')) (\<lambda>font_color.
       Inr (Some \<lparr>ft_text = t, ft_rect = rect, ft_font = font_name, ft_font_size = [str_frag font_size, Txt ''pt''],
         ft_font_color = font_color\<rparr>)))))"

definition fill_field ::
    "pdf_lib \<Rightarrow> json \<Rightarrow> (pyfloat \<times> pyfloat) list \<Rightarrow> (json \<times> free_text) list \<Rightarrow> json \<Rightarrow> (json \<times> free_text) list res" where
  "fill_field lib document pages annotations f = bnd (subscr f ''page_number'') (\<lambda>page_num.
     bnd (entry_box document f pages page_num) (\<lambda>rect.
     bnd (has_entry_text f) (\<lambda>b.
     if \<not> b then Inr annotations
     else bnd (bnd (subscr f ''entry_text'') (\<lambda>t. make_annotation t rect)) (\<lambda>a.
       case a of None \<Rightarrow> Inr annotations
       | Some annotation \<Rightarrow> bnd (py_sub page_num (JInt 1)) (\<lambda>page_index.
           bnd (pl_add lib page_index annotation) (\<lambda>_. Inr (annotations @ [(page_index, annotation)])))))))"

text \<open>The result is what the written PDF has besides the pages of the input: the annotations, each with
  the index of its page; and the lines printed.\<close>

definition fill_pdf_form ::
    "pdf_lib \<Rightarrow> world \<Rightarrow> string \<Rightarrow> string \<Rightarrow> string \<Rightarrow> ((json \<times> free_text) list \<times> msg list) res" where
  "fill_pdf_form lib w input_pdf_path fields_json_path output_pdf_path =
     bnd (load_document w fields_json_path) (\<lambda>document.
     bnd (pl_pages lib input_pdf_path) (\<lambda>pages.
     bnd (bnd (subscr document ''form_fields'') iterate) (\<lambda>fs.
     bnd (foldm (fill_field lib document pages) [] fs) (\<lambda>annotations.
     bnd (pl_write lib output_pdf_path) (\<lambda>_.
     Inr (annotations, [[Txt ''Successfully filled PDF form and saved to '', Txt output_pdf_path],
       [Txt ''Added '', Txt (str_nat (length annotations)), Txt '' text annotations'']]))))))"

definition fpf_main :: "pdf_lib \<Rightarrow> world \<Rightarrow> string list \<Rightarrow> (int \<times> (json \<times> free_text) list \<times> msg list) res" where
  "fpf_main lib w argv = (case argv of
       [_, input_pdf, fields_json, output_pdf] \<Rightarrow>
         bnd (fill_pdf_form lib w input_pdf fields_json output_pdf) (\<lambda>(annotations, ms). Inr (0, annotations, ms))
     | _ \<Rightarrow> Inr (1, [], [[Txt ''Usage: fill_pdf_form_with_annotations.py [input pdf] [fields.json] [output pdf]'']]))"

section \<open>Rectangles\<close>

text \<open>A coordinate: a finite double, or an integer that a double holds exactly.\<close>

fun coord :: "json \<Rightarrow> rat option" where
  "coord (JInt n) = (if \<bar>n\<bar> \<le> 2 ^ 53 then Some (of_int n) else None)"
| "coord (JFloat f) = (if is_double f then fval f else None)"
| "coord _ = None"

type_synonym rect = "rat \<times> rat \<times> rat \<times> rat"

fun box_of :: "json \<Rightarrow> rect option" where
  "box_of (JArr [a, b, c, d]) = (case (coord a, coord b, coord c, coord d) of
     (Some x0, Some y0, Some x1, Some y1) \<Rightarrow> Some (x0, y0, x1, y1) | _ \<Rightarrow> None)"
| "box_of _ = None"

fun proper :: "rect \<Rightarrow> bool" where
  "proper (x0, y0, x1, y1) \<longleftrightarrow> x0 < x1 \<and> y0 < y1"

text \<open>Two rectangles overlap when some point is inside both.\<close>

fun inside :: "rat \<times> rat \<Rightarrow> rect \<Rightarrow> bool" where
  "inside (x, y) (x0, y0, x1, y1) \<longleftrightarrow> x0 < x \<and> x < x1 \<and> y0 < y \<and> y < y1"

definition overlap :: "rect \<Rightarrow> rect \<Rightarrow> bool" where
  "overlap a b \<longleftrightarrow> (\<exists>p. inside p a \<and> inside p b)"

lemma common_point: "(x0 :: rat) < x1 \<Longrightarrow> u0 < u1 \<Longrightarrow> x0 < u1 \<Longrightarrow> u0 < x1 \<Longrightarrow> \<exists>x. x0 < x \<and> x < x1 \<and> u0 < x \<and> x < u1"
  using dense [of "max x0 u0" "min x1 u1"] by (simp add: less_max_iff_disj min_less_iff_disj) (metis max_less_iff_conj min_less_iff_conj)

lemma overlap_iff:
  "proper (x0, y0, x1, y1) \<Longrightarrow> proper (u0, v0, u1, v1) \<Longrightarrow>
    overlap (x0, y0, x1, y1) (u0, v0, u1, v1) \<longleftrightarrow> x0 < u1 \<and> u0 < x1 \<and> y0 < v1 \<and> v0 < y1"
  using common_point [of x0 x1 u0 u1] common_point [of y0 y1 v0 v1] by (auto simp: overlap_def)

lemma box_of_iff:
  "box_of r = Some (x0, y0, x1, y1) \<longleftrightarrow> (\<exists>a b c d. r = JArr [a, b, c, d] \<and> coord a = Some x0 \<and> coord b = Some y0 \<and>
     coord c = Some x1 \<and> coord d = Some y1)"
  by (cases r rule: box_of.cases) (auto split: option.splits)

lemma coord_num: "coord v = Some x \<Longrightarrow> \<exists>a. num_val v = Some a \<and> fval a = Some x"
  by (cases v) (auto split: if_splits)

lemma cmp_float_fval:
  assumes "fval a = Some x" "fval b = Some y"
  shows "cmp_float c a b = cmp_ord c x y"
proof -
  have "flt a b \<longleftrightarrow> x < y" "feq a b \<longleftrightarrow> x = y" "flt b a \<longleftrightarrow> y < x" "feq b a \<longleftrightarrow> x = y"
    using assms by (cases a; cases b; auto)+
  then show ?thesis by (cases c) (auto simp: fle_def)
qed

lemma py_cmp_num: "num_val v = Some a \<Longrightarrow> num_val w = Some b \<Longrightarrow> py_cmp c v w = Inr (cmp_float c a b)"
  by (cases v; cases w) (simp_all add: py_cmp.simps)

lemma py_cmp_coord: "coord v = Some x \<Longrightarrow> coord w = Some y \<Longrightarrow> py_cmp c v w = Inr (cmp_ord c x y)"
  using coord_num [of v x] coord_num [of w y] by (auto simp: py_cmp_num cmp_float_fval)

lemma rects_intersect_eq:
  assumes "box_of r = Some a" "box_of s = Some b" "proper a" "proper b"
  shows "rects_intersect r s = Inr (overlap a b)"
proof -
  obtain x0 y0 x1 y1 where a: "a = (x0, y0, x1, y1)" by (cases a)
  obtain u0 v0 u1 v1 where b: "b = (u0, v0, u1, v1)" by (cases b)
  from assms(1) obtain c0 c1 c2 c3 where r: "r = JArr [c0, c1, c2, c3]" "coord c0 = Some x0" "coord c1 = Some y0"
    "coord c2 = Some x1" "coord c3 = Some y1" unfolding a box_of_iff by blast
  from assms(2) obtain d0 d1 d2 d3 where s: "s = JArr [d0, d1, d2, d3]" "coord d0 = Some u0" "coord d1 = Some v0"
    "coord d2 = Some u1" "coord d3 = Some v1" unfolding b box_of_iff by blast
  show ?thesis using assms(3,4) unfolding a b
    by (auto simp: overlap_iff rects_intersect_def bool_or_def cmp_at_def r s py_cmp_coord)
qed

section \<open>What the checker accepts\<close>

text \<open>A field as the form instructions describe it.\<close>

definition font_size_of :: "obj \<Rightarrow> json" where
  "font_size_of t = (case map_of t ''font_size'' of Some v \<Rightarrow> v | None \<Rightarrow> JInt 14)"

definition good_entry :: "obj \<Rightarrow> bool" where
  "good_entry d \<longleftrightarrow> (case map_of d ''entry_text'' of None \<Rightarrow> True
     | Some (JObj t) \<Rightarrow> coord (font_size_of t) \<noteq> None | Some _ \<Rightarrow> False)"

definition good_field :: "json \<Rightarrow> bool" where
  "good_field f = (case f of JObj d \<Rightarrow>
       (\<exists>n. map_of d ''page_number'' = Some (JInt n)) \<and> has_key d ''description'' \<and> good_entry d \<and>
       (\<forall>k \<in> {''label_bounding_box'', ''entry_bounding_box''}.
          \<exists>r b. map_of d k = Some r \<and> box_of r = Some b \<and> proper b)
     | _ \<Rightarrow> False)"

definition field_page :: "json \<Rightarrow> json" where
  "field_page f = (case f of JObj d \<Rightarrow> dget d ''page_number'' | _ \<Rightarrow> JNull)"

definition field_box :: "string \<Rightarrow> json \<Rightarrow> rect" where
  "field_box k f = (case f of JObj d \<Rightarrow> the (box_of (dget d k)) | _ \<Rightarrow> (0, 0, 0, 0))"

definition page_boxes :: "json \<Rightarrow> (json \<times> rect) list" where
  "page_boxes f = [(field_page f, field_box ''label_bounding_box'' f), (field_page f, field_box ''entry_bounding_box'' f)]"

text \<open>The text of an entry fits when the height of its box, as Python computes it, is not below the font
  size.\<close>

definition text_fits :: "json \<Rightarrow> bool" where
  "text_fits f = (case f of JObj d \<Rightarrow> (case map_of d ''entry_text'' of
       Some (JObj t) \<Rightarrow> bnd (index (dget d ''entry_bounding_box'') 3) (\<lambda>b. bnd (index (dget d ''entry_bounding_box'') 1) (\<lambda>a.
         bnd (py_sub b a) (\<lambda>h. py_cmp Lt h (font_size_of t)))) = Inr False
     | _ \<Rightarrow> True) | _ \<Rightarrow> True)"

lemma good_fieldE:
  assumes "good_field f"
  obtains d n desc l e a b where "f = JObj d" "map_of d ''page_number'' = Some (JInt n)" "map_of d ''description'' = Some desc"
    "good_entry d" "map_of d ''label_bounding_box'' = Some l" "box_of l = Some a" "proper a"
    "map_of d ''entry_bounding_box'' = Some e" "box_of e = Some b" "proper b"
proof (cases f)
  case (JObj d)
  then show ?thesis using assms that [of d] by (auto simp: good_field_def has_key_def)
qed (use assms in \<open>simp_all add: good_field_def\<close>)

text \<open>An element of \<open>rects_and_fields\<close> that comes from such a field.\<close>

definition raf_page :: "raf \<Rightarrow> json" where
  "raf_page r = field_page (raf_field r)"

definition raf_box :: "raf \<Rightarrow> rect" where
  "raf_box r = the (box_of (raf_rect r))"

definition good_raf :: "raf \<Rightarrow> bool" where
  "good_raf r \<longleftrightarrow> good_field (raf_field r) \<and> (\<exists>d. raf_field r = JObj d \<and>
     (raf_type r = ''label'' \<and> map_of d ''label_bounding_box'' = Some (raf_rect r) \<or>
      raf_type r = ''entry'' \<and> map_of d ''entry_bounding_box'' = Some (raf_rect r)))"

lemma good_raf_box:
  assumes "good_raf r"
  shows "box_of (raf_rect r) = Some (raf_box r)" "proper (raf_box r)"
  using assms by (auto simp: good_raf_def raf_box_def elim!: good_fieldE)

lemma good_raf_page:
  assumes "good_raf r"
  shows "subscr (raf_field r) ''page_number'' = Inr (raf_page r)" "\<exists>n. raf_page r = JInt n"
    "\<exists>v. subscr (raf_field r) ''description'' = Inr v"
  using assms by (auto simp: good_raf_def raf_page_def field_page_def item_def elim!: good_fieldE)

lemma py_eq_ints: "py_eq (JInt m) (JInt n) \<longleftrightarrow> m = n"
  by (simp add: py_eq.simps)

lemma pair_hits_eq:
  assumes "good_raf ri" "good_raf rj"
  shows "pair_hits ri rj = Inr (raf_page ri = raf_page rj \<and> overlap (raf_box ri) (raf_box rj))"
  using good_raf_page [OF assms(1)] good_raf_page [OF assms(2)]
    rects_intersect_eq [OF good_raf_box(1) [OF assms(1)] good_raf_box(1) [OF assms(2)]
      good_raf_box(2) [OF assms(1)] good_raf_box(2) [OF assms(2)]]
  by (auto simp: pair_hits_def py_eq_ints)

text \<open>The messages of a loop's outcome, and whether it has found a failure.\<close>

fun flow_messages :: "flow \<Rightarrow> msg list" where
  "flow_messages (Return ms) = ms"
| "flow_messages (Next ms e) = ms"

fun flagged :: "flow \<Rightarrow> bool" where
  "flagged (Return ms) = True"
| "flagged (Next ms e) = e"

lemma add_failure_flagged: "flagged (add_failure ms m)"
  by (simp add: add_failure_def Let_def)

lemma add_failure_messages:
  "SUCCESS \<notin> set ms \<Longrightarrow> m \<noteq> SUCCESS \<Longrightarrow> SUCCESS \<notin> set (flow_messages (add_failure ms m))"
  by (simp add: add_failure_def Let_def ABORTING_def SUCCESS_def)

lemma pair_message_good:
  assumes "good_raf ri" "good_raf rj"
  shows "\<exists>m. pair_message ri rj = Inr m \<and> m \<noteq> SUCCESS"
  using good_raf_page(3) [OF assms(1)] good_raf_page(3) [OF assms(2)]
  by (auto simp: pair_message_def SUCCESS_def)

text \<open>\<open>loop_outcome ms e b fl\<close>: a loop that started with the messages \<open>ms\<close> and \<open>has_error = e\<close> and came across a
  failure iff \<open>b\<close>.\<close>

definition loop_outcome :: "msg list \<Rightarrow> bool \<Rightarrow> bool \<Rightarrow> flow \<Rightarrow> bool" where
  "loop_outcome ms e b fl \<longleftrightarrow> (flagged fl \<longleftrightarrow> e \<or> b) \<and> (SUCCESS \<notin> set ms \<longrightarrow> SUCCESS \<notin> set (flow_messages fl))"

lemma pair_loop_outcome:
  assumes "good_raf ri" "\<forall>rj \<in> set rs. good_raf rj"
  shows "\<exists>fl. pair_loop ri rs ms e = Inr fl \<and>
    loop_outcome ms e (\<exists>rj \<in> set rs. raf_page ri = raf_page rj \<and> overlap (raf_box ri) (raf_box rj)) fl"
  using assms(2)
proof (induction rs arbitrary: ms e)
  case Nil
  then show ?case by (simp add: loop_outcome_def)
next
  case (Cons rj rs)
  have hit: "pair_hits ri rj = Inr (raf_page ri = raf_page rj \<and> overlap (raf_box ri) (raf_box rj))"
    using assms(1) Cons.prems by (simp add: pair_hits_eq)
  obtain m where m: "pair_message ri rj = Inr m" "m \<noteq> SUCCESS" using pair_message_good [OF assms(1)] Cons.prems by auto
  show ?case
  proof (cases "raf_page ri = raf_page rj \<and> overlap (raf_box ri) (raf_box rj)")
    case False
    then show ?thesis using Cons.IH [of ms e] Cons.prems hit by (simp add: loop_outcome_def) blast
  next
    case True
    show ?thesis
    proof (cases "add_failure ms m")
      case (Return r)
      then show ?thesis using True hit m add_failure_messages [of ms m] by (auto simp: loop_outcome_def)
    next
      case (Next r e')
      then have "e'" using add_failure_flagged [of ms m] by simp
      then show ?thesis using True hit m Next add_failure_messages [of ms m] Cons.IH [of r e'] Cons.prems
        by (simp add: loop_outcome_def) blast
    qed
  qed
qed

lemma py_sub_coord: "coord v = Some x \<Longrightarrow> coord w = Some y \<Longrightarrow> \<exists>h a. py_sub v w = Inr h \<and> num_val h = Some a"
  by (cases v; cases w) (auto simp: py_sub_def float_of_int_exact split: if_splits)

lemma entry_check_outcome:
  assumes "good_raf ri"
  shows "\<exists>fl. entry_check ri ms e = Inr fl \<and> loop_outcome ms e (raf_type ri = ''entry'' \<and> \<not> text_fits (raf_field ri)) fl"
proof (cases "raf_type ri = ''entry''")
  case False
  then show ?thesis by (simp add: entry_check_def loop_outcome_def)
next
  case True
  then obtain d where d: "raf_field ri = JObj d" "map_of d ''entry_bounding_box'' = Some (raf_rect ri)"
    using assms by (auto simp: good_raf_def)
  obtain desc where desc: "map_of d ''description'' = Some desc"
    using good_raf_page(3) [OF assms] by (auto simp: d item_Inr_iff)
  obtain x0 y0 x1 y1 where b: "raf_box ri = (x0, y0, x1, y1)" by (cases "raf_box ri")
  obtain v0 v1 v2 v3 where r: "raf_rect ri = JArr [v0, v1, v2, v3]" "coord v1 = Some y0" "coord v3 = Some y1"
    using good_raf_box(1) [OF assms] unfolding b box_of_iff by blast
  obtain h a where h: "py_sub v3 v1 = Inr h" "num_val h = Some a" using py_sub_coord [OF r(3,2)] by blast
  have "good_entry d" using assms d(1) by (auto simp: good_raf_def elim!: good_fieldE)
  then consider "map_of d ''entry_text'' = None"
    | t y where "map_of d ''entry_text'' = Some (JObj t)" "coord (font_size_of t) = Some y"
    by (auto simp: good_entry_def split: option.splits json.splits)
  then show ?thesis
  proof cases
    case 1
    then show ?thesis using True d by (simp add: entry_check_def has_key_def text_fits_def loop_outcome_def)
  next
    case 2
    obtain c where c: "num_val (font_size_of t) = Some c" using coord_num [OF 2(2)] by blast
    have f: "get_method (JObj t) ''font_size'' (JInt 14) = Inr (font_size_of t)" by (simp add: font_size_of_def)
    have "text_fits (raf_field ri) \<longleftrightarrow> \<not> flt a c"
      using d 2 r(1) h c by (simp add: text_fits_def py_cmp_num numeral_nat)
    moreover have "entry_check ri ms e = Inr (if flt a c then add_failure ms [Txt ''FAILURE: entry bounding box height ('',
        str_frag h, Txt '') for `'', str_frag desc, Txt ''` is too short for the text content (font size: '', str_frag (font_size_of t),
        Txt ''). Increase the box height or decrease the font size.''] else Next ms e)"
      using True d 2 r(1) h c desc unfolding entry_check_def by (simp add: has_key_def item_def f py_cmp_num numeral_nat del: get_method.simps)
    ultimately show ?thesis using True add_failure_flagged add_failure_messages
      by (auto simp: loop_outcome_def SUCCESS_def)
  qed
qed

lemma rect_loop_outcome:
  assumes "\<forall>r \<in> set rs. good_raf r"
  shows "\<exists>fl. rect_loop rs ms e = Inr fl \<and>
    loop_outcome ms e (\<not> sorted_wrt (\<lambda>a b. raf_page a = raf_page b \<longrightarrow> \<not> overlap (raf_box a) (raf_box b)) rs \<or>
      (\<exists>r \<in> set rs. raf_type r = ''entry'' \<and> \<not> text_fits (raf_field r))) fl"
  using assms
proof (induction rs arbitrary: ms e)
  case Nil
  then show ?case by (simp add: loop_outcome_def)
next
  case (Cons ri rs)
  let ?hit = "\<exists>rj \<in> set rs. raf_page ri = raf_page rj \<and> overlap (raf_box ri) (raf_box rj)"
  obtain f1 where f1: "pair_loop ri rs ms e = Inr f1" "loop_outcome ms e ?hit f1"
    using pair_loop_outcome [of ri rs ms e] Cons.prems by auto
  show ?case
  proof (cases f1)
    case (Return r)
    then show ?thesis using f1 by (auto simp: loop_outcome_def)
  next
    case n1: (Next ms1 e1)
    obtain f2 where f2: "entry_check ri ms1 e1 = Inr f2" "loop_outcome ms1 e1 (raf_type ri = ''entry'' \<and> \<not> text_fits (raf_field ri)) f2"
      using entry_check_outcome [of ri ms1 e1] Cons.prems by auto
    show ?thesis
    proof (cases f2)
      case (Return r)
      then show ?thesis using f1 f2 n1 by (auto simp: loop_outcome_def)
    next
      case n2: (Next ms2 e2)
      show ?thesis using Cons.IH [of ms2 e2] Cons.prems f1 f2 n1 n2 by (auto simp: loop_outcome_def)
    qed
  qed
qed

lemma mapm_all: "\<forall>x \<in> set xs. f x = Inr (g x) \<Longrightarrow> mapm f xs = Inr (map g xs)"
  by (induction xs) auto

definition field_rafs :: "nat \<times> json \<Rightarrow> raf list" where
  "field_rafs p = (case p of (i, f) \<Rightarrow> (case f of JObj d \<Rightarrow>
     [\<lparr>raf_rect = dget d ''label_bounding_box'', raf_type = ''label'', raf_field = f, raf_id = i\<rparr>,
      \<lparr>raf_rect = dget d ''entry_bounding_box'', raf_type = ''entry'', raf_field = f, raf_id = i\<rparr>] | _ \<Rightarrow> []))"

lemma rects_of_good_field:
  assumes "good_field f"
  shows "rects_of_field i f = Inr (field_rafs (i, f))" "\<forall>r \<in> set (field_rafs (i, f)). good_raf r"
    "map (\<lambda>r. (raf_page r, raf_box r)) (field_rafs (i, f)) = page_boxes f"
    "(\<forall>r \<in> set (field_rafs (i, f)). raf_type r = ''entry'' \<longrightarrow> text_fits (raf_field r)) \<longleftrightarrow> text_fits f"
proof -
  from assms obtain d l e where d: "f = JObj d" "map_of d ''label_bounding_box'' = Some l" "map_of d ''entry_bounding_box'' = Some e"
    by (rule good_fieldE)
  show "rects_of_field i f = Inr (field_rafs (i, f))" "\<forall>r \<in> set (field_rafs (i, f)). good_raf r"
    "map (\<lambda>r. (raf_page r, raf_box r)) (field_rafs (i, f)) = page_boxes f"
    "(\<forall>r \<in> set (field_rafs (i, f)). raf_type r = ''entry'' \<longrightarrow> text_fits (raf_field r)) \<longleftrightarrow> text_fits f"
    using assms d by (simp_all add: rects_of_field_def field_rafs_def item_def good_raf_def page_boxes_def raf_page_def raf_box_def
      field_box_def)
qed

lemma document_rafs:
  assumes "\<forall>f \<in> set fs. good_field f"
  shows "mapm (\<lambda>(i, f). rects_of_field i f) (enumerate k fs) = Inr (map field_rafs (enumerate k fs))"
    "\<forall>r \<in> set (concat (map field_rafs (enumerate k fs))). good_raf r"
    "map (\<lambda>r. (raf_page r, raf_box r)) (concat (map field_rafs (enumerate k fs))) = concat (map page_boxes fs)"
    "(\<forall>r \<in> set (concat (map field_rafs (enumerate k fs))). raf_type r = ''entry'' \<longrightarrow> text_fits (raf_field r)) \<longleftrightarrow>
      (\<forall>f \<in> set fs. text_fits f)"
  using assms by (induction fs arbitrary: k) (simp_all add: rects_of_good_field ball_Un, use rects_of_good_field(2) in blast)

lemma checker_outcome:
  assumes "map_of d ''form_fields'' = Some (JArr fs)" and "\<forall>f \<in> set fs. good_field f"
  shows "\<exists>ms. get_bounding_box_messages (JObj d) = Inr ms \<and>
    (SUCCESS \<in> set ms \<longleftrightarrow>
      sorted_wrt (\<lambda>(p, a) (q, b). p = q \<longrightarrow> \<not> overlap a b) (concat (map page_boxes fs)) \<and> (\<forall>f \<in> set fs. text_fits f))"
proof -
  let ?rs = "concat (map field_rafs (enumerate 0 fs))"
  let ?first = "[[Txt ''Read '', Txt (str_nat (length fs)), Txt '' fields'']]"
  obtain fl where fl: "rect_loop ?rs ?first False = Inr fl"
    "loop_outcome ?first False (\<not> sorted_wrt (\<lambda>a b. raf_page a = raf_page b \<longrightarrow> \<not> overlap (raf_box a) (raf_box b)) ?rs \<or>
      (\<exists>r \<in> set ?rs. raf_type r = ''entry'' \<and> \<not> text_fits (raf_field r))) fl"
    using rect_loop_outcome [OF document_rafs(2) [OF assms(2)]] by blast
  have s: "sorted_wrt (\<lambda>a b. raf_page a = raf_page b \<longrightarrow> \<not> overlap (raf_box a) (raf_box b)) ?rs \<longleftrightarrow>
      sorted_wrt (\<lambda>(p, a) (q, b). p = q \<longrightarrow> \<not> overlap a b) (concat (map page_boxes fs))"
    unfolding document_rafs(3) [OF assms(2), of 0, symmetric] sorted_wrt_map by simp
  have "\<not> flagged fl \<longleftrightarrow> sorted_wrt (\<lambda>(p, a) (q, b). p = q \<longrightarrow> \<not> overlap a b) (concat (map page_boxes fs)) \<and> (\<forall>f \<in> set fs. text_fits f)"
    using fl(2) document_rafs(4) [OF assms(2), of 0] unfolding loop_outcome_def s by blast
  moreover have "SUCCESS \<notin> set (flow_messages fl)" using fl(2) by (simp add: loop_outcome_def SUCCESS_def)
  moreover have "get_bounding_box_messages (JObj d) = Inr (if flagged fl then flow_messages fl else flow_messages fl @ [SUCCESS])"
    using fl(1) assms(1) document_rafs(1) [OF assms(2)] by (simp add: get_bounding_box_messages_def item_def py_len_def split: flow.split)
  ultimately show ?thesis by (cases "flagged fl") auto
qed

text \<open>C21. On a document of well-formed fields the checker returns, and it reports success exactly when no two
  boxes of one page have a point inside both, among the labels and entries of all fields, and every
  entry box is high enough for its text. The limit of twenty messages never hides a failure.\<close>

theorem checker_accepts_iff:
  assumes "map_of d ''form_fields'' = Some (JArr fs)" and "\<forall>f \<in> set fs. good_field f"
  shows "\<exists>ms. get_bounding_box_messages (JObj d) = Inr ms \<and>
    (SUCCESS \<in> set ms \<longleftrightarrow>
      sorted_wrt (\<lambda>(p, a) (q, b). p = q \<longrightarrow> \<not> overlap a b) (concat (map page_boxes fs)) \<and> (\<forall>f \<in> set fs. text_fits f))"
  using assms by (rule checker_outcome)

section \<open>How many messages\<close>

definition few :: "flow \<Rightarrow> bool" where
  "few fl = (case fl of Return ms \<Rightarrow> length ms = 21 | Next ms e \<Rightarrow> length ms < 20)"

lemma add_failure_few: "length ms < 20 \<Longrightarrow> few (add_failure ms m)"
  by (simp add: add_failure_def few_def Let_def)

lemma pair_loop_few: "pair_loop ri rs ms e = Inr fl \<Longrightarrow> length ms < 20 \<Longrightarrow> few fl"
proof (induction rs arbitrary: ms e)
  case (Cons rj rs)
  then obtain hit where hit: "pair_hits ri rj = Inr hit" by (auto simp: bnd_Inr_iff)
  show ?case
  proof (cases hit)
    case True
    then obtain m where m: "pair_message ri rj = Inr m" using Cons.prems hit by (auto simp: bnd_Inr_iff)
    show ?thesis using add_failure_few [OF Cons.prems(2), of m] Cons.prems(1) Cons.IH True hit m
      by (cases "add_failure ms m") (auto simp: few_def)
  next
    case False
    then show ?thesis using Cons hit by simp
  qed
qed (auto simp: few_def)

lemma entry_check_few:
  assumes "entry_check ri ms e = Inr fl" "length ms < 20"
  shows "few fl"
proof -
  from assms(1) have "fl = Next ms e \<or> (\<exists>m. fl = add_failure ms m)"
    unfolding entry_check_def by (auto simp: bnd_Inr_iff split: if_splits)
  then show ?thesis using add_failure_few [OF assms(2)] assms(2) by (auto simp: few_def)
qed

lemma rect_loop_few: "rect_loop rs ms e = Inr fl \<Longrightarrow> length ms < 20 \<Longrightarrow> few fl"
proof (induction rs arbitrary: ms e)
  case (Cons ri rs)
  then obtain f1 where f1: "pair_loop ri rs ms e = Inr f1" by (auto simp: bnd_Inr_iff)
  note few1 = pair_loop_few [OF f1 Cons.prems(2)]
  show ?case
  proof (cases f1)
    case (Return r)
    then show ?thesis using f1 few1 Cons.prems(1) by simp
  next
    case n1: (Next ms1 e1)
    then obtain f2 where f2: "entry_check ri ms1 e1 = Inr f2" using f1 Cons.prems(1) by (auto simp: bnd_Inr_iff)
    have "few f2" using entry_check_few [OF f2] few1 n1 by (simp add: few_def)
    then show ?thesis using f1 f2 n1 Cons.prems(1) Cons.IH by (cases f2) (auto simp: few_def)
  qed
qed (auto simp: few_def)

text \<open>Whatever the document, the checker never prints more than twenty-one messages.\<close>

theorem checker_message_bound:
  assumes "get_bounding_box_messages document = Inr ms"
  shows "length ms \<le> 21"
proof -
  from assms obtain rs n fl where fl: "rect_loop rs [[Txt ''Read '', Txt (str_nat n), Txt '' fields'']] False = Inr fl"
    and ms: "ms = (case fl of Return messages \<Rightarrow> messages | Next messages has_error \<Rightarrow> if has_error then messages else messages @ [SUCCESS])"
    unfolding get_bounding_box_messages_def by (auto simp: bnd_Inr_iff)
  have "few fl" using rect_loop_few [OF fl] by simp
  then show ?thesis unfolding ms by (cases fl) (auto simp: few_def)
qed

definition box_json :: "int \<Rightarrow> int \<Rightarrow> int \<Rightarrow> int \<Rightarrow> json" where
  "box_json a b c d = JArr [JInt a, JInt b, JInt c, JInt d]"

definition demo_field :: "int \<Rightarrow> json" where
  "demo_field y = JObj [(''page_number'', JInt 1), (''description'', JStr ''name''), (''label_bounding_box'', box_json 0 y 50 (y + 20)),
     (''entry_bounding_box'', box_json 60 y 200 (y + 20)), (''entry_text'', JObj [(''text'', JStr ''Smith'')])]"

lemma demo_field_good: "\<bar>y\<bar> < 1000 \<Longrightarrow> good_field (demo_field y)"
  by (simp add: good_field_def demo_field_def box_json_def good_entry_def font_size_of_def has_key_def)

theorem checker_accepts_witness:
  "(\<exists>ms. get_bounding_box_messages (JObj [(''form_fields'', JArr [demo_field 0, demo_field 20])]) = Inr ms \<and> SUCCESS \<in> set ms) \<and>
   (\<exists>ms. get_bounding_box_messages (JObj [(''form_fields'', JArr [demo_field 0, demo_field 10])]) = Inr ms \<and> SUCCESS \<notin> set ms)"
proof -
  have fits: "text_fits (demo_field y)" if "\<bar>y\<bar> < 1000" for y
    by (simp add: text_fits_def demo_field_def box_json_def font_size_of_def py_sub_def py_cmp.simps numeral_nat)
  have boxes: "page_boxes (demo_field y) = [(JInt 1, (0, of_int y, 50, of_int y + 20)), (JInt 1, (60, of_int y, 200, of_int y + 20))]"
    if y: "\<bar>y\<bar> < 1000" for y
  proof -
    have "\<bar>y\<bar> \<le> 9007199254740992" "\<bar>y + 20\<bar> \<le> 9007199254740992" using y by arith+
    then show ?thesis by (simp add: page_boxes_def field_page_def field_box_def demo_field_def box_json_def dget_def)
  qed
  have "sorted_wrt (\<lambda>(p, a) (q, b). p = q \<longrightarrow> \<not> overlap a b) (concat (map page_boxes [demo_field 0, demo_field 20]))"
    "\<not> sorted_wrt (\<lambda>(p, a) (q, b). p = q \<longrightarrow> \<not> overlap a b) (concat (map page_boxes [demo_field 0, demo_field 10]))"
    by (simp_all add: boxes overlap_iff)
  then show ?thesis
    using checker_accepts_iff [of "[(''form_fields'', JArr [demo_field 0, demo_field 20])]" "[demo_field 0, demo_field 20]"]
      checker_accepts_iff [of "[(''form_fields'', JArr [demo_field 0, demo_field 10])]" "[demo_field 0, demo_field 10]"]
    by (simp add: demo_field_good fits)
qed

theorem checker_message_bound_witness:
  "get_bounding_box_messages (JObj [(''form_fields'', JArr [])]) = Inr [[Txt ''Read '', Txt ''0'', Txt '' fields''], SUCCESS] \<and>
    length [[Txt ''Read '', Txt ''0'', Txt '' fields''], SUCCESS] \<le> 21"
proof -
  have r: "get_bounding_box_messages (JObj [(''form_fields'', JArr [])]) = Inr [[Txt ''Read '', Txt ''0'', Txt '' fields''], SUCCESS]"
    by code_simp
  from r checker_message_bound [OF r] show ?thesis by blast
qed

section \<open>From checked boxes to annotations\<close>

text \<open>Two rectangles \<open>(left, bottom, right, top)\<close> of annotations are apart.\<close>

fun pdf_apart :: "json list \<Rightarrow> json list \<Rightarrow> bool" where
  "pdf_apart [l, b, r, t] [l', b', r', t'] \<longleftrightarrow>
     py_cmp Le r l' = Inr True \<or> py_cmp Le r' l = Inr True \<or> py_cmp Le t b' = Inr True \<or> py_cmp Le t' b = Inr True"
| "pdf_apart _ _ = False"

lemma py_cmp_floats: "py_cmp c (JFloat a) (JFloat b) = Inr (cmp_float c a b)"
  by (rule py_cmp_num) simp_all

lemma coord_float:
  assumes "coord v = Some x"
  obtains a where "num_float v = Inr a" "is_double a" "fval a = Some x"
proof (cases v)
  case (JInt n)
  then have "\<bar>n\<bar> \<le> 2 ^ 53" "x = of_int n" using assms by (simp_all split: if_splits)
  then show ?thesis using that [of "Fin x"] JInt
    by (simp add: float_of_int_exact is_double_def round_double_exact representable_int)
qed (use assms that in \<open>auto split: if_splits\<close>)

lemma not_overlap:
  assumes "proper (x0, y0, x1, y1)" "proper (u0, v0, u1, v1)" "\<not> overlap (x0, y0, x1, y1) (u0, v0, u1, v1)"
  obtains "x1 \<le> u0" | "u1 \<le> x0" | "y1 \<le> v0" | "v1 \<le> y0"
  using assms by (auto simp: overlap_iff not_less)

lemma pdf_coords_apart:
  assumes box: "box_of r = Some a" "box_of s = Some b" and p: "proper a" "proper b" and no: "\<not> overlap a b"
    and h: "is_double h" "fval h = Some z"
    and tr: "transform_from_pdf_coords r h = Inr r'" "transform_from_pdf_coords s h = Inr s'"
  shows "pdf_apart r' s'"
proof -
  obtain x0 y0 x1 y1 where a: "a = (x0, y0, x1, y1)" by (cases a)
  obtain u0 v0 u1 v1 where b: "b = (u0, v0, u1, v1)" by (cases b)
  from box(1) obtain c0 c1 c2 c3 where r: "r = JArr [c0, c1, c2, c3]" "coord c0 = Some x0" "coord c1 = Some y0"
    "coord c2 = Some x1" "coord c3 = Some y1" unfolding a box_of_iff by blast
  from box(2) obtain d0 d1 d2 d3 where s: "s = JArr [d0, d1, d2, d3]" "coord d0 = Some u0" "coord d1 = Some v0"
    "coord d2 = Some u1" "coord d3 = Some v1" unfolding b box_of_iff by blast
  obtain f1 where f1: "num_float c1 = Inr f1" "is_double f1" "fval f1 = Some y0" using coord_float [OF r(3)] .
  obtain f3 where f3: "num_float c3 = Inr f3" "is_double f3" "fval f3 = Some y1" using coord_float [OF r(5)] .
  obtain g1 where g1: "num_float d1 = Inr g1" "is_double g1" "fval g1 = Some v0" using coord_float [OF s(3)] .
  obtain g3 where g3: "num_float d3 = Inr g3" "is_double g3" "fval g3 = Some v1" using coord_float [OF s(5)] .
  have r': "r' = [c0, JFloat (fsub h f3), c2, JFloat (fsub h f1)]"
    using tr(1) f1 f3 by (simp add: transform_from_pdf_coords_def r float_minus_def)
  have s': "s' = [d0, JFloat (fsub h g3), d2, JFloat (fsub h g1)]"
    using tr(2) g1 g3 by (simp add: transform_from_pdf_coords_def s float_minus_def)
  have le: "fle m n \<longleftrightarrow> x \<le> y" if "fval m = Some x" "fval n = Some y" for m n x y
    using cmp_float_fval [OF that, of Le] by simp
  from p(1) p(2) no show ?thesis unfolding a b
  proof (rule not_overlap)
    assume "y1 \<le> v0"
    then have "fle (fsub h g1) (fsub h f3)" using fsub_mono [OF h f3(2) g1(2)] le [OF f3(3) g1(3)] by simp
    then show ?thesis by (simp add: r' s' py_cmp_floats)
  next
    assume "v1 \<le> y0"
    then have "fle (fsub h f1) (fsub h g3)" using fsub_mono [OF h g3(2) f1(2)] le [OF g3(3) f1(3)] by simp
    then show ?thesis by (simp add: r' s' py_cmp_floats)
  qed (simp_all add: r' s' py_cmp_coord [OF r(4) s(2)] py_cmp_coord [OF s(4) r(2)])
qed

text \<open>A page's size in points, and an image's size in pixels.\<close>

definition good_size :: "pyfloat \<Rightarrow> bool" where
  "good_size f \<longleftrightarrow> is_double f \<and> (\<exists>x. fval f = Some x \<and> 0 < x \<and> x \<le> 2 ^ 53)"

definition good_pixels :: "json \<Rightarrow> bool" where
  "good_pixels v = (case v of JInt n \<Rightarrow> 0 < n \<and> n \<le> 2 ^ 53 | _ \<Rightarrow> False)"

lemma scale_nonneg:
  assumes "good_size f" "good_pixels v" "float_div f v = Inr s"
  obtains z where "fval s = Some z" "0 \<le> z"
proof -
  obtain n where n: "v = JInt n" "0 < n" "n \<le> 2 ^ 53" using assms(2) by (auto simp: good_pixels_def split: json.splits)
  obtain x where x: "fval f = Some x" "0 < x" "x \<le> 2 ^ 53" using assms(1) by (auto simp: good_size_def)
  then have f: "f = Fin x" by (cases f) auto
  have q: "0 \<le> x / of_int n" "x / of_int n \<le> 2 ^ 53"
    using x n by (simp_all add: pos_divide_le_eq)
  have s: "s = round_double (x / of_int n)" using assms(3) n x f by (simp add: float_div_def float_of_int_exact fdiv_def)
  have "round_double 0 = Fin 0" "round_double (2 ^ 53) = Fin (2 ^ 53)"
    using round_double_exact [OF representable_int, of "2 ^ 53"] by (simp_all add: round_double_def [of 0])
  then have "fle (Fin 0) s" "fle s (Fin (2 ^ 53))" using round_double_mono [OF q(1)] round_double_mono [OF q(2)] s by simp_all
  then show thesis using that by (cases s) (auto simp: fle_def)
qed

lemma image_coords_apart:
  assumes box: "box_of r = Some a" "box_of s = Some b" and p: "proper a" "proper b" and no: "\<not> overlap a b"
    and sz: "good_size w" "good_size h" "good_pixels iw" "good_pixels ih"
    and tr: "transform_from_image_coords r iw ih w h = Inr r'" "transform_from_image_coords s iw ih w h = Inr s'"
  shows "pdf_apart r' s'"
proof -
  obtain x0 y0 x1 y1 where a: "a = (x0, y0, x1, y1)" by (cases a)
  obtain u0 v0 u1 v1 where b: "b = (u0, v0, u1, v1)" by (cases b)
  from box(1) obtain c0 c1 c2 c3 where r: "r = JArr [c0, c1, c2, c3]" "coord c0 = Some x0" "coord c1 = Some y0"
    "coord c2 = Some x1" "coord c3 = Some y1" unfolding a box_of_iff by blast
  from box(2) obtain d0 d1 d2 d3 where s: "s = JArr [d0, d1, d2, d3]" "coord d0 = Some u0" "coord d1 = Some v0"
    "coord d2 = Some u1" "coord d3 = Some v1" unfolding b box_of_iff by blast
  obtain sx sy where sc: "float_div w iw = Inr sx" "float_div h ih = Inr sy"
    using tr(1) by (auto simp: transform_from_image_coords_def bnd_Inr_iff)
  obtain zx where zx: "fval sx = Some zx" "0 \<le> zx" using scale_nonneg [OF sz(1,3) sc(1)] .
  obtain zy where zy: "fval sy = Some zy" "0 \<le> zy" using scale_nonneg [OF sz(2,4) sc(2)] .
  obtain f0 where f0: "num_float c0 = Inr f0" "fval f0 = Some x0" using coord_float [OF r(2)] by metis
  obtain f1 where f1: "num_float c1 = Inr f1" "fval f1 = Some y0" using coord_float [OF r(3)] by metis
  obtain f2 where f2: "num_float c2 = Inr f2" "fval f2 = Some x1" using coord_float [OF r(4)] by metis
  obtain f3 where f3: "num_float c3 = Inr f3" "fval f3 = Some y1" using coord_float [OF r(5)] by metis
  obtain g0 where g0: "num_float d0 = Inr g0" "fval g0 = Some u0" using coord_float [OF s(2)] by metis
  obtain g1 where g1: "num_float d1 = Inr g1" "fval g1 = Some v0" using coord_float [OF s(3)] by metis
  obtain g2 where g2: "num_float d2 = Inr g2" "fval g2 = Some u1" using coord_float [OF s(4)] by metis
  obtain g3 where g3: "num_float d3 = Inr g3" "fval g3 = Some v1" using coord_float [OF s(5)] by metis
  have r': "r' = [JFloat (fmul f0 sx), JFloat (fsub h (fmul f3 sy)), JFloat (fmul f2 sx), JFloat (fsub h (fmul f1 sy))]"
    using tr(1) f0 f1 f2 f3 sc by (simp add: transform_from_image_coords_def r times_float_def)
  have s': "s' = [JFloat (fmul g0 sx), JFloat (fsub h (fmul g3 sy)), JFloat (fmul g2 sx), JFloat (fsub h (fmul g1 sy))]"
    using tr(2) g0 g1 g2 g3 sc by (simp add: transform_from_image_coords_def s times_float_def)
  obtain z where h: "is_double h" "fval h = Some z" using sz(2) by (auto simp: good_size_def)
  note dbl = fmul_round(2) [OF _ zy(1)]
  from p(1) p(2) no show ?thesis unfolding a b
  proof (rule not_overlap)
    assume "x1 \<le> u0"
    from fmul_mono [OF f2(2) g0(2) zx this] show ?thesis by (simp add: r' s' py_cmp_floats)
  next
    assume "u1 \<le> x0"
    from fmul_mono [OF g2(2) f0(2) zx this] show ?thesis by (simp add: r' s' py_cmp_floats)
  next
    assume "y1 \<le> v0"
    from fsub_mono [OF h dbl [OF f3(2)] dbl [OF g1(2)] fmul_mono [OF f3(2) g1(2) zy this]]
    show ?thesis by (simp add: r' s' py_cmp_floats)
  next
    assume "v1 \<le> y0"
    from fsub_mono [OF h dbl [OF g3(2)] dbl [OF f1(2)] fmul_mono [OF g3(2) f1(2) zy this]]
    show ?thesis by (simp add: r' s' py_cmp_floats)
  qed
qed

text \<open>What filling one field adds: nothing, or one annotation in the field's transformed entry box.\<close>

definition field_adds :: "json \<Rightarrow> (pyfloat \<times> pyfloat) list \<Rightarrow> json \<Rightarrow> (json \<times> free_text) list \<Rightarrow> bool" where
  "field_adds document pages f out \<longleftrightarrow> (\<exists>p rect. subscr f ''page_number'' = Inr p \<and> entry_box document f pages p = Inr rect \<and>
     (out = [] \<or> (\<exists>i a. out = [(i, a)] \<and> py_sub p (JInt 1) = Inr i \<and> ft_rect a = rect)))"

lemma make_annotation_rect: "make_annotation t rect = Inr (Some a) \<Longrightarrow> ft_rect a = rect"
  by (auto simp: make_annotation_def bnd_Inr_iff split: if_splits)

lemma fill_field_adds:
  assumes "fill_field lib document pages acc f = Inr res"
  obtains out where "res = acc @ out" "field_adds document pages f out"
proof -
  obtain p rect b where f: "subscr f ''page_number'' = Inr p" "entry_box document f pages p = Inr rect" "has_entry_text f = Inr b"
    using assms by (auto simp: fill_field_def bnd_Inr_iff)
  show thesis
  proof (cases b)
    case False
    then show thesis using assms f that [of "[]"] by (simp add: fill_field_def field_adds_def)
  next
    case True
    then obtain t a where t: "subscr f ''entry_text'' = Inr t" "make_annotation t rect = Inr a"
      using assms f by (auto simp: fill_field_def bnd_Inr_iff)
    show thesis
    proof (cases a)
      case None
      then show thesis using assms f t True that [of "[]"] by (simp add: fill_field_def field_adds_def)
    next
      case (Some x)
      then obtain i where "py_sub p (JInt 1) = Inr i" "res = acc @ [(i, x)]"
        using assms f t True by (auto simp: fill_field_def bnd_Inr_iff)
      then show thesis using f t(2) Some that [of "[(i, x)]"] make_annotation_rect by (auto simp: field_adds_def)
    qed
  qed
qed

lemma fill_fields_add:
  "foldm (fill_field lib document pages) acc fs = Inr res \<Longrightarrow>
    \<exists>outs. res = acc @ concat outs \<and> list_all2 (field_adds document pages) fs outs"
proof (induction fs arbitrary: acc)
  case (Cons f fs)
  then obtain mid where mid: "fill_field lib document pages acc f = Inr mid" "foldm (fill_field lib document pages) mid fs = Inr res"
    by (auto simp: bnd_Inr_iff)
  obtain out where out: "mid = acc @ out" "field_adds document pages f out" using fill_field_adds [OF mid(1)] .
  obtain outs where "res = mid @ concat outs" "list_all2 (field_adds document pages) fs outs" using Cons.IH [OF mid(2)] by blast
  then show ?case using out by (intro exI [of _ "out # outs"]) simp
qed simp

lemma sorted_wrt_concat_outs:
  assumes "list_all2 R fs outs" "sorted_wrt P fs" "\<And>f out. f \<in> set fs \<Longrightarrow> R f out \<Longrightarrow> length out \<le> 1"
    and "\<And>f g o1 o2 x y. f \<in> set fs \<Longrightarrow> g \<in> set fs \<Longrightarrow> P f g \<Longrightarrow> R f o1 \<Longrightarrow> R g o2 \<Longrightarrow> x \<in> set o1 \<Longrightarrow> y \<in> set o2 \<Longrightarrow> Q x y"
  shows "sorted_wrt Q (concat outs)"
  using assms
proof (induction rule: list_all2_induct)
  case (Cons f fs out outs)
  have "sorted_wrt Q (concat outs)"
    by (rule Cons.IH) (use Cons.prems in \<open>auto intro: Cons.prems(3)\<close>)
  moreover have "length out \<le> 1" by (rule Cons.prems(2)) (use Cons.hyps(1) in simp_all)
  then have "sorted_wrt Q out" by (cases out) auto
  moreover have "Q x y" if xy: "x \<in> set out" "y \<in> set (concat outs)" for x y
  proof -
    obtain o2 where o2: "o2 \<in> set outs" "y \<in> set o2" using xy(2) by auto
    then obtain g where g: "g \<in> set fs" "R g o2" using Cons.hyps(2) unfolding list_all2_conv_all_nth in_set_conv_nth by metis
    have "P f g" using Cons.prems(1) g(1) by simp
    then show ?thesis using Cons.prems(3) [of f g out o2 x y] g Cons.hyps(1) xy(1) o2(2) by simp
  qed
  ultimately show ?case by (simp add: sorted_wrt_append)
qed simp

lemma page_boxes_entries:
  "sorted_wrt (\<lambda>(p, a) (q, b). p = q \<longrightarrow> \<not> overlap a b) (concat (map page_boxes fs)) \<Longrightarrow>
    sorted_wrt (\<lambda>f g. field_page f = field_page g \<longrightarrow>
      \<not> overlap (field_box ''entry_bounding_box'' f) (field_box ''entry_bounding_box'' g)) fs"
proof (induction fs)
  case (Cons f fs)
  then show ?case by (auto simp: page_boxes_def sorted_wrt_append)
qed simp

text \<open>The sizes that the transformations divide by and multiply with.\<close>

definition good_pages :: "(pyfloat \<times> pyfloat) list \<Rightarrow> json list \<Rightarrow> bool" where
  "good_pages pages ps \<longleftrightarrow> (\<forall>(w, h) \<in> set pages. good_size w \<and> good_size h) \<and>
     (\<forall>p \<in> set ps. \<forall>k \<in> {''image_width'', ''image_height''}. \<forall>v. subscr p k = Inr v \<longrightarrow> good_pixels v)"

lemma find_page_elem: "find_page n ps = Inr p \<Longrightarrow> p \<in> set ps"
  by (induction ps) (auto simp: bnd_Inr_iff split: if_splits)

lemma pdf_dimensions_elem: "pdf_dimensions pages n = Inr wh \<Longrightarrow> wh \<in> set pages"
  by (auto simp: pdf_dimensions_def find_Some_iff split: if_splits option.splits)
    (metis in_set_enumerate_eq length_enumerate nth_mem snd_conv nth_enumerate_eq)

lemma entry_boxes_apart:
  assumes f: "good_field f" and g: "good_field g" and doc: "subscr document ''pages'' = Inr (JArr ps)" "good_pages pages ps"
    and no: "\<not> overlap (field_box ''entry_bounding_box'' f) (field_box ''entry_bounding_box'' g)"
    and tr: "entry_box document f pages n = Inr r" "entry_box document g pages n = Inr s"
  shows "pdf_apart r s"
proof -
  from f obtain d e a where d: "f = JObj d" "map_of d ''entry_bounding_box'' = Some e" "box_of e = Some a" "proper a"
    by (rule good_fieldE)
  from g obtain d' e' b where d': "g = JObj d'" "map_of d' ''entry_bounding_box'' = Some e'" "box_of e' = Some b" "proper b"
    by (rule good_fieldE)
  have no': "\<not> overlap a b" using no d d' by (simp add: field_box_def)
  obtain p w h where p: "find_page n ps = Inr p" "pdf_dimensions pages n = Inr (w, h)"
    using tr(1) doc(1) by (auto simp: entry_box_def bnd_Inr_iff)
  have wh: "good_size w" "good_size h" using pdf_dimensions_elem [OF p(2)] doc(2) by (auto simp: good_pages_def)
  obtain z where z: "is_double h" "fval h = Some z" using wh(2) by (auto simp: good_size_def)
  obtain c where c: "str_in ''pdf_width'' p = Inr c" using tr(1) doc(1) p by (auto simp: entry_box_def bnd_Inr_iff)
  show ?thesis
  proof (cases c)
    case True
    then have "transform_from_pdf_coords e h = Inr r" "transform_from_pdf_coords e' h = Inr s"
      using tr doc(1) p c d(1,2) d'(1,2) by (simp_all add: entry_box_def item_def)
    then show ?thesis by (rule pdf_coords_apart [OF d(3) d'(3) d(4) d'(4) no' z])
  next
    case False
    then obtain iw ih where i: "subscr p ''image_width'' = Inr iw" "subscr p ''image_height'' = Inr ih"
      using tr(1) doc(1) p c by (auto simp: entry_box_def bnd_Inr_iff)
    then have "good_pixels iw" "good_pixels ih" using find_page_elem [OF p(1)] doc(2) by (auto simp: good_pages_def)
    moreover have "transform_from_image_coords e iw ih w h = Inr r" "transform_from_image_coords e' iw ih w h = Inr s"
      using tr doc(1) p c d(1,2) d'(1,2) i False by (simp_all add: entry_box_def item_def)
    ultimately show ?thesis by (intro image_coords_apart [OF d(3) d'(3) d(4) d'(4) no' wh])
  qed
qed

text \<open>C18. Boxes that the checker accepts stay apart in the filled PDF: when the checker reports success on a
  document of well-formed fields, the annotations that \<open>fill_pdf_form\<close> adds to one page have rectangles
  that are pairwise apart, whether the document gives image or PDF coordinates, and in spite of the
  rounding of the float arithmetic.\<close>

theorem accepted_annotations_apart:
  assumes doc: "load_document w fields_json = Inr (JObj d)" "map_of d ''form_fields'' = Some (JArr fs)" "\<forall>f \<in> set fs. good_field f"
    and pages: "map_of d ''pages'' = Some (JArr ps)" "pl_pages lib input_pdf = Inr pages" "good_pages pages ps"
    and accepted: "get_bounding_box_messages (JObj d) = Inr ms" "SUCCESS \<in> set ms"
    and fill: "fill_pdf_form lib w input_pdf fields_json output_pdf = Inr (annotations, lines)"
  shows "sorted_wrt (\<lambda>(p, a) (q, b). p = q \<longrightarrow> pdf_apart (ft_rect a) (ft_rect b)) annotations"
proof -
  have "foldm (fill_field lib (JObj d) pages) [] fs = Inr annotations"
    using fill doc(1,2) pages(2) by (auto simp: fill_pdf_form_def bnd_Inr_iff item_def)
  then obtain outs where outs: "annotations = concat outs" "list_all2 (field_adds (JObj d) pages) fs outs"
    using fill_fields_add by fastforce
  have ps: "subscr (JObj d) ''pages'' = Inr (JArr ps)" using pages(1) by (simp add: item_def)
  have s: "sorted_wrt (\<lambda>f g. field_page f = field_page g \<longrightarrow>
      \<not> overlap (field_box ''entry_bounding_box'' f) (field_box ''entry_bounding_box'' g)) fs"
    using checker_outcome [OF doc(2,3)] accepted by (intro page_boxes_entries) auto
  show ?thesis unfolding outs(1)
  proof (rule sorted_wrt_concat_outs [OF outs(2) s])
    fix f g o1 o2 x y
    assume fg: "f \<in> set fs" "g \<in> set fs" "field_adds (JObj d) pages f o1" "field_adds (JObj d) pages g o2" "x \<in> set o1" "y \<in> set o2"
      and no: "field_page f = field_page g \<longrightarrow>
        \<not> overlap (field_box ''entry_bounding_box'' f) (field_box ''entry_bounding_box'' g)"
    obtain i a j b where x: "x = (i, a)" and y: "y = (j, b)" by fastforce
    have good: "good_field f" "good_field g" using doc(3) fg(1,2) by blast+
    obtain m where m: "subscr f ''page_number'' = Inr (JInt m)" "field_page f = JInt m"
      using good(1) by (auto simp: item_def field_page_def elim!: good_fieldE)
    obtain n where n: "subscr g ''page_number'' = Inr (JInt n)" "field_page g = JInt n"
      using good(2) by (auto simp: item_def field_page_def elim!: good_fieldE)
    have a: "entry_box (JObj d) f pages (JInt m) = Inr (ft_rect a)" "i = JInt (m - 1)"
      using fg(3,5) m(1) x by (auto simp: field_adds_def py_sub_def)
    have b: "entry_box (JObj d) g pages (JInt n) = Inr (ft_rect b)" "j = JInt (n - 1)"
      using fg(4,6) n(1) y by (auto simp: field_adds_def py_sub_def)
    have "pdf_apart (ft_rect a) (ft_rect b)" if "i = j"
    proof -
      have mn: "m = n" using that a(2) b(2) by simp
      show ?thesis using entry_boxes_apart [OF good ps pages(3) _ a(1)] b(1) no m(2) n(2) mn by simp
    qed
    then show "(case x of (p, a) \<Rightarrow> \<lambda>(q, b). p = q \<longrightarrow> pdf_apart (ft_rect a) (ft_rect b)) y" by (simp add: x y)
  qed (auto simp: field_adds_def)
qed

definition demo_form :: obj where
  "demo_form = [(''pages'', JArr [JObj [(''page_number'', JInt 1), (''pdf_width'', JInt 612)]]),
     (''form_fields'', JArr [demo_field 0, demo_field 20])]"

definition demo_form_world :: world where
  "demo_form_world = \<lparr>fs_exists = (\<lambda>_. True), fs_read = (\<lambda>_. Inr []), fs_resolve = (\<lambda>p. p), json_loads = (\<lambda>_. Inr (JObj demo_form)),
     fs_size = (\<lambda>_. 0), fs_list = (\<lambda>_. []), fs_is_dir = (\<lambda>_. False)\<rparr>"

definition demo_lib :: pdf_lib where
  "demo_lib = \<lparr>pl_pages = (\<lambda>_. Inr [(Fin 612, Fin 792)]), pl_add = (\<lambda>_ _. Inr ()), pl_write = (\<lambda>_. Inr ())\<rparr>"

lemma demo_fill:
  "\<exists>a b lines. fill_pdf_form demo_lib demo_form_world ''in.pdf'' ''fields.json'' ''out.pdf'' = Inr ([(JInt 0, a), (JInt 0, b)], lines)"
proof -
  have fill: "\<exists>a. fill_field demo_lib (JObj demo_form) [(Fin 612, Fin 792)] acc (demo_field y) = Inr (acc @ [(JInt 0, a)])"
    if y: "\<bar>y\<bar> < 1000" for acc y
  proof -
    have "\<bar>y\<bar> \<le> 9007199254740992" "\<bar>y + 20\<bar> \<le> 9007199254740992" using y by arith+
    then have "float_of_int y = Some (Fin (of_int y))" "float_of_int (y + 20) = Some (Fin (of_int (y + 20)))"
      by (simp_all add: float_of_int_exact)
    then show ?thesis
      by (simp add: fill_field_def entry_box_def demo_form_def demo_field_def box_json_def item_def py_eq_ints pdf_dimensions_def
        has_key_def has_entry_text_def make_annotation_def transform_from_pdf_coords_def float_minus_def py_sub_def demo_lib_def numeral_nat)
  qed
  obtain a where "fill_field demo_lib (JObj demo_form) [(Fin 612, Fin 792)] [] (demo_field 0) = Inr [(JInt 0, a)]" using fill [of 0 "[]"] by auto
  moreover obtain b where "fill_field demo_lib (JObj demo_form) [(Fin 612, Fin 792)] [(JInt 0, a)] (demo_field 20) = Inr [(JInt 0, a), (JInt 0, b)]"
    using fill [of 20 "[(JInt 0, a)]"] by auto
  ultimately have "foldm (fill_field demo_lib (JObj demo_form) [(Fin 612, Fin 792)]) [] [demo_field 0, demo_field 20] = Inr [(JInt 0, a), (JInt 0, b)]"
    by simp
  moreover have "subscr (JObj demo_form) ''form_fields'' = Inr (JArr [demo_field 0, demo_field 20])" by (simp add: demo_form_def item_def)
  ultimately show ?thesis by (simp add: fill_pdf_form_def load_document_def demo_form_world_def demo_lib_def)
qed

theorem accepted_annotations_witness:
  "\<exists>a b lines. fill_pdf_form demo_lib demo_form_world ''in.pdf'' ''fields.json'' ''out.pdf'' = Inr ([(JInt 0, a), (JInt 0, b)], lines) \<and>
    pdf_apart (ft_rect a) (ft_rect b)"
proof -
  let ?ms = "[[Txt ''Read '', Txt ''2'', Txt '' fields''], SUCCESS]"
  have ms: "get_bounding_box_messages (JObj demo_form) = Inr ?ms" by code_simp
  have doc: "load_document demo_form_world ''fields.json'' = Inr (JObj demo_form)"
    "map_of demo_form ''form_fields'' = Some (JArr [demo_field 0, demo_field 20])"
    "map_of demo_form ''pages'' = Some (JArr [JObj [(''page_number'', JInt 1), (''pdf_width'', JInt 612)]])"
    by (simp_all add: demo_form_def load_document_def demo_form_world_def)
  have good: "\<forall>f \<in> set [demo_field 0, demo_field 20]. good_field f" by (simp add: demo_field_good)
  have "good_size (Fin 612)" "good_size (Fin 792)" by (simp_all add: good_size_def is_double_def) code_simp+
  then have pages: "good_pages [(Fin 612, Fin 792)] [JObj [(''page_number'', JInt 1), (''pdf_width'', JInt 612)]]"
    by (simp add: good_pages_def item_def)
  have lib: "pl_pages demo_lib ''in.pdf'' = Inr [(Fin 612, Fin 792)]" by (simp add: demo_lib_def)
  obtain a b lines where f: "fill_pdf_form demo_lib demo_form_world ''in.pdf'' ''fields.json'' ''out.pdf'' =
      Inr ([(JInt 0, a), (JInt 0, b)], lines)" using demo_fill by blast
  have "SUCCESS \<in> set ?ms" by simp
  from accepted_annotations_apart [OF doc(1,2) good doc(3) lib pages ms this f] show ?thesis using f by auto
qed

end
