(* ===== verification/PdfFields.thy ===== *)
theory PdfFields
  imports PyOps Host "HOL-Library.Product_Lexorder" "HOL-Library.Multiset"
begin

text \<open>
  The scripts for PDF forms with fillable fields: \<open>check_fillable_fields.py\<close>,
  \<open>extract_form_field_info.py\<close>, which lists the fields with their places, and
  \<open>fill_fillable_fields.py\<close>, which checks given values against that list and fills them in.

  The PDF as pypdf presents it is a parameter: the fields of \<open>get_fields()\<close>, the annotations of each
  page, and the objects that references lead to. A rectangle is a list of the finite numbers that PDF
  has.
\<close>

section \<open>The reader\<close>

text \<open>An annotation or one of its ancestors: \<open>/T\<close>, \<open>/Parent\<close>, \<open>/Rect\<close>, and the keys of \<open>["/AP"]["/N"]\<close>.\<close>

record annot =
  pa_T :: "string option"
  pa_parent :: "nat option"
  pa_rect :: "rat list option"
  pa_AP_N :: "string list option"

record form_field =
  ff_FT :: "string option"
  ff_kids :: bool
  ff_states :: "json option"

record pdf_reader =
  rd_fields :: "(string, form_field) dict option"
  rd_pages :: "nat list list"
  rd_obj :: "nat \<Rightarrow> annot"

definition check_fillable :: "pdf_reader \<Rightarrow> msg" where
  "check_fillable rd = (case rd_fields rd of
       Some (_ # _) \<Rightarrow> [Txt ''This PDF has fillable form fields'']
     | _ \<Rightarrow> [Txt ''This PDF does not have fillable form fields; you will need to visually determine where to enter data''])"

section \<open>The names of annotations\<close>

text \<open>The loop over \<open>/Parent\<close> may go in a circle and then does not end.\<close>

partial_function (option) components_from :: "(nat \<Rightarrow> annot) \<Rightarrow> nat option \<Rightarrow> string list \<Rightarrow> string list option" where
  "components_from deref annotation components = (case annotation of
       None \<Rightarrow> Some components
     | Some n \<Rightarrow> components_from deref (pa_parent (deref n))
         (case pa_T (deref n) of
            Some field_name \<Rightarrow> if field_name \<noteq> [] then components @ [field_name] else components
          | None \<Rightarrow> components))"

declare components_from.simps [code]

definition get_full_annotation_field_id :: "(nat \<Rightarrow> annot) \<Rightarrow> nat \<Rightarrow> string option option" where
  "get_full_annotation_field_id deref n = map_option
     (\<lambda>components. if components \<noteq> [] then Some (joined ''.'' (rev components)) else None) (components_from deref (Some n) [])"

section \<open>Describing a field\<close>

definition choice_option :: "json \<Rightarrow> json res" where
  "choice_option state = bnd (index state 0) (\<lambda>v. bnd (index state 1) (\<lambda>t. Inr (JObj [(''value'', v), (''text'', t)])))"

definition checkbox_values :: "string \<Rightarrow> json \<Rightarrow> obj \<Rightarrow> obj io" where
  "checkbox_values field_id states field_dict = iobnd (lift (py_len states)) (\<lambda>n.
     if n = 2 then
       iobnd (lift (str_in ''/Off'' states)) (\<lambda>off.
       iobnd (lift (index states 0)) (\<lambda>s0.
       if off then
         iobnd (if \<not> py_eq s0 (JStr ''/Off'') then ret s0 else lift (index states 1)) (\<lambda>v.
         ret (AList.update ''unchecked_value'' (JStr ''/Off'') (AList.update ''checked_value'' v field_dict)))
       else
         iobnd (say [Txt ''Unexpected state values for checkbox `$'', Txt field_id, Txt ''`. Its checked and unchecked values may not be correct; if you're trying to check it, visually verify the results.'']) (\<lambda>_.
         iobnd (lift (index states 1)) (\<lambda>s1.
         ret (AList.update ''unchecked_value'' s1 (AList.update ''checked_value'' s0 field_dict))))))
     else ret field_dict)"

definition make_field_dict :: "form_field \<Rightarrow> string \<Rightarrow> obj io" where
  "make_field_dict field field_id =
     (let field_dict = [(''field_id'', JStr field_id)];
          states = (case ff_states field of Some v \<Rightarrow> v | None \<Rightarrow> JArr []) in
      if ff_FT field = Some ''/Tx'' then ret (AList.update ''type'' (JStr ''text'') field_dict)
      else if ff_FT field = Some ''/Btn'' then checkbox_values field_id states (AList.update ''type'' (JStr ''checkbox'') field_dict)
      else if ff_FT field = Some ''/Ch'' then
        iobnd (lift (bnd (iterate states) (mapm choice_option))) (\<lambda>options.
        ret (AList.update ''choice_options'' (JArr options) (AList.update ''type'' (JStr ''choice'') field_dict)))
      else ret (AList.update ''type'' (JStr (''unknown ('' @ (case ff_FT field of Some ft \<Rightarrow> ft | None \<Rightarrow> ''None'') @ '')'')) field_dict))"

section \<open>Listing the fields\<close>

type_synonym infos = "(string, obj) dict"

definition collect_field :: "infos \<times> string list \<Rightarrow> string \<times> form_field \<Rightarrow> (infos \<times> string list) io" where
  "collect_field acc entry = (case (acc, entry) of ((field_info_by_id, possible_radio_names), (field_id, field)) \<Rightarrow>
     if ff_kids field then
       ret (field_info_by_id, if ff_FT field = Some ''/Btn'' then possible_radio_names @ [field_id] else possible_radio_names)
     else iobnd (make_field_dict field field_id) (\<lambda>d. ret (AList.update field_id d field_info_by_id, possible_radio_names)))"

definition rect_json :: "rat list option \<Rightarrow> json" where
  "rect_json r = (case r of None \<Rightarrow> JNull | Some xs \<Rightarrow> JArr (map (\<lambda>x. JFloat (Fin x)) xs))"

definition new_radio :: "string \<Rightarrow> nat \<Rightarrow> obj" where
  "new_radio field_id page_index = [(''field_id'', JStr field_id), (''type'', JStr ''radio_group''),
     (''page'', JInt (int page_index + 1)), (''radio_options'', JArr [])]"

definition add_radio_option :: "json \<Rightarrow> json \<Rightarrow> obj \<Rightarrow> obj" where
  "add_radio_option v rect d = AList.update ''radio_options''
     (JArr ((case dget d ''radio_options'' of JArr xs \<Rightarrow> xs | _ \<Rightarrow> []) @ [JObj [(''value'', v), (''rect'', rect)]])) d"

text \<open>The body of the loop over the annotations, once the name is known.\<close>

definition place_annotation :: "string list \<Rightarrow> nat \<Rightarrow> annot \<Rightarrow> string option \<Rightarrow> infos \<times> infos \<Rightarrow> infos \<times> infos" where
  "place_annotation possible_radio_names page_index ann name acc = (case (acc, name) of
       (_, None) \<Rightarrow> acc
     | ((field_info_by_id, radio_fields_by_id), Some field_id) \<Rightarrow>
         (case map_of field_info_by_id field_id of
            Some info \<Rightarrow> (AList.update field_id (AList.update ''rect'' (rect_json (pa_rect ann))
              (AList.update ''page'' (JInt (int page_index + 1)) info)) field_info_by_id, radio_fields_by_id)
          | None \<Rightarrow>
              if field_id \<notin> set possible_radio_names then acc
              else case pa_AP_N ann of None \<Rightarrow> acc
              | Some keys \<Rightarrow> (case filter (\<lambda>v. v \<noteq> ''/Off'') keys of
                    [v] \<Rightarrow> (field_info_by_id, AList.update field_id (add_radio_option (JStr v) (rect_json (pa_rect ann))
                      (case map_of radio_fields_by_id field_id of Some d \<Rightarrow> d | None \<Rightarrow> new_radio field_id page_index)) radio_fields_by_id)
                  | _ \<Rightarrow> acc)))"

definition scan_annotation :: "pdf_reader \<Rightarrow> string list \<Rightarrow> infos \<times> infos \<Rightarrow> nat \<times> nat \<Rightarrow> (infos \<times> infos) io" where
  "scan_annotation rd possible_radio_names acc entry = (case entry of (page_index, ann) \<Rightarrow>
     (case get_full_annotation_field_id (rd_obj rd) ann of
        None \<Rightarrow> (\<lambda>s. None)
      | Some name \<Rightarrow> ret (place_annotation possible_radio_names page_index (rd_obj rd ann) name acc)))"

definition annotations_of :: "pdf_reader \<Rightarrow> (nat \<times> nat) list" where
  "annotations_of rd = concat (map (\<lambda>(page_index, anns). map (Pair page_index) anns) (enumerate 0 (rd_pages rd)))"

fun located :: "obj list \<Rightarrow> obj list io" where
  "located [] = ret []"
| "located (d # ds) = (if has_key d ''page'' then iobnd (located ds) (\<lambda>es. ret (d # es))
     else iobnd (say [Txt ''Unable to determine location for field id: '', str_frag (dget d ''field_id''), Txt '', ignoring'']) (\<lambda>_. located ds))"

text \<open>The key of a field: its page, then from top to bottom, then from left to right. The numbers that are
  compared come from rectangles, so all of them are finite.\<close>

definition finite_num :: "json \<Rightarrow> rat res" where
  "finite_num v = (case num_val v of None \<Rightarrow> Inl TypeError
     | Some f \<Rightarrow> (case fval f of None \<Rightarrow> Inl TypeError | Some x \<Rightarrow> Inr x))"

definition sort_key_of :: "obj \<Rightarrow> (rat \<times> rat \<times> rat) res" where
  "sort_key_of f = bnd
     (if has_key f ''radio_options'' then
        bnd (bnd (item f ''radio_options'') (\<lambda>os. index os 0)) (\<lambda>o1. subscr o1 ''rect'')
      else Inr (dget f ''rect'')) (\<lambda>r.
     let rect = (if truthy r then r else JArr [JInt 0, JInt 0, JInt 0, JInt 0]) in
     bnd (bnd (index rect 1) finite_num) (\<lambda>y. bnd (bnd (index rect 0) finite_num) (\<lambda>x.
     bnd (finite_num (dget f ''page'')) (\<lambda>page. Inr (page, - y, x)))))"

definition sort_fields :: "obj list \<Rightarrow> obj list res" where
  "sort_fields fs = bnd (mapm sort_key_of fs) (\<lambda>keys. Inr (map snd (sort_key fst (zip keys fs))))"

definition get_field_info :: "pdf_reader \<Rightarrow> obj list io" where
  "get_field_info rd = iobnd (case rd_fields rd of None \<Rightarrow> raise_io AttributeError | Some fds \<Rightarrow> ret fds) (\<lambda>fds.
     iobnd (iofold collect_field ([], []) fds) (\<lambda>(field_info_by_id, possible_radio_names).
     iobnd (iofold (scan_annotation rd possible_radio_names) (field_info_by_id, []) (annotations_of rd)) (\<lambda>(field_info_by_id, radio_fields_by_id).
     iobnd (located (map snd field_info_by_id)) (\<lambda>fields_with_location.
     lift (sort_fields (fields_with_location @ map snd radio_fields_by_id))))))"

definition write_field_info :: "host \<Rightarrow> pdf_reader \<Rightarrow> string \<Rightarrow> unit io" where
  "write_field_info h rd json_output_path = iobnd (get_field_info rd) (\<lambda>field_info.
     iobnd (write_text h (path_of json_output_path) (h_dumps h (JArr (map JObj field_info)))) (\<lambda>_.
     say [Txt ''Wrote '', Txt (str_nat (length field_info)), Txt '' fields to '', Txt json_output_path]))"

definition efi_main :: "host \<Rightarrow> (string \<Rightarrow> pdf_reader res) \<Rightarrow> string list \<Rightarrow> int io" where
  "efi_main h open_pdf argv = (case argv of
       [_, input_pdf, output_json] \<Rightarrow> iobnd (lift (open_pdf input_pdf)) (\<lambda>rd. iobnd (write_field_info h rd output_json) (\<lambda>_. ret 0))
     | _ \<Rightarrow> iobnd (say [Txt ''Usage: extract_form_field_info.py [input pdf] [output json]'']) (\<lambda>_. ret 1))"

section \<open>Filling in values\<close>

text \<open>\<open>v in values\<close> for a list, and a dictionary whose keys are JSON values.\<close>

definition py_in :: "json \<Rightarrow> json list \<Rightarrow> bool" where
  "py_in v values \<longleftrightarrow> (\<exists>w \<in> set values. py_eq v w)"

fun jlookup :: "json \<Rightarrow> (json \<times> 'v) list \<Rightarrow> 'v option" where
  "jlookup k [] = None"
| "jlookup k ((l, v) # d) = (if py_eq k l then Some v else jlookup k d)"

fun jupdate :: "json \<Rightarrow> 'v \<Rightarrow> (json \<times> 'v) list \<Rightarrow> (json \<times> 'v) list" where
  "jupdate k v [] = [(k, v)]"
| "jupdate k v ((l, w) # d) = (if py_eq k l then (l, v) # d else (l, w) # jupdate k v d)"

type_synonym updates = "(json \<times> (json \<times> json) list) list"

definition collect_value :: "updates \<Rightarrow> json \<Rightarrow> updates res" where
  "collect_value fields_by_page field = bnd (str_in ''value'' field) (\<lambda>b.
     if \<not> b then Inr fields_by_page
     else bnd (subscr field ''field_id'') (\<lambda>field_id. bnd (subscr field ''page'') (\<lambda>page.
       if \<not> hashable page then Inl TypeError
       else bnd (subscr field ''value'') (\<lambda>v.
         if \<not> hashable field_id then Inl TypeError
         else Inr (jupdate page (jupdate field_id v (case jlookup page fields_by_page of Some m \<Rightarrow> m | None \<Rightarrow> [])) fields_by_page)))))"

definition option_values :: "obj \<Rightarrow> string \<Rightarrow> json list res" where
  "option_values field_info key = bnd (item field_info key) (\<lambda>os. bnd (iterate os) (mapm (\<lambda>opt. subscr opt ''value'')))"

definition invalid_option :: "string \<Rightarrow> json \<Rightarrow> json \<Rightarrow> json list \<Rightarrow> msg option" where
  \<open>invalid_option kind field_id field_value values = (if py_in field_value values then None
     else Some [Txt ''ERROR: Invalid value "'', str_frag field_value, Txt (''" for '' @ kind @ '' field "''), str_frag field_id,
       Txt ''". Valid values are: '', Rep (JArr values)])\<close>

definition validation_error_for_field_value :: "obj \<Rightarrow> json \<Rightarrow> msg option res" where
  \<open>validation_error_for_field_value field_info field_value =
     bnd (item field_info ''type'') (\<lambda>field_type. bnd (item field_info ''field_id'') (\<lambda>field_id.
     if field_type = JStr ''checkbox'' then
       bnd (item field_info ''checked_value'') (\<lambda>checked_val. bnd (item field_info ''unchecked_value'') (\<lambda>unchecked_val.
       Inr (if \<not> py_eq field_value checked_val \<and> \<not> py_eq field_value unchecked_val then
         Some [Txt ''ERROR: Invalid value "'', str_frag field_value, Txt ''" for checkbox field "'', str_frag field_id,
           Txt ''". The checked value is "'', str_frag checked_val, Txt ''" and the unchecked value is "'', str_frag unchecked_val, Txt ''"'']
         else None)))
     else if field_type = JStr ''radio_group'' then
       bnd (option_values field_info ''radio_options'') (\<lambda>vs. Inr (invalid_option ''radio group'' field_id field_value vs))
     else if field_type = JStr ''choice'' then
       bnd (option_values field_info ''choice_options'') (\<lambda>vs. Inr (invalid_option ''choice'' field_id field_value vs))
     else Inr None))\<close>

text \<open>The check of one given field: the error it prints, if any. \<open>fields_by_ids\<close> is keyed by the field's own
  name; a dictionary from \<open>get_field_info\<close> is never empty.\<close>

definition field_error :: "infos \<Rightarrow> json \<Rightarrow> msg option res" where
  "field_error fields_by_ids field = bnd (subscr field ''field_id'') (\<lambda>field_id.
     if \<not> hashable field_id then Inl TypeError
     else case (case field_id of JStr k \<Rightarrow> map_of fields_by_ids k | _ \<Rightarrow> None) of
       None \<Rightarrow> Inr (Some [Txt ''ERROR: `'', str_frag field_id, Txt ''` is not a valid field ID''])
     | Some existing_field \<Rightarrow> bnd (subscr field ''page'') (\<lambda>page. bnd (item existing_field ''page'') (\<lambda>expected.
         if \<not> py_eq page expected then
           Inr (Some [Txt ''ERROR: Incorrect page number for `'', str_frag field_id, Txt ''` (got '', str_frag page, Txt '', expected '',
             str_frag expected, Txt '')''])
         else bnd (str_in ''value'' field) (\<lambda>b.
           if b then bnd (subscr field ''value'') (validation_error_for_field_value existing_field) else Inr None))))"

definition check_field :: "infos \<Rightarrow> bool \<Rightarrow> json \<Rightarrow> bool io" where
  "check_field fields_by_ids has_error field = iobnd (lift (field_error fields_by_ids field)) (\<lambda>e.
     case e of None \<Rightarrow> ret has_error | Some m \<Rightarrow> iobnd (say m) (\<lambda>_. ret True))"

definition keyed_by_id :: "obj list \<Rightarrow> infos res" where
  "keyed_by_id field_info = foldm (\<lambda>d f. bnd (bnd (item f ''field_id'') as_str) (\<lambda>k. Inr (AList.update k f d))) [] field_info"

text \<open>\<open>writer.pages[page - 1]\<close>, where the writer has the reader's pages: pypdf wants an integer, and counts
  a negative one from the end.\<close>

definition page_of :: "pdf_reader \<Rightarrow> json \<Rightarrow> nat res" where
  "page_of rd page = bnd (py_sub page (JInt 1)) (\<lambda>i. case i of
       JInt k \<Rightarrow> (let n = int (length (rd_pages rd)) in
         if 0 \<le> k \<and> k < n then Inr (nat k) else if - n \<le> k \<and> k < 0 then Inr (nat (n + k)) else Inl IndexError)
     | _ \<Rightarrow> Inl TypeError)"

text \<open>The result is \<open>None\<close> for \<open>sys.exit(1)\<close>, and otherwise the values given to each page. \<open>render\<close> is the text
  that the writer makes of the reader's pages and these values.\<close>

definition fill_pdf_fields ::
    "host \<Rightarrow> (pdf_reader \<Rightarrow> (nat \<times> (json \<times> json) list) list \<Rightarrow> string) \<Rightarrow> pdf_reader res \<Rightarrow> string \<Rightarrow> string \<Rightarrow>
      (nat \<times> (json \<times> json) list) list option io" where
  "fill_pdf_fields h render open_pdf fields_json_path output_pdf_path =
     iobnd (look (\<lambda>w. bnd (fs_read w (path_of fields_json_path)) (json_loads w))) (\<lambda>document.
     iobnd (lift (iterate document)) (\<lambda>fs.
     iobnd (lift (foldm collect_value [] fs)) (\<lambda>fields_by_page.
     iobnd (lift open_pdf) (\<lambda>rd.
     iobnd (get_field_info rd) (\<lambda>field_info.
     iobnd (lift (keyed_by_id field_info)) (\<lambda>fields_by_ids.
     iobnd (iofold (check_field fields_by_ids) False fs) (\<lambda>has_error.
     if has_error then ret None
     else iobnd (lift (mapm (\<lambda>(page, vs). bnd (page_of rd page) (\<lambda>i. Inr (i, vs))) fields_by_page)) (\<lambda>updates.
       iobnd (write_text h (path_of output_pdf_path) (render rd updates)) (\<lambda>_. ret (Some updates))))))))))"

text \<open>The replacement of \<open>DictionaryObject.get_inherited\<close>: what it makes of the original's answer.\<close>

definition patched_get_inherited :: "string \<Rightarrow> json \<Rightarrow> json" where
  "patched_get_inherited key result = (if key = ''/Opt'' then
       (case result of JArr vs \<Rightarrow>
          if list_all (\<lambda>v. case v of JArr [_, _] \<Rightarrow> True | _ \<Rightarrow> False) vs
          then JArr (map (\<lambda>v. case v of JArr (x # _) \<Rightarrow> x | _ \<Rightarrow> v) vs) else result
        | _ \<Rightarrow> result)
     else result)"

definition fff_main ::
    "host \<Rightarrow> (pdf_reader \<Rightarrow> (nat \<times> (json \<times> json) list) list \<Rightarrow> string) \<Rightarrow> (string \<Rightarrow> pdf_reader res) \<Rightarrow> string list \<Rightarrow> int io" where
  "fff_main h render open_pdf argv = (case argv of
       [_, input_pdf, fields_json, output_pdf] \<Rightarrow>
         iobnd (fill_pdf_fields h render (open_pdf input_pdf) fields_json output_pdf) (\<lambda>r. ret (case r of None \<Rightarrow> 1 | Some _ \<Rightarrow> 0))
     | _ \<Rightarrow> iobnd (say [Txt ''Usage: fill_fillable_fields.py [input pdf] [field_values.json] [output pdf]'']) (\<lambda>_. ret 1))"

section \<open>When a name is found\<close>

text \<open>The object that \<open>k\<close> steps along \<open>/Parent\<close> lead to, and the names met on the way.\<close>

fun ancestor :: "(nat \<Rightarrow> annot) \<Rightarrow> nat \<Rightarrow> nat option \<Rightarrow> nat option" where
  "ancestor deref 0 r = r"
| "ancestor deref (Suc k) r = (case r of None \<Rightarrow> None | Some n \<Rightarrow> ancestor deref k (pa_parent (deref n)))"

definition own_name :: "annot \<Rightarrow> string list" where
  "own_name a = (case pa_T a of Some t \<Rightarrow> if t \<noteq> [] then [t] else [] | None \<Rightarrow> [])"

fun names_up :: "(nat \<Rightarrow> annot) \<Rightarrow> nat \<Rightarrow> nat option \<Rightarrow> string list" where
  "names_up deref 0 r = []"
| "names_up deref (Suc k) r = (case r of None \<Rightarrow> [] | Some n \<Rightarrow> own_name (deref n) @ names_up deref k (pa_parent (deref n)))"

lemma components_end:
  "ancestor deref k r = None \<Longrightarrow> components_from deref r cs = Some (cs @ names_up deref k r)"
proof (induction k arbitrary: r cs)
  case 0
  then show ?case by (simp add: components_from.simps)
next
  case (Suc k)
  show ?case
  proof (cases r)
    case None
    then show ?thesis by (simp add: components_from.simps)
  next
    case (Some n)
    then show ?thesis using Suc by (subst components_from.simps) (auto simp: own_name_def split: option.splits)
  qed
qed

lemma components_return:
  assumes "components_from deref r cs = Some res"
  shows "\<exists>k. ancestor deref k r = None"
proof (rule components_from.raw_induct [of "\<lambda>deref r cs res. \<exists>k. ancestor deref k r = None", OF _ assms])
  fix rec deref r cs res
  assume IH: "\<And>deref r cs res. rec deref r cs = Some res \<Longrightarrow> \<exists>k. ancestor deref k r = None"
    and step: "(case r of None \<Rightarrow> Some cs | Some n \<Rightarrow> rec deref (pa_parent (deref n)) (case pa_T (deref n) of
      None \<Rightarrow> cs | Some t \<Rightarrow> if t \<noteq> [] then cs @ [t] else cs)) = Some res"
  show "\<exists>k. ancestor deref k r = None"
  proof (cases r)
    case None
    then have "ancestor deref 0 r = None" by simp
    then show ?thesis by blast
  next
    case (Some n)
    then obtain k where "ancestor deref k (pa_parent (deref n)) = None" using step IH by fastforce
    then have "ancestor deref (Suc k) r = None" using Some by simp
    then show ?thesis by blast
  qed
qed

text \<open>C25. The full name of an annotation is computed exactly when the chain of its parents ends: then it is
  the names on the chain from the outermost object down to the annotation, joined by full stops, with
  absent and empty names left out. When the parents form a circle, the loop never ends.\<close>

theorem annotation_name_correct:
  "(get_full_annotation_field_id deref n = None \<longleftrightarrow> (\<forall>k. ancestor deref k (Some n) \<noteq> None)) \<and>
   (\<forall>k. ancestor deref k (Some n) = None \<longrightarrow> get_full_annotation_field_id deref n =
     Some (let names = names_up deref k (Some n) in if names = [] then None else Some (joined ''.'' (rev names))))"
proof -
  have "get_full_annotation_field_id deref n = None \<longleftrightarrow> components_from deref (Some n) [] = None"
    by (simp add: get_full_annotation_field_id_def)
  moreover have "components_from deref (Some n) [] = None \<longleftrightarrow> (\<forall>k. ancestor deref k (Some n) \<noteq> None)"
    using components_end [of deref _ "Some n" "[]"] components_return [of deref "Some n" "[]"] by fastforce
  moreover have "get_full_annotation_field_id deref n =
      Some (let names = names_up deref k (Some n) in if names = [] then None else Some (joined ''.'' (rev names)))"
    if "ancestor deref k (Some n) = None" for k
    using components_end [OF that, of "[]"] by (simp add: get_full_annotation_field_id_def Let_def)
  ultimately show ?thesis by (simp only: simp_thms) (intro allI impI, simp only:)
qed

definition demo_objects :: "nat \<Rightarrow> annot" where
  "demo_objects n = (if n = 0 then \<lparr>pa_T = Some ''form'', pa_parent = None, pa_rect = None, pa_AP_N = None\<rparr>
     else if n = 1 then \<lparr>pa_T = Some ''name'', pa_parent = Some 0, pa_rect = Some [10, 20, 30, 40], pa_AP_N = None\<rparr>
     else \<lparr>pa_T = Some ''loop'', pa_parent = Some 2, pa_rect = None, pa_AP_N = None\<rparr>)"

theorem annotation_name_witness:
  "get_full_annotation_field_id demo_objects 1 = Some (Some ''form.name'') \<and> get_full_annotation_field_id demo_objects 2 = None"
proof -
  have "ancestor demo_objects 2 (Some 1) = None" "names_up demo_objects 2 (Some 1) = [''name'', ''form'']"
    by (simp_all add: demo_objects_def own_name_def numeral_2_eq_2)
  then have "get_full_annotation_field_id demo_objects 1 = Some (Some ''form.name'')"
    using annotation_name_correct [THEN conjunct2, rule_format, of demo_objects 2 1] by simp
  moreover have "ancestor demo_objects k (Some 2) \<noteq> None" for k by (induction k) (simp_all add: demo_objects_def)
  ultimately show ?thesis using annotation_name_correct [of demo_objects 2] by blast
qed

section \<open>What the list of fields holds\<close>

lemma iofold_invariant:
  assumes "iofold f a xs s = Some (Inr b, t)" "P a"
    and "\<And>x a b s t. x \<in> set xs \<Longrightarrow> P a \<Longrightarrow> f a x s = Some (Inr b, t) \<Longrightarrow> P b"
  shows "P b"
  using assms
proof (induction xs arbitrary: a s)
  case (Cons x xs)
  then obtain c u where c: "f a x s = Some (Inr c, u)" "iofold f c xs u = Some (Inr b, t)" by (auto simp: iobnd_iff)
  have "P c" by (rule Cons.prems(3) [OF _ Cons.prems(2) c(1)]) simp
  then show ?case by (rule Cons.IH [OF c(2)]) (meson Cons.prems(3) list.set_intros(2))
qed (simp add: ret_def)

text \<open>The annotation \<open>ann\<close> of page \<open>p\<close>, counted from 0, bears the name \<open>k\<close>.\<close>

definition named_at :: "pdf_reader \<Rightarrow> string \<Rightarrow> nat \<Rightarrow> bool" where
  "named_at rd k p \<longleftrightarrow> p < length (rd_pages rd) \<and>
     (\<exists>ann \<in> set (rd_pages rd ! p). get_full_annotation_field_id (rd_obj rd) ann = Some (Some k))"

definition entry_ok :: "pdf_reader \<Rightarrow> string \<Rightarrow> obj \<Rightarrow> bool" where
  "entry_ok rd k d \<longleftrightarrow> map_of d ''field_id'' = Some (JStr k) \<and>
     (\<forall>v. map_of d ''page'' = Some v \<longrightarrow> (\<exists>p. v = JInt (int p + 1) \<and> named_at rd k p))"

definition table_ok :: "pdf_reader \<Rightarrow> infos \<Rightarrow> bool" where
  "table_ok rd t \<longleftrightarrow> distinct (map fst t) \<and> (\<forall>k d. map_of t k = Some d \<longrightarrow> entry_ok rd k d)"

lemma table_ok_update: "table_ok rd t \<Longrightarrow> entry_ok rd k d \<Longrightarrow> table_ok rd (AList.update k d t)"
  by (auto simp: table_ok_def distinct_update)

lemma dom_update: "fst ` set (AList.update k d t) = insert k (fst ` set t)"
  by (induction t) auto

lemma make_field_dict_entry:
  assumes "make_field_dict field k s = Some (Inr d, t)"
  shows "entry_ok rd k d"
  using assms unfolding make_field_dict_def checkbox_values_def entry_ok_def Let_def
  by (auto simp: io_iff split: if_splits)

lemma collect_fields:
  assumes "iofold collect_field ([], []) fds s = Some (Inr (infos, radios), t)" "distinct (map fst fds)"
  shows "table_ok rd infos" "fst ` set infos \<inter> set radios = {}"
proof -
  have "table_ok rd (fst b) \<and> fst ` set (fst b) \<inter> set (snd b) = {} \<and> fst ` set (fst b) \<union> set (snd b) \<subseteq> fst ` set fds \<union> A"
    if "iofold collect_field a fds s = Some (Inr b, t)" "distinct (map fst fds)" "table_ok rd (fst a)"
      "fst ` set (fst a) \<inter> set (snd a) = {}" "fst ` set (fst a) \<union> set (snd a) \<subseteq> A" "fst ` set fds \<inter> A = {}" for a b fds s A
    using that
  proof (induction fds arbitrary: a s A)
    case (Cons x fds)
    obtain k fd where x: "x = (k, fd)" by (cases x)
    obtain infs rs where a: "a = (infs, rs)" by (cases a)
    from Cons.prems(1) obtain c u where c: "collect_field a x s = Some (Inr c, u)" "iofold collect_field c fds u = Some (Inr b, t)"
      by (auto simp: iobnd_iff)
    have k: "k \<notin> fst ` set infs" "k \<notin> set rs" using Cons.prems(5,6) x a by auto
    have "table_ok rd (fst c) \<and> fst ` set (fst c) \<inter> set (snd c) = {} \<and> fst ` set (fst c) \<union> set (snd c) \<subseteq> insert k A"
    proof (cases "ff_kids fd")
      case True
      then have "fst c = infs" "set (snd c) \<subseteq> insert k (set rs)" using c(1) a x by (auto simp: collect_field_def ret_def split: if_splits)
      then show ?thesis using Cons.prems(3,4,5) k a by auto
    next
      case False
      then obtain d v where "make_field_dict fd k s = Some (Inr d, v)" "c = (AList.update k d infs, rs)"
        using c(1) a x by (auto simp: collect_field_def io_iff)
      then show ?thesis using make_field_dict_entry table_ok_update Cons.prems(3,4,5) k a by (auto simp: dom_update)
    qed
    moreover have "fst ` set fds \<inter> insert k A = {}" using Cons.prems(2,6) x by auto
    ultimately show ?case using Cons.IH [OF c(2), of "insert k A"] Cons.prems(2) x by auto
  qed (auto simp: ret_def)
  from this [OF assms, of "{}"] show "table_ok rd infos" "fst ` set infos \<inter> set radios = {}" by (auto simp: table_ok_def)
qed

lemma annotations_of_named:
  assumes "(p, ann) \<in> set (annotations_of rd)" "get_full_annotation_field_id (rd_obj rd) ann = Some (Some k)"
  shows "named_at rd k p"
  using assms by (auto simp: annotations_of_def named_at_def in_set_enumerate_eq)

text \<open>The tables of the second loop: the names with a place and the radio groups.\<close>

definition tables_ok :: "pdf_reader \<Rightarrow> string set \<Rightarrow> string set \<Rightarrow> infos \<times> infos \<Rightarrow> bool" where
  "tables_ok rd K R ts \<longleftrightarrow> table_ok rd (fst ts) \<and> table_ok rd (snd ts) \<and> fst ` set (fst ts) \<subseteq> K \<and> fst ` set (snd ts) \<subseteq> R \<and>
     (\<forall>k d. map_of (snd ts) k = Some d \<longrightarrow> has_key d ''page'')"

lemma place_annotation_ok:
  assumes ok: "tables_ok rd K (set radios) ts" and name: "\<forall>k. name = Some k \<longrightarrow> named_at rd k p"
  shows "tables_ok rd K (set radios) (place_annotation radios p ann name ts)"
proof (cases name)
  case None
  then show ?thesis using ok by (simp add: place_annotation_def split: prod.splits)
next
  case (Some k)
  then have at: "named_at rd k p" using name by simp
  obtain infos rads where ts: "ts = (infos, rads)" by (cases ts)
  show ?thesis
  proof (cases "map_of infos k")
    case (Some info)
    then have "entry_ok rd k info" "k \<in> K" using ok ts by (auto simp: tables_ok_def table_ok_def dest: map_of_SomeD)
    then have "entry_ok rd k (AList.update ''rect'' (rect_json (pa_rect ann)) (AList.update ''page'' (JInt (int p + 1)) info))"
      using at by (auto simp: entry_ok_def)
    then show ?thesis using ok ts Some \<open>name = Some k\<close> \<open>k \<in> K\<close>
      by (auto simp: tables_ok_def place_annotation_def dom_update intro!: table_ok_update)
  next
    case None
    define d where "d = (case map_of rads k of Some d \<Rightarrow> d | None \<Rightarrow> new_radio k p)"
    have d: "entry_ok rd k d" "has_key d ''page''"
      using ok ts at by (auto simp: d_def tables_ok_def table_ok_def entry_ok_def new_radio_def has_key_def split: option.splits)
    then have e: "entry_ok rd k (add_radio_option v r d)" "has_key (add_radio_option v r d) ''page''" for v r
      by (auto simp: entry_ok_def add_radio_option_def has_key_def)
    consider "place_annotation radios p ann name ts = ts"
      | v where "k \<in> set radios" "place_annotation radios p ann name ts =
          (infos, AList.update k (add_radio_option (JStr v) (rect_json (pa_rect ann)) d) rads)"
    proof (cases "\<exists>keys v. k \<in> set radios \<and> pa_AP_N ann = Some keys \<and> filter (\<lambda>v. v \<noteq> ''/Off'') keys = [v]")
      case True
      then show thesis using that(2) None \<open>name = Some k\<close> ts by (auto simp: place_annotation_def d_def)
    next
      case False
      then have "place_annotation radios p ann name ts = ts" using None \<open>name = Some k\<close> ts
        by (auto simp: place_annotation_def split: option.split list.split)
      then show thesis by (rule that(1))
    qed
    then show ?thesis
      by cases (use ok ts e in \<open>auto simp: tables_ok_def dom_update intro!: table_ok_update\<close>)
  qed
qed

lemma scan_annotations:
  assumes "iofold (scan_annotation rd radios) ts (annotations_of rd) s = Some (Inr us, t)" "tables_ok rd K (set radios) ts"
  shows "tables_ok rd K (set radios) us"
  using assms
proof (rule iofold_invariant)
  fix x a b s t
  assume x: "x \<in> set (annotations_of rd)" "tables_ok rd K (set radios) a" "scan_annotation rd radios a x s = Some (Inr b, t)"
  obtain p ann where pa: "x = (p, ann)" by (cases x)
  from x(3) obtain name where n: "get_full_annotation_field_id (rd_obj rd) ann = Some name"
    "b = place_annotation radios p (rd_obj rd ann) name a"
    by (auto simp: scan_annotation_def pa ret_def split: option.splits)
  have "\<forall>k. name = Some k \<longrightarrow> named_at rd k p" using annotations_of_named x(1) pa n(1) by blast
  from place_annotation_ok [OF x(2) this] show "tables_ok rd K (set radios) b" by (simp add: n(2))
qed

lemma located_filter: "located ds s = Some (Inr es, t) \<Longrightarrow> es = filter (\<lambda>d. has_key d ''page'') ds"
  by (induction ds arbitrary: es s) (auto simp: io_iff split: if_splits)

lemma sort_fields_sorted:
  assumes "sort_fields fs = Inr gs"
  shows "mset gs = mset fs" "\<exists>keys. map sort_key_of gs = map Inr keys \<and> sorted keys"
proof -
  obtain keys where keys: "list_all2 (\<lambda>f k. sort_key_of f = Inr k) fs keys" "gs = map snd (sort_key fst (zip keys fs))"
    using assms by (auto simp: sort_fields_def bnd_Inr_iff mapm_Inr_iff)
  have "length keys = length fs" using keys(1) by (simp add: list_all2_lengthD)
  then show "mset gs = mset fs" by (metis keys(2) map_snd_zip mset_map mset_sort)
  have "sort_key_of (snd z) = Inr (fst z)" if "z \<in> set (sort_key fst (zip keys fs))" for z
    using that keys(1) unfolding list_all2_conv_all_nth by (auto simp: set_zip)
  then have "map sort_key_of gs = map Inr (map fst (sort_key fst (zip keys fs)))" by (simp add: keys(2))
  then show "\<exists>keys. map sort_key_of gs = map Inr keys \<and> sorted keys" using sorted_sort_key by blast
qed

lemma table_field_ids:
  assumes "table_ok rd t"
  shows "map (\<lambda>d. dget d ''field_id'') (map snd t) = map JStr (map fst t)"
    "d \<in> snd ` set t \<Longrightarrow> \<exists>k. entry_ok rd k d"
proof -
  have e: "entry_ok rd k d" if "(k, d) \<in> set t" for k d
    using that assms by (auto simp: table_ok_def)
  then show "map (\<lambda>d. dget d ''field_id'') (map snd t) = map JStr (map fst t)" by (auto simp: entry_ok_def dest!: e)
  show "d \<in> snd ` set t \<Longrightarrow> \<exists>k. entry_ok rd k d" using e by fastforce
qed

text \<open>C20. The list of fields, when it is returned: every field once, with a name and the page of an annotation
  of that name, ordered by page, then from top to bottom, then from left to right. Assumed of pypdf: the
  fields of \<open>get_fields()\<close> are a dictionary.\<close>

theorem field_info_sound:
  assumes fields: "rd_fields rd = Some fds" "distinct (map fst fds)" and run: "get_field_info rd s = Some (Inr infos, t)"
  shows "distinct (map (\<lambda>d. dget d ''field_id'') infos) \<and>
    (\<exists>keys. map sort_key_of infos = map Inr keys \<and> sorted keys) \<and>
    (\<forall>d \<in> set infos. \<exists>k p. dget d ''field_id'' = JStr k \<and> dget d ''page'' = JInt (int p + 1) \<and> named_at rd k p)"
proof -
  obtain i0 radios u where c: "iofold collect_field ([], []) fds s = Some (Inr (i0, radios), u)"
    and rest: "iobnd (iofold (scan_annotation rd radios) (i0, []) (annotations_of rd)) (\<lambda>(i1, r1). iobnd (located (map snd i1)) (\<lambda>l.
      lift (sort_fields (l @ map snd r1)))) u = Some (Inr infos, t)"
    using run fields(1) by (auto simp: get_field_info_def io_iff)
  obtain i1 r1 v where sc: "iofold (scan_annotation rd radios) (i0, []) (annotations_of rd) u = Some (Inr (i1, r1), v)"
    and l: "iobnd (located (map snd i1)) (\<lambda>l. lift (sort_fields (l @ map snd r1))) v = Some (Inr infos, t)"
    using rest by (auto simp: iobnd_iff)
  let ?l = "filter (\<lambda>d. has_key d ''page'') (map snd i1)"
  have sorted: "sort_fields (?l @ map snd r1) = Inr infos" using l located_filter by (auto simp: io_iff)
  have c0: "table_ok rd i0" "fst ` set i0 \<inter> set radios = {}" by (rule collect_fields [OF c fields(2)])+
  have "tables_ok rd (fst ` set i0) (set radios) (i1, r1)"
    by (rule scan_annotations [OF sc]) (use c0 in \<open>auto simp: tables_ok_def table_ok_def\<close>)
  then have ok: "table_ok rd i1" "table_ok rd r1" "\<forall>d \<in> snd ` set r1. has_key d ''page''"
      and keys: "fst ` set i1 \<subseteq> fst ` set i0" "fst ` set r1 \<subseteq> set radios"
    by (auto simp: tables_ok_def table_ok_def)
  have disj: "fst ` set i1 \<inter> fst ` set r1 = {}" using keys c0(2) by blast
  have m: "mset infos = mset (?l @ map snd r1)" by (rule sort_fields_sorted(1) [OF sorted])
  have "distinct (map fst i1 @ map fst r1)" using ok(1,2) disj by (simp add: table_ok_def)
  then have "distinct (map JStr (map fst i1 @ map fst r1))" unfolding distinct_map [of JStr] by (simp add: inj_on_def)
  then have "distinct (map (\<lambda>d. dget d ''field_id'') (map snd i1 @ map snd r1))"
    unfolding map_append table_field_ids(1) [OF ok(1)] table_field_ids(1) [OF ok(2)] .
  then have "distinct (map (\<lambda>d. dget d ''field_id'') (?l @ map snd r1))"
    unfolding map_append distinct_append by (auto intro: distinct_map_filter simp del: map_map)
  moreover have e: "mset (map (\<lambda>d. dget d ''field_id'') infos) = mset (map (\<lambda>d. dget d ''field_id'') (?l @ map snd r1))"
    unfolding mset_map by (rule arg_cong [OF m])
  ultimately have "distinct (map (\<lambda>d. dget d ''field_id'') infos)" unfolding mset_eq_imp_distinct_iff [OF e] by blast
  moreover have "\<exists>k p. dget d ''field_id'' = JStr k \<and> dget d ''page'' = JInt (int p + 1) \<and> named_at rd k p" if d: "d \<in> set infos" for d
  proof -
    have "d \<in> set (?l @ map snd r1)" using d mset_eq_setD [OF m] by simp
    then have "d \<in> snd ` set i1 \<or> d \<in> snd ` set r1" and page: "has_key d ''page''" using ok(3) by auto
    then obtain k where "entry_ok rd k d" using table_field_ids(2) [OF ok(1)] table_field_ids(2) [OF ok(2)] by blast
    then show ?thesis using page by (auto simp: entry_ok_def has_key_def)
  qed
  ultimately show ?thesis using sort_fields_sorted(2) [OF sorted] by blast
qed

definition demo_reader :: pdf_reader where
  "demo_reader = \<lparr>rd_fields = Some [(''form.name'', \<lparr>ff_FT = Some ''/Tx'', ff_kids = False, ff_states = None\<rparr>)],
     rd_pages = [[], [1]], rd_obj = demo_objects\<rparr>"

definition demo_info :: obj where
  "demo_info = [(''field_id'', JStr ''form.name''), (''type'', JStr ''text''), (''page'', JInt 2),
     (''rect'', JArr (map (\<lambda>x. JFloat (Fin x)) [10, 20, 30, 40]))]"

lemma demo_info_found: "get_field_info demo_reader s = Some (Inr [demo_info], s)"
proof -
  have "ancestor demo_objects 2 (Some 1) = None" "names_up demo_objects 2 (Some 1) = [''name'', ''form'']"
    by (simp_all add: demo_objects_def own_name_def numeral_2_eq_2)
  then have name: "get_full_annotation_field_id demo_objects 1 = Some (Some ''form.name'')"
    using components_end [of demo_objects 2 "Some 1" "[]"] by (simp add: get_full_annotation_field_id_def)
  have r: "rect_json (pa_rect (demo_objects 1)) = JArr (map (\<lambda>x. JFloat (Fin x)) [10, 20, 30, 40])"
    by (simp add: demo_objects_def rect_json_def)
  have c: "iofold collect_field ([], []) [(''form.name'', \<lparr>ff_FT = Some ''/Tx'', ff_kids = False, ff_states = None\<rparr>)] s =
      Some (Inr ([(''form.name'', [(''field_id'', JStr ''form.name''), (''type'', JStr ''text'')])], []), s)"
    by (simp add: collect_field_def make_field_dict_def iobnd_def ret_def Let_def)
  have a: "annotations_of demo_reader = [(1, 1)]" by (simp add: annotations_of_def demo_reader_def)
  have sc: "iofold (scan_annotation demo_reader []) ([(''form.name'', [(''field_id'', JStr ''form.name''), (''type'', JStr ''text'')])], []) [(1, 1)] s =
      Some (Inr ([(''form.name'', demo_info)], []), s)"
    using name r by (simp add: scan_annotation_def place_annotation_def demo_reader_def iobnd_def ret_def demo_info_def)
  have "sort_key_of demo_info = Inr (2, - 20, 10)"
    by (simp add: sort_key_of_def demo_info_def has_key_def finite_num_def Let_def)
  then have "sort_fields [demo_info] = Inr [demo_info]" by (simp add: sort_fields_def)
  moreover have "located [demo_info] s = Some (Inr [demo_info], s)" by (simp add: demo_info_def has_key_def iobnd_def ret_def)
  ultimately show ?thesis using c sc a
    by (simp add: get_field_info_def iobnd_def ret_def lift_def demo_reader_def)
qed

theorem field_info_sound_witness:
  "\<forall>s. get_field_info demo_reader s = Some (Inr [demo_info], s) \<and> dget demo_info ''page'' = JInt 2 \<and> named_at demo_reader ''form.name'' 1"
proof
  fix s
  have "dget demo_info ''field_id'' = JStr ''form.name''" "dget demo_info ''page'' = JInt 2" by (simp_all add: demo_info_def)
  then show "get_field_info demo_reader s = Some (Inr [demo_info], s) \<and> dget demo_info ''page'' = JInt 2 \<and> named_at demo_reader ''form.name'' 1"
    using field_info_sound [OF _ _ demo_info_found [of s]] demo_info_found [of s] by (auto simp: demo_reader_def)
qed

section \<open>What the filler accepts\<close>

definition option_json_values :: "json \<Rightarrow> json set" where
  "option_json_values os = {v. \<exists>xs d. os = JArr xs \<and> JObj d \<in> set xs \<and> map_of d ''value'' = Some v}"

text \<open>A value fits a described field: one of the two values of a checkbox, one of the options of a radio group or
  a choice; the values of other fields are free.\<close>

definition value_fits :: "obj \<Rightarrow> json \<Rightarrow> bool" where
  "value_fits d v =
     (if dget d ''type'' = JStr ''checkbox'' then py_eq v (dget d ''checked_value'') \<or> py_eq v (dget d ''unchecked_value'')
      else if dget d ''type'' = JStr ''radio_group'' then \<exists>w \<in> option_json_values (dget d ''radio_options''). py_eq v w
      else if dget d ''type'' = JStr ''choice'' then \<exists>w \<in> option_json_values (dget d ''choice_options''). py_eq v w
      else True)"

lemma option_values_set:
  assumes "option_values d key = Inr vs"
  shows "py_in v vs \<longleftrightarrow> (\<exists>w \<in> option_json_values (dget d key). py_eq v w)"
proof -
  obtain os xs where os: "map_of d key = Some os" "iterate os = Inr xs" "list_all2 (\<lambda>x v. subscr x ''value'' = Inr v) xs vs"
    using assms by (auto simp: option_values_def res_iff mapm_Inr_iff)
  have "vs = [] \<or> os = JArr xs"
  proof (cases os)
    case (JStr t)
    then show ?thesis using os(2,3) by (cases t) (auto simp: list_all2_Cons1)
  next
    case (JObj t)
    then show ?thesis using os(2,3) by (cases t) (auto simp: list_all2_Cons1)
  qed (use os(2) in auto)
  moreover have "w \<in> set vs \<longleftrightarrow> (\<exists>x \<in> set xs. subscr x ''value'' = Inr w)" for w
    using os(3) by (induction rule: list_all2_induct) auto
  ultimately have "set vs = option_json_values os"
    using os(2) by (cases os) (auto simp: option_json_values_def subscr_Inr_iff)
  then show ?thesis using os(1) by (simp add: py_in_def)
qed

lemma validation_None_iff:
  assumes "validation_error_for_field_value d v = Inr e"
  shows "e = None \<longleftrightarrow> value_fits d v"
proof -
  obtain ty i where d: "map_of d ''type'' = Some ty" "map_of d ''field_id'' = Some i"
    using assms unfolding validation_error_for_field_value_def by (auto simp: bnd_Inr_iff item_Inr_iff)
  then have i: "item d ''type'' = Inr ty" "item d ''field_id'' = Inr i" "dget d ''type'' = ty" by (simp_all add: item_def)
  have opt: "invalid_option kind i v vs = None \<longleftrightarrow> py_in v vs" for kind vs by (simp add: invalid_option_def)
  consider "ty = JStr ''checkbox''" | "ty = JStr ''radio_group''" | "ty = JStr ''choice''"
    | "ty \<noteq> JStr ''checkbox''" "ty \<noteq> JStr ''radio_group''" "ty \<noteq> JStr ''choice''" by blast
  then show ?thesis
  proof cases
    case 1
    then obtain c u where cu: "item d ''checked_value'' = Inr c" "item d ''unchecked_value'' = Inr u"
      using assms i unfolding validation_error_for_field_value_def by (auto simp: bnd_Inr_iff)
    then have "dget d ''checked_value'' = c" "dget d ''unchecked_value'' = u" by (simp_all add: item_Inr_iff)
    then show ?thesis using assms i cu 1 unfolding validation_error_for_field_value_def value_fits_def by (auto split: if_splits)
  next
    case 2
    then obtain vs where "option_values d ''radio_options'' = Inr vs" "e = invalid_option ''radio group'' i v vs"
      using assms i unfolding validation_error_for_field_value_def by (auto simp: bnd_Inr_iff)
    then show ?thesis using i 2 opt option_values_set by (simp add: value_fits_def)
  next
    case 3
    then obtain vs where "option_values d ''choice_options'' = Inr vs" "e = invalid_option ''choice'' i v vs"
      using assms i unfolding validation_error_for_field_value_def by (auto simp: bnd_Inr_iff)
    then show ?thesis using i 3 opt option_values_set by (simp add: value_fits_def)
  next
    case 4
    then show ?thesis using assms i unfolding validation_error_for_field_value_def value_fits_def by simp
  qed
qed

definition accepted_field :: "infos \<Rightarrow> json \<Rightarrow> bool" where
  "accepted_field fields_by_ids f \<longleftrightarrow> (\<exists>fd k d p. f = JObj fd \<and> map_of fd ''field_id'' = Some (JStr k) \<and> map_of fields_by_ids k = Some d \<and>
     map_of fd ''page'' = Some p \<and> py_eq p (dget d ''page'') \<and> (\<forall>v. map_of fd ''value'' = Some v \<longrightarrow> value_fits d v))"

lemma field_error_iff:
  assumes "field_error fields_by_ids f = Inr e"
  shows "e = None \<longleftrightarrow> accepted_field fields_by_ids f"
proof -
  obtain fd i where f: "f = JObj fd" "map_of fd ''field_id'' = Some i" "hashable i"
    using assms by (auto simp: field_error_def res_iff split: if_splits)
  show ?thesis
  proof (cases "\<exists>k d. i = JStr k \<and> map_of fields_by_ids k = Some d")
    case False
    then show ?thesis using assms f by (auto simp: field_error_def item_def accepted_field_def split: json.splits option.splits)
  next
    case True
    then obtain k d where k: "i = JStr k" "map_of fields_by_ids k = Some d" by blast
    obtain p q where p: "map_of fd ''page'' = Some p" "map_of d ''page'' = Some q"
      using assms f k by (auto simp: field_error_def item_def[of fd "''field_id''"] res_iff)
    show ?thesis
    proof (cases "py_eq p q \<and> has_key fd ''value''")
      case True
      then obtain v where "map_of fd ''value'' = Some v" by (auto simp: has_key_def)
      then show ?thesis using assms f k p True validation_None_iff [of d v e]
        by (simp add: field_error_def item_def accepted_field_def)
    next
      case False
      then show ?thesis using assms f k p by (auto simp: field_error_def item_def accepted_field_def has_key_def split: if_splits)
    qed
  qed
qed

lemma check_fields:
  "iofold (check_field ids) e fs s = Some (Inr b, t) \<Longrightarrow>
    (\<forall>f \<in> set fs. \<exists>r. field_error ids f = Inr r) \<and> (b \<longleftrightarrow> e \<or> (\<exists>f \<in> set fs. \<not> accepted_field ids f)) \<and> events t = events s"
proof (induction fs arbitrary: e s)
  case (Cons f fs)
  then obtain c u where c: "check_field ids e f s = Some (Inr c, u)" "iofold (check_field ids) c fs u = Some (Inr b, t)"
    by (auto simp: iobnd_iff)
  obtain r where r: "field_error ids f = Inr r" using c(1) by (auto simp: check_field_def io_iff)
  have "c \<longleftrightarrow> e \<or> r \<noteq> None" "events u = events s"
    using c(1) r by (auto simp: check_field_def io_iff split: option.splits)
  then show ?case using Cons.IH [OF c(2)] r field_error_iff [OF r] by auto
qed (simp add: ret_def)

lemma checkbox_events: "checkbox_values k st d s = Some (r, t) \<Longrightarrow> events t = events s"
  unfolding checkbox_values_def
  by (auto simp: iobnd_def lift_def ret_def say_def split: if_splits sum.splits option.splits)

lemma collect_events: "collect_field a x s = Some (r, t) \<Longrightarrow> events t = events s"
  unfolding collect_field_def make_field_dict_def Let_def
  by (auto simp: iobnd_def lift_def ret_def split: if_splits sum.splits option.splits prod.splits dest: checkbox_events)

lemma located_events: "located ds s = Some (r, t) \<Longrightarrow> events t = events s"
proof (induction ds arbitrary: s r t)
  case (Cons d ds)
  show ?case
  proof (cases "has_key d ''page''")
    case True
    then have "iobnd (located ds) (\<lambda>es. ret (d # es)) s = Some (r, t)" using Cons.prems by simp
    then show ?thesis by (cases rule: iobnd_cases) (auto simp: ret_def dest: Cons.IH)
  next
    case False
    then have "located ds (s\<lparr>out_log := out_log s @ [[Txt ''Unable to determine location for field id: '',
        str_frag (dget d ''field_id''), Txt '', ignoring'']]\<rparr>) = Some (r, t)"
      using Cons.prems by (simp add: iobnd_def say_def)
    from Cons.IH [OF this] show ?thesis by simp
  qed
qed (simp add: ret_def)

lemma get_field_info_events:
  assumes "get_field_info rd s = Some (Inr infos, t)"
  shows "events t = events s"
proof -
  obtain fds i0 radios u where c: "iofold collect_field ([], []) fds s = Some (Inr (i0, radios), u)"
    and rest: "iobnd (iofold (scan_annotation rd radios) (i0, []) (annotations_of rd)) (\<lambda>(i1, r1). iobnd (located (map snd i1)) (\<lambda>l.
      lift (sort_fields (l @ map snd r1)))) u = Some (Inr infos, t)"
    using assms by (auto simp: get_field_info_def io_iff split: option.splits)
  obtain i1 r1 v where sc: "iofold (scan_annotation rd radios) (i0, []) (annotations_of rd) u = Some (Inr (i1, r1), v)"
    and l: "iobnd (located (map snd i1)) (\<lambda>l. lift (sort_fields (l @ map snd r1))) v = Some (Inr infos, t)"
    using rest by (auto simp: iobnd_iff)
  have "events u = events s"
    using iofold_keeps [OF c, of "\<lambda>u. events u = events s"] collect_events by fastforce
  moreover have "events v = events u"
    by (rule iofold_keeps [OF sc, of "\<lambda>v. events v = events u"])
      (auto simp: scan_annotation_def ret_def split: option.splits prod.splits)
  moreover have "events t = events v" using l located_events by (auto simp: io_iff)
  ultimately show ?thesis by simp
qed

lemma page_of_bound:
  assumes "page_of rd page = Inr i"
  shows "i < length (rd_pages rd)"
proof -
  obtain j where j: "py_sub page (JInt 1) = Inr j" using assms by (auto simp: page_of_def bnd_Inr_iff)
  show ?thesis using assms by (cases j) (auto simp: page_of_def j Let_def split: if_splits)
qed

text \<open>C19. The filler writes a PDF exactly when every given field names a described field, agrees with its page and has
  a value that fits; otherwise it exits with status 1 and has written nothing. What it writes goes to
  pages that the PDF has.\<close>

theorem fill_writes_iff_accepted:
  assumes "fill_pdf_fields h render (Inr rd) fields_json output s = Some (Inr r, t)"
  shows "\<exists>document fs infos ids u. bnd (fs_read (files s) (path_of fields_json)) (json_loads (files s)) = Inr document \<and>
    iterate document = Inr fs \<and> get_field_info rd s = Some (Inr infos, u) \<and> keyed_by_id infos = Inr ids \<and>
    (r = None \<longleftrightarrow> (\<exists>f \<in> set fs. \<not> accepted_field ids f)) \<and>
    events t = events s @ (if r = None then [] else [Write (path_of output)]) \<and>
    (\<forall>updates. r = Some updates \<longrightarrow> (\<forall>(i, values) \<in> set updates. i < length (rd_pages rd)))"
proof -
  let ?finish = "\<lambda>by_page has_error. if has_error then ret None
     else iobnd (lift (mapm (\<lambda>(page, vs). bnd (page_of rd page) (\<lambda>i. Inr (i, vs))) by_page)) (\<lambda>updates.
       iobnd (write_text h (path_of output) (render rd updates)) (\<lambda>_. ret (Some updates)))"
  obtain document fs by_page infos ids u has_error v where
      d: "bnd (fs_read (files s) (path_of fields_json)) (json_loads (files s)) = Inr document" "iterate document = Inr fs"
    and g: "get_field_info rd s = Some (Inr infos, u)" "keyed_by_id infos = Inr ids"
    and ch: "iofold (check_field ids) False fs u = Some (Inr has_error, v)"
    and fin: "?finish by_page has_error v = Some (Inr r, t)"
    using assms unfolding fill_pdf_fields_def by (auto simp: io_iff)
  have e: "events v = events s" "has_error \<longleftrightarrow> (\<exists>f \<in> set fs. \<not> accepted_field ids f)"
    using check_fields [OF ch] get_field_info_events [OF g(1)] by auto
  have "(r = None \<longleftrightarrow> has_error) \<and> events t = events s @ (if r = None then [] else [Write (path_of output)]) \<and>
      (\<forall>updates. r = Some updates \<longrightarrow> (\<forall>(i, values) \<in> set updates. i < length (rd_pages rd)))"
  proof (cases has_error)
    case True
    then show ?thesis using fin e(1) by (auto simp: ret_def)
  next
    case False
    then obtain updates where up: "mapm (\<lambda>(page, vs). bnd (page_of rd page) (\<lambda>i. Inr (i, vs))) by_page = Inr updates"
      and w: "write_text h (path_of output) (render rd updates) v = Some (Inr (), t)" and r: "r = Some updates"
      using fin by (auto simp: io_iff)
    have "events t = events v @ [Write (path_of output)]"
      using w by (auto simp: write_text_def write_with_def split: option.splits)
    moreover have "i < length (rd_pages rd)" if iv: "(i, vs) \<in> set updates" for i vs
    proof -
      obtain page where "page_of rd page = Inr i"
        using iv up unfolding mapm_Inr_iff list_all2_conv_all_nth in_set_conv_nth by (fastforce simp: bnd_Inr_iff split: prod.splits)
      then show ?thesis by (rule page_of_bound)
    qed
    ultimately show ?thesis using False r e(1) by auto
  qed
  then show ?thesis using d g e(2) by blast
qed

definition demo_entry :: "string \<Rightarrow> json" where
  "demo_entry k = JObj [(''field_id'', JStr k), (''page'', JInt 2), (''value'', JStr ''Simpson'')]"

definition demo_values :: "string \<Rightarrow> mach" where
  "demo_values k = demo_mach\<lparr>files := demo_world\<lparr>json_loads := (\<lambda>_. Inr (JArr [demo_entry k]))\<rparr>\<rparr>"

lemma demo_fill_runs:
  "\<exists>t. fill_pdf_fields demo_host (\<lambda>_ _. []) (Inr demo_reader) ''v.json'' ''o.pdf'' (demo_values ''form.name'') =
     Some (Inr (Some [(1, [(JStr ''form.name'', JStr ''Simpson'')])]), t)"
  "\<exists>t. fill_pdf_fields demo_host (\<lambda>_ _. []) (Inr demo_reader) ''v.json'' ''o.pdf'' (demo_values ''x'') = Some (Inr None, t)"
proof -
  have ids: "keyed_by_id [demo_info] = Inr [(''form.name'', demo_info)]" by (simp add: keyed_by_id_def demo_info_def item_def)
  have val: "foldm collect_value [] [demo_entry k] = Inr [(JInt 2, [(JStr k, JStr ''Simpson'')])]" for k
    by (simp add: collect_value_def demo_entry_def item_def has_key_def)
  have pg: "page_of demo_reader (JInt 2) = Inr 1" by (simp add: page_of_def py_sub_def demo_reader_def Let_def)
  have doc: "bnd (fs_read (files (demo_values k)) (path_of ''v.json'')) (json_loads (files (demo_values k))) = Inr (JArr [demo_entry k])" for k
    by (simp add: demo_values_def demo_world_def)
  have yes: "field_error [(''form.name'', demo_info)] (demo_entry ''form.name'') = Inr None"
    by (simp add: field_error_def demo_entry_def demo_info_def item_def has_key_def py_eq_JInt validation_error_for_field_value_def)
  obtain m where no: "field_error [(''form.name'', demo_info)] (demo_entry ''x'') = Inr (Some m)"
    by (simp add: field_error_def demo_entry_def item_def)
  show "\<exists>t. fill_pdf_fields demo_host (\<lambda>_ _. []) (Inr demo_reader) ''v.json'' ''o.pdf'' (demo_values ''form.name'') =
     Some (Inr (Some [(1, [(JStr ''form.name'', JStr ''Simpson'')])]), t)"
    using val [of "''form.name''"] yes doc [of "''form.name''"]
    by (simp add: fill_pdf_fields_def iobnd_def look_def lift_def ret_def check_field_def demo_info_found ids pg write_text_def write_with_def del: foldm.simps)
  show "\<exists>t. fill_pdf_fields demo_host (\<lambda>_ _. []) (Inr demo_reader) ''v.json'' ''o.pdf'' (demo_values ''x'') = Some (Inr None, t)"
    using val [of "''x''"] no doc [of "''x''"]
    by (simp add: fill_pdf_fields_def iobnd_def look_def lift_def ret_def say_def check_field_def demo_info_found ids del: foldm.simps)
qed

theorem fill_writes_iff_accepted_witness:
  "(\<exists>t. fill_pdf_fields demo_host (\<lambda>_ _. []) (Inr demo_reader) ''v.json'' ''o.pdf'' (demo_values ''form.name'') =
      Some (Inr (Some [(1, [(JStr ''form.name'', JStr ''Simpson'')])]), t) \<and> events t = [Write (path_of ''o.pdf'')]) \<and>
   (\<exists>t. fill_pdf_fields demo_host (\<lambda>_ _. []) (Inr demo_reader) ''v.json'' ''o.pdf'' (demo_values ''x'') = Some (Inr None, t) \<and> events t = [])"
proof -
  have z: "events (demo_values k) = []" for k by (simp add: demo_values_def demo_mach_def)
  obtain t where t: "fill_pdf_fields demo_host (\<lambda>_ _. []) (Inr demo_reader) ''v.json'' ''o.pdf'' (demo_values ''form.name'') =
      Some (Inr (Some [(1, [(JStr ''form.name'', JStr ''Simpson'')])]), t)" using demo_fill_runs(1) by blast
  have "events t = [Write (path_of ''o.pdf'')]" using fill_writes_iff_accepted [OF t] by (auto simp: z)
  moreover obtain u where u: "fill_pdf_fields demo_host (\<lambda>_ _. []) (Inr demo_reader) ''v.json'' ''o.pdf'' (demo_values ''x'') = Some (Inr None, u)"
    using demo_fill_runs(2) by blast
  moreover have "events u = []" using fill_writes_iff_accepted [OF u] by (auto simp: z)
  ultimately show ?thesis using t by blast
qed

section \<open>Choices given as plain strings\<close>

lemma plain_options:
  "\<forall>t \<in> set ts. 2 \<le> length t \<Longrightarrow> mapm choice_option (map JStr ts) =
     Inr (map (\<lambda>t. JObj [(''value'', JStr [t ! 0]), (''text'', JStr [t ! 1])]) ts)"
  by (induction ts) (auto simp: choice_option_def)

lemma plain_values:
  "mapm (\<lambda>opt. subscr opt ''value'') (map (\<lambda>t. JObj [(''value'', JStr [t ! 0]), (''text'', JStr [t ! 1])]) ts) = Inr (map (\<lambda>t. JStr [t ! 0]) ts)"
  by (induction ts) (auto simp: item_def)



end
