(* ===== verification/PdfPages.thy ===== *)
theory PdfPages
  imports PyOps Host
begin

text \<open>
  \<open>extract_form_structure.py\<close>, which lists the words, horizontal lines, checkboxes and rows of a form,
  and \<open>convert_pdf_to_images.py\<close>, which scales page images down. What pdfplumber finds on a page and what
  pdf2image renders are parameters; coordinates are the floats that \<open>float(...)\<close> makes of pdfplumber's
  numbers.
\<close>

section \<open>The structure of a form\<close>

record plumber_word =
  w_text :: string
  w_x0 :: pyfloat
  w_top :: pyfloat
  w_x1 :: pyfloat
  w_bottom :: pyfloat

record plumber_line =
  l_x0 :: pyfloat
  l_x1 :: pyfloat
  l_top :: pyfloat

record plumber_rect =
  r_x0 :: pyfloat
  r_top :: pyfloat
  r_x1 :: pyfloat
  r_bottom :: pyfloat

record plumber_page =
  pg_width :: pyfloat
  pg_height :: pyfloat
  pg_words :: "plumber_word list"
  pg_lines :: "plumber_line list"
  pg_rects :: "plumber_rect list"

text \<open>\<open>round(x, 1)\<close> and \<open>abs(x)\<close>.\<close>

fun round1 :: "pyfloat \<Rightarrow> pyfloat" where
  "round1 (Fin x) = (if x < 0 then fneg (round_double (of_int (round_half_even (- x * 10)) / 10))
     else round_double (of_int (round_half_even (x * 10)) / 10))"
| "round1 f = f"

fun fabs :: "pyfloat \<Rightarrow> pyfloat" where
  "fabs (Fin x) = Fin \<bar>x\<bar>"
| "fabs NegZero = Fin 0"
| "fabs NInf = PInf"
| "fabs f = f"

record page_entry =
  pe_page :: nat
  pe_width :: pyfloat
  pe_height :: pyfloat

record label_entry =
  le_page :: nat
  le_text :: string
  le_x0 :: pyfloat
  le_top :: pyfloat
  le_x1 :: pyfloat
  le_bottom :: pyfloat

record line_entry =
  ln_page :: nat
  ln_y :: pyfloat
  ln_x0 :: pyfloat
  ln_x1 :: pyfloat

record checkbox_entry =
  cb_page :: nat
  cb_x0 :: pyfloat
  cb_top :: pyfloat
  cb_x1 :: pyfloat
  cb_bottom :: pyfloat
  cb_center_x :: pyfloat
  cb_center_y :: pyfloat

record row_entry =
  row_page :: nat
  row_top :: pyfloat
  row_bottom :: pyfloat
  row_height :: pyfloat

record form_structure =
  st_pages :: "page_entry list"
  st_labels :: "label_entry list"
  st_lines :: "line_entry list"
  st_checkboxes :: "checkbox_entry list"
  st_row_boundaries :: "row_entry list"

definition word_label :: "nat \<Rightarrow> plumber_word \<Rightarrow> label_entry" where
  "word_label page_num word = \<lparr>le_page = page_num, le_text = w_text word, le_x0 = round1 (w_x0 word), le_top = round1 (w_top word),
     le_x1 = round1 (w_x1 word), le_bottom = round1 (w_bottom word)\<rparr>"

definition is_row_line :: "plumber_page \<Rightarrow> plumber_line \<Rightarrow> bool" where
  "is_row_line page line \<longleftrightarrow> flt (fmul (pg_width page) (Fin (1 / 2))) (fabs (fsub (l_x1 line) (l_x0 line)))"

definition line_of :: "nat \<Rightarrow> plumber_line \<Rightarrow> line_entry" where
  "line_of page_num line = \<lparr>ln_page = page_num, ln_y = round1 (l_top line), ln_x0 = round1 (l_x0 line), ln_x1 = round1 (l_x1 line)\<rparr>"

definition is_checkbox :: "plumber_rect \<Rightarrow> bool" where
  "is_checkbox rect \<longleftrightarrow> (let width = fsub (r_x1 rect) (r_x0 rect); height = fsub (r_bottom rect) (r_top rect) in
     fle (Fin 5) width \<and> fle width (Fin 15) \<and> fle (Fin 5) height \<and> fle height (Fin 15) \<and> flt (fabs (fsub width height)) (Fin 2))"

definition checkbox_of :: "nat \<Rightarrow> plumber_rect \<Rightarrow> checkbox_entry" where
  "checkbox_of page_num rect = \<lparr>cb_page = page_num, cb_x0 = round1 (r_x0 rect), cb_top = round1 (r_top rect), cb_x1 = round1 (r_x1 rect),
     cb_bottom = round1 (r_bottom rect), cb_center_x = round1 (fdiv (fadd (r_x0 rect) (r_x1 rect)) (Fin 2)),
     cb_center_y = round1 (fdiv (fadd (r_top rect) (r_bottom rect)) (Fin 2))\<rparr>"

definition add_page :: "form_structure \<Rightarrow> nat \<times> plumber_page \<Rightarrow> form_structure" where
  "add_page st entry = (case entry of (page_num, page) \<Rightarrow> st
     \<lparr>st_pages := st_pages st @ [\<lparr>pe_page = page_num, pe_width = pg_width page, pe_height = pg_height page\<rparr>],
      st_labels := st_labels st @ map (word_label page_num) (pg_words page),
      st_lines := st_lines st @ map (line_of page_num) (filter (is_row_line page) (pg_lines page)),
      st_checkboxes := st_checkboxes st @ map (checkbox_of page_num) (filter is_checkbox (pg_rects page))\<rparr>)"

definition lines_by_page :: "line_entry list \<Rightarrow> (nat, pyfloat list) dict" where
  "lines_by_page ls = foldl (\<lambda>d line. AList.update (ln_page line)
     ((case map_of d (ln_page line) of Some ys \<Rightarrow> ys | None \<Rightarrow> []) @ [ln_y line]) d) [] ls"

text \<open>\<open>sorted(set(ys))\<close>: of equal numbers the first stays.\<close>

fun insert_y :: "pyfloat \<Rightarrow> pyfloat list \<Rightarrow> pyfloat list" where
  "insert_y y [] = [y]"
| "insert_y y (z # zs) = (if feq y z then z # zs else if flt y z then y # z # zs else z # insert_y y zs)"

definition sorted_set :: "pyfloat list \<Rightarrow> pyfloat list" where
  "sorted_set ys = foldl (\<lambda>zs y. insert_y y zs) [] ys"

definition page_rows :: "nat \<Rightarrow> pyfloat list \<Rightarrow> row_entry list" where
  "page_rows page ys = (let y_coords = sorted_set ys in
     map (\<lambda>i. \<lparr>row_page = page, row_top = y_coords ! i, row_bottom = y_coords ! (i + 1),
       row_height = round1 (fsub (y_coords ! (i + 1)) (y_coords ! i))\<rparr>) [0..<length y_coords - 1])"

definition extract_form_structure :: "plumber_page list \<Rightarrow> form_structure" where
  "extract_form_structure pages = (let st = foldl add_page
       \<lparr>st_pages = [], st_labels = [], st_lines = [], st_checkboxes = [], st_row_boundaries = []\<rparr> (enumerate 1 pages) in
     st\<lparr>st_row_boundaries := concat (map (\<lambda>(page, ys). page_rows page ys) (lines_by_page (st_lines st)))\<rparr>)"

text \<open>The script: \<open>dumps\<close> is \<open>json.dump\<close>'s text of the structure.\<close>

definition efs_main :: "host \<Rightarrow> (string \<Rightarrow> plumber_page list res) \<Rightarrow> (form_structure \<Rightarrow> string) \<Rightarrow> string list \<Rightarrow> int io" where
  "efs_main h open_pdf dumps argv = (case argv of
       [_, pdf_path, output_path] \<Rightarrow>
         iobnd (say [Txt ''Extracting structure from '', Txt pdf_path, Txt ''...'']) (\<lambda>_.
         iobnd (lift (open_pdf pdf_path)) (\<lambda>pages. let st = extract_form_structure pages in
         iobnd (write_text h (path_of output_path) (dumps st)) (\<lambda>_.
         iobnd (ioeach say [[Txt ''Found:''],
           [Txt ''  - '', Txt (str_nat (length (st_pages st))), Txt '' pages''],
           [Txt ''  - '', Txt (str_nat (length (st_labels st))), Txt '' text labels''],
           [Txt ''  - '', Txt (str_nat (length (st_lines st))), Txt '' horizontal lines''],
           [Txt ''  - '', Txt (str_nat (length (st_checkboxes st))), Txt '' checkboxes''],
           [Txt ''  - '', Txt (str_nat (length (st_row_boundaries st))), Txt '' row boundaries''],
           [Txt ''Saved to '', Txt output_path]]) (\<lambda>_. ret 0))))
     | _ \<Rightarrow> iobnd (say [Txt ''Usage: extract_form_structure.py <input.pdf> <output.json>'']) (\<lambda>_. ret 1))"

section \<open>Page images\<close>

text \<open>\<open>a / b\<close> of positive integers is the quotient correctly rounded; \<open>n * f\<close> converts the integer first.\<close>

definition scale_factor :: "int \<Rightarrow> int \<Rightarrow> int \<Rightarrow> pyfloat" where
  "scale_factor max_dim width height = (let a = round_double (of_int max_dim / of_int width); b = round_double (of_int max_dim / of_int height) in
     if flt b a then b else a)"

definition scaled :: "int \<Rightarrow> pyfloat \<Rightarrow> int res" where
  "scaled n f = bnd (num_float (JInt n)) (\<lambda>a. py_int (JFloat (fmul a f)))"

definition image_size :: "int \<Rightarrow> int \<times> int \<Rightarrow> (int \<times> int) res" where
  "image_size max_dim wh = (case wh of (width, height) \<Rightarrow>
     if max_dim < width \<or> max_dim < height then
       (if width = 0 \<or> height = 0 then Inl ZeroDivisionError
        else let f = scale_factor max_dim width height in
          bnd (scaled width f) (\<lambda>new_width. bnd (scaled height f) (\<lambda>new_height. Inr (new_width, new_height))))
     else Inr wh)"

text \<open>The images come as their sizes; \<open>save\<close> is what resizing to a size and saving under a name answers. The
  result lists the files with their sizes, and the lines printed.\<close>

definition os_path_join :: "string \<Rightarrow> string \<Rightarrow> string" where
  "os_path_join d name = (if d = [] \<or> last d = CHR ''/'' then d @ name else d @ ''/'' @ name)"

definition convert_page ::
    "(string \<Rightarrow> int \<times> int \<Rightarrow> unit res) \<Rightarrow> string \<Rightarrow> int \<Rightarrow> nat \<times> int \<times> int \<Rightarrow> ((string \<times> int \<times> int) \<times> msg) res" where
  "convert_page save output_dir max_dim entry = (case entry of (i, wh) \<Rightarrow>
     bnd (image_size max_dim wh) (\<lambda>(width, height).
     let image_path = os_path_join output_dir (''page_'' @ str_nat (i + 1) @ ''.png'') in
     bnd (save image_path (width, height)) (\<lambda>_.
     Inr ((image_path, width, height), [Txt ''Saved page '', Txt (str_nat (i + 1)), Txt '' as '', Txt image_path, Txt '' (size: ('',
       Txt (str_int width), Txt '', '', Txt (str_int height), Txt ''))'']))))"

definition convert ::
    "(string \<Rightarrow> int \<times> int \<Rightarrow> unit res) \<Rightarrow> (int \<times> int) list res \<Rightarrow> string \<Rightarrow> int \<Rightarrow> ((string \<times> int \<times> int) list \<times> msg list) res" where
  "convert save images output_dir max_dim = bnd images (\<lambda>sizes.
     bnd (mapm (convert_page save output_dir max_dim) (enumerate 0 sizes)) (\<lambda>saved.
     Inr (map fst saved, map snd saved @ [[Txt ''Converted '', Txt (str_nat (length sizes)), Txt '' pages to PNG images'']])))"

definition cpi_main ::
    "(string \<Rightarrow> int \<times> int \<Rightarrow> unit res) \<Rightarrow> (string \<Rightarrow> (int \<times> int) list res) \<Rightarrow> string list \<Rightarrow> (int \<times> (string \<times> int \<times> int) list \<times> msg list) res" where
  "cpi_main save convert_from_path argv = (case argv of
       [_, pdf_path, output_directory] \<Rightarrow> bnd (convert save (convert_from_path pdf_path) output_directory 1000) (\<lambda>(saved, ms). Inr (0, saved, ms))
     | _ \<Rightarrow> Inr (1, [], [[Txt ''Usage: convert_pdf_to_images.py [input pdf] [output directory]'']]))"

section \<open>The rows of a page\<close>

text \<open>For finite numbers, \<open>sorted_set\<close> lists the values once each, in ascending order.\<close>

definition all_finite :: "pyfloat list \<Rightarrow> bool" where
  "all_finite ys \<longleftrightarrow> (\<forall>y \<in> set ys. fval y \<noteq> None)"

definition values_of :: "pyfloat list \<Rightarrow> rat set" where
  "values_of ys = {x. \<exists>y \<in> set ys. fval y = Some x}"

lemma finite_cmp:
  assumes "fval y = Some a" "fval z = Some b"
  shows "flt y z \<longleftrightarrow> a < b" "feq y z \<longleftrightarrow> a = b"
  using assms by (cases y; cases z; auto)+

lemma insert_y_sorted:
  assumes "all_finite zs" "fval y = Some a" "sorted_wrt flt zs"
  shows "sorted_wrt flt (insert_y y zs)" "all_finite (insert_y y zs)" "values_of (insert_y y zs) = insert a (values_of zs)"
proof -
  have "sorted_wrt flt (insert_y y zs) \<and> all_finite (insert_y y zs) \<and> values_of (insert_y y zs) = insert a (values_of zs)"
    using assms
  proof (induction zs)
    case Nil
    then show ?case by (auto simp: all_finite_def values_of_def)
  next
    case (Cons z zs)
    obtain b where b: "fval z = Some b" using Cons.prems(1) by (auto simp: all_finite_def)
    have IH: "sorted_wrt flt (insert_y y zs)" "all_finite (insert_y y zs)" "values_of (insert_y y zs) = insert a (values_of zs)"
      using Cons by (auto simp: all_finite_def)
    consider "a = b" | "a < b" | "b < a" by linarith
    then show ?case
    proof cases
      case 1
      then show ?thesis using Cons.prems b finite_cmp [OF Cons.prems(2) b] by (auto simp: values_of_def all_finite_def)
    next
      case 2
      have "flt y w" if w: "w \<in> set zs" for w
      proof -
        obtain c where c: "fval w = Some c" using w Cons.prems(1) by (auto simp: all_finite_def)
        have "b < c" using Cons.prems(3) w finite_cmp(1) [OF b c] by auto
        then show ?thesis using 2 finite_cmp(1) [OF Cons.prems(2) c] by simp
      qed
      then show ?thesis using 2 Cons.prems b finite_cmp [OF Cons.prems(2) b] by (auto simp: values_of_def all_finite_def)
    next
      case 3
      have "flt z w" if w: "w \<in> set (insert_y y zs)" for w
      proof -
        obtain c where c: "fval w = Some c" using w IH(2) by (auto simp: all_finite_def)
        then have "c \<in> insert a (values_of zs)" using w IH(3) by (auto simp: values_of_def)
        moreover have "b < x" if "x \<in> values_of zs" for x
          using that Cons.prems(3) finite_cmp(1) [OF b] by (auto simp: values_of_def)
        ultimately show ?thesis using 3 finite_cmp(1) [OF b c] by auto
      qed
      moreover have "values_of (z # insert_y y zs) = insert b (values_of (insert_y y zs))" "values_of (z # zs) = insert b (values_of zs)"
        using b by (auto simp: values_of_def)
      ultimately show ?thesis using 3 IH b finite_cmp [OF Cons.prems(2) b] by (auto simp: all_finite_def)
    qed
  qed
  then show "sorted_wrt flt (insert_y y zs)" "all_finite (insert_y y zs)" "values_of (insert_y y zs) = insert a (values_of zs)"
    by blast+
qed

lemma sorted_set_sorted:
  assumes "all_finite ys"
  shows "sorted_wrt flt (sorted_set ys)" "all_finite (sorted_set ys)" "values_of (sorted_set ys) = values_of ys"
proof -
  have "sorted_wrt flt (foldl (\<lambda>zs y. insert_y y zs) acc ys) \<and> all_finite (foldl (\<lambda>zs y. insert_y y zs) acc ys) \<and>
      values_of (foldl (\<lambda>zs y. insert_y y zs) acc ys) = values_of acc \<union> values_of ys"
    if "sorted_wrt flt acc" "all_finite acc" for acc
    using that assms
  proof (induction ys arbitrary: acc)
    case (Cons y ys)
    obtain a where a: "fval y = Some a" using Cons.prems(3) by (auto simp: all_finite_def)
    have "values_of (y # ys) = insert a (values_of ys)" using a by (auto simp: values_of_def)
    then show ?case using Cons.IH [of "insert_y y acc"] Cons.prems insert_y_sorted [OF Cons.prems(2) a Cons.prems(1)]
      by (auto simp: all_finite_def)
  qed (simp add: values_of_def)
  from this [of "[]"] show "sorted_wrt flt (sorted_set ys)" "all_finite (sorted_set ys)" "values_of (sorted_set ys) = values_of ys"
    by (simp_all add: sorted_set_def all_finite_def values_of_def)
qed

lemma lines_by_page_snoc:
  "lines_by_page (ls @ [l]) = AList.update (ln_page l) ((case map_of (lines_by_page ls) (ln_page l) of Some ys \<Rightarrow> ys | None \<Rightarrow> []) @ [ln_y l])
     (lines_by_page ls)"
  by (simp add: lines_by_page_def)

lemma lines_by_page_map:
  "distinct (map fst (lines_by_page ls))"
  "map_of (lines_by_page ls) p = (let ys = map ln_y (filter (\<lambda>l. ln_page l = p) ls) in if ys = [] then None else Some ys)"
proof -
  show "distinct (map fst (lines_by_page ls))"
    by (induction ls rule: rev_induct) (simp_all add: lines_by_page_snoc distinct_update, simp add: lines_by_page_def)
  show "map_of (lines_by_page ls) p = (let ys = map ln_y (filter (\<lambda>l. ln_page l = p) ls) in if ys = [] then None else Some ys)"
  proof (induction ls arbitrary: p rule: rev_induct)
    case Nil
    then show ?case by (simp add: lines_by_page_def)
  next
    case (snoc l ls)
    then show ?case by (auto simp: lines_by_page_snoc Let_def)
  qed
qed

lemma sorted_neighbours:
  assumes "sorted_wrt flt zs" "all_finite zs" "Suc i < length zs"
    and y: "y \<in> values_of zs" "fval (zs ! i) = Some a" "fval (zs ! Suc i) = Some b"
  shows "\<not> (a < y \<and> y < b)" "a < b"
proof -
  have lt: "c < d" if "j < k" "k < length zs" "fval (zs ! j) = Some c" "fval (zs ! k) = Some d" for j k c d
    using sorted_wrt_nth_less [OF assms(1) that(1,2)] finite_cmp(1) [OF that(3,4)] by simp
  show "a < b" by (rule lt [OF _ assms(3) y(2,3)]) simp
  obtain j where j: "j < length zs" "fval (zs ! j) = Some y" using y(1) by (auto simp: values_of_def in_set_conv_nth)
  consider "j < i" | "j = i" | "j = Suc i" | "Suc i < j" by linarith
  then show "\<not> (a < y \<and> y < b)"
  proof cases
    case 1
    from lt [OF 1 _ j(2) y(2)] assms(3) show ?thesis by simp
  next
    case 4
    from lt [OF 4 j(1) y(3) j(2)] show ?thesis by simp
  qed (use j(2) y(2,3) in auto)
qed

text \<open>C26. The rows of a form lie between neighbouring horizontal lines: the top and the bottom of a row are lines of
  its page, the top is above the bottom, and no line of the page is between them.\<close>

theorem row_boundaries_between_lines:
  assumes st: "st = extract_form_structure pages" and fin: "\<forall>l \<in> set (st_lines st). fval (ln_y l) \<noteq> None"
    and r: "r \<in> set (st_row_boundaries st)"
  shows "\<exists>a b. fval (row_top r) = Some a \<and> fval (row_bottom r) = Some b \<and> a < b \<and>
    {a, b} \<subseteq> values_of (map ln_y (filter (\<lambda>l. ln_page l = row_page r) (st_lines st))) \<and>
    (\<forall>l \<in> set (st_lines st). \<forall>y. ln_page l = row_page r \<and> fval (ln_y l) = Some y \<longrightarrow> \<not> (a < y \<and> y < b))"
proof -
  have "st_row_boundaries st = concat (map (\<lambda>(page, ys). page_rows page ys) (lines_by_page (st_lines st)))"
    by (simp add: st extract_form_structure_def Let_def)
  then obtain page ys where py: "(page, ys) \<in> set (lines_by_page (st_lines st))" "r \<in> set (page_rows page ys)" using r by auto
  then have "map_of (lines_by_page (st_lines st)) page = Some ys" using lines_by_page_map(1) by simp
  then have ys: "ys = map ln_y (filter (\<lambda>l. ln_page l = page) (st_lines st))"
    by (auto simp: lines_by_page_map(2) Let_def split: if_splits)
  then have f: "all_finite ys" using fin by (auto simp: all_finite_def)
  let ?zs = "sorted_set ys"
  obtain i where i0: "i < length ?zs - 1" and r: "row_page r = page" "row_top r = ?zs ! i" "row_bottom r = ?zs ! Suc i"
    using py(2) by (auto simp: page_rows_def Let_def)
  have i: "Suc i < length ?zs" using i0 by simp
  note zs = sorted_set_sorted [OF f]
  obtain a b where ab: "fval (?zs ! i) = Some a" "fval (?zs ! Suc i) = Some b"
    using zs(2) i by (metis Suc_lessD all_finite_def nth_mem option.exhaust)
  have "a \<in> values_of ys" "b \<in> values_of ys"
    using ab i nth_mem [of i ?zs] nth_mem [of "Suc i" ?zs] unfolding zs(3) [symmetric] by (auto simp: values_of_def)
  moreover have "\<not> (a < y \<and> y < b)" if "l \<in> set (st_lines st)" "ln_page l = page" "fval (ln_y l) = Some y" for l y
  proof -
    have "y \<in> values_of ?zs" unfolding zs(3) using that by (auto simp: values_of_def ys)
    then show ?thesis by (rule sorted_neighbours(1) [OF zs(1,2) i _ ab])
  qed
  moreover have "a < b"
    by (rule sorted_neighbours(2) [OF zs(1,2) i _ ab]) (use \<open>a \<in> values_of ys\<close> in \<open>simp only: zs(3)\<close>)
  ultimately show ?thesis using ab r ys by auto
qed

definition demo_page :: plumber_page where
  "demo_page = \<lparr>pg_width = Fin 100, pg_height = Fin 200, pg_words = [],
     pg_lines = [\<lparr>l_x0 = Fin 0, l_x1 = Fin 90, l_top = Fin 20\<rparr>, \<lparr>l_x0 = Fin 0, l_x1 = Fin 90, l_top = Fin 10\<rparr>,
       \<lparr>l_x0 = Fin 0, l_x1 = Fin 9, l_top = Fin 15\<rparr>], pg_rects = []\<rparr>"

lemma demo_structure:
  "st_lines (extract_form_structure [demo_page]) = [\<lparr>ln_page = 1, ln_y = Fin 20, ln_x0 = Fin 0, ln_x1 = Fin 90\<rparr>,
     \<lparr>ln_page = 1, ln_y = Fin 10, ln_x0 = Fin 0, ln_x1 = Fin 90\<rparr>]"
  "st_row_boundaries (extract_form_structure [demo_page]) = [\<lparr>row_page = 1, row_top = Fin 10, row_bottom = Fin 20, row_height = Fin 10\<rparr>]"
proof -
  have rd: "round_double (of_int n) = Fin (of_int n)" if "\<bar>n\<bar> \<le> 2 ^ 53" for n
    using that by (intro round_double_exact representable_int)
  have ints: "round_double 0 = Fin 0" "round_double 10 = Fin 10" "round_double 20 = Fin 20" "round_double 50 = Fin 50" "round_double 90 = Fin 90"
    using rd [of 0] rd [of 10] rd [of 20] rd [of 50] rd [of 90] by simp_all
  have rh: "round_half_even 0 = 0" "round_half_even 100 = 100" "round_half_even 200 = 200" "round_half_even 900 = 900"
    using round_half_even_of_int [of 0] round_half_even_of_int [of 100] round_half_even_of_int [of 200] round_half_even_of_int [of 900] by simp_all
  show l: "st_lines (extract_form_structure [demo_page]) = [\<lparr>ln_page = 1, ln_y = Fin 20, ln_x0 = Fin 0, ln_x1 = Fin 90\<rparr>,
     \<lparr>ln_page = 1, ln_y = Fin 10, ln_x0 = Fin 0, ln_x1 = Fin 90\<rparr>]"
    by (simp add: extract_form_structure_def add_page_def demo_page_def is_row_line_def line_of_def fmul_def fsub_def ints rh Let_def)
  have "st_row_boundaries (extract_form_structure [demo_page]) = concat (map (\<lambda>(page, ys). page_rows page ys)
      (lines_by_page (st_lines (extract_form_structure [demo_page]))))" by (simp add: extract_form_structure_def Let_def)
  then show "st_row_boundaries (extract_form_structure [demo_page]) = [\<lparr>row_page = 1, row_top = Fin 10, row_bottom = Fin 20, row_height = Fin 10\<rparr>]"
    by (simp add: l lines_by_page_def page_rows_def sorted_set_def fsub_def ints rh)
qed

theorem row_boundaries_witness:
  "st_row_boundaries (extract_form_structure [demo_page]) = [\<lparr>row_page = 1, row_top = Fin 10, row_bottom = Fin 20, row_height = Fin 10\<rparr>] \<and>
   (\<exists>a b. fval (Fin 10) = Some a \<and> fval (Fin 20) = Some b \<and> a < b)"
proof -
  have "\<forall>l \<in> set (st_lines (extract_form_structure [demo_page])). fval (ln_y l) \<noteq> None" by (simp add: demo_structure)
  from row_boundaries_between_lines [OF refl this, of "\<lparr>row_page = 1, row_top = Fin 10, row_bottom = Fin 20, row_height = Fin 10\<rparr>"]
  show ?thesis by (auto simp: demo_structure)
qed

section \<open>The size of page images\<close>

lemma round_mag_error: "\<bar>round_mag x - x\<bar> \<le> pow2 (ulp_exp x) / 2"
proof -
  define p where "p = pow2 (ulp_exp x)"
  define m :: rat where "m = of_int (round_half_even (x / p))"
  have p: "0 < p" by (simp add: p_def)
  then have "round_mag x - x = (m - x / p) * p" by (simp add: round_mag_def p_def [symmetric] m_def left_diff_distrib)
  then have "\<bar>round_mag x - x\<bar> = \<bar>m - x / p\<bar> * p" using p by (simp add: abs_mult)
  also have "\<dots> \<le> 1 / 2 * p" using p round_half_even_error [of "x / p"] by (intro mult_right_mono) (simp_all add: m_def)
  finally show ?thesis by (simp add: p_def)
qed

text \<open>A quotient of a normal size is rounded up by at most one part in \<open>2\<^sup>53\<close>.\<close>

lemma round_quotient:
  assumes q: "pow2 (- 1000) \<le> q" "q < pow2 1000"
  obtains s where "round_double q = Fin s" "0 \<le> s" "s \<le> q * (1 + pow2 (- 53))"
proof -
  have pos: "0 < q" using q(1) pow2_pos [of "- 1000"] by linarith
  have "- 1000 \<le> ilog2 q" using q(1) ilog2_bounds(2) [OF pos] pow2_less_iff [of "- 1000" "ilog2 q + 1"] by linarith
  then have u: "ulp_exp q = ilog2 q - 52" by (simp add: ulp_exp_def)
  have "pow2 (ulp_exp q) / 2 = pow2 (ilog2 q) * pow2 (- 53)"
    using pow2_add [of "ilog2 q" "- 52"] pow2_add [of "- 53" 1] pow2_of_nat [of 1] by (simp add: u)
  also have "\<dots> \<le> q * pow2 (- 53)" using ilog2_bounds(1) [OF pos] by (intro mult_right_mono) simp_all
  finally have "round_mag q \<le> q + q * pow2 (- 53)" using round_mag_error [of q] by linarith
  then have le: "round_mag q \<le> q * (1 + pow2 (- 53))" by (simp add: distrib_left)
  have "round_mag q < pow2 1024"
  proof -
    have "pow2 (- 53) \<le> 1" using pow2_mono [of "- 53" 0] by (simp add: pow2_def [of 0])
    then have "q * (1 + pow2 (- 53)) \<le> q * 2" using pos by (intro mult_left_mono) simp_all
    also have "\<dots> < pow2 1000 * pow2 1" using q(2) pow2_of_nat [of 1] by simp
    also have "\<dots> < pow2 1024" using pow2_add [of 1000 1] pow2_strict_mono [of 1001 1024] by simp
    finally show ?thesis using le by linarith
  qed
  then have "round_double q = Fin (round_mag q)" using pos by (auto simp: round_double_def Let_def)
  then show thesis using that le round_mag_nonneg [OF pos] by blast
qed

lemma quotient_factor:
  assumes "0 < n" "n \<le> 2 ^ 53" "0 < m" "m < 2 ^ 52"
  obtains s where "round_double (of_int m / of_int n) = Fin s" "0 \<le> s" "of_int n * s \<le> of_int m + 1 / 2"
proof -
  let ?q = "of_int m / of_int n :: rat"
  have n: "1 \<le> (of_int n :: rat)" "(of_int n :: rat) \<le> pow2 53" and m: "1 \<le> (of_int m :: rat)" "(of_int m :: rat) \<le> pow2 52"
    using assms pow2_of_nat [of 53] pow2_of_nat [of 52] of_int_le_iff [of n "2 ^ 53", where ?'a = rat]
      of_int_le_iff [of m "2 ^ 52", where ?'a = rat] by simp_all
  have "pow2 (- 53) * of_int n \<le> pow2 (- 53) * pow2 53" using n(2) by (intro mult_left_mono) simp_all
  also have "\<dots> = 1" using pow2_add [of "- 53" 53] by (simp add: pow2_def [of 0])
  finally have "pow2 (- 53) \<le> ?q" using n(1) m(1) by (simp add: pos_le_divide_eq)
  then have lo: "pow2 (- 1000) \<le> ?q" using pow2_mono [of "- 1000" "- 53"] by linarith
  have "of_int m \<le> pow2 52 * of_int n" using m n(1) mult_mono [of "of_int m" "pow2 52" 1 "of_int n"] by simp
  then have "?q \<le> pow2 52" using n(1) by (simp add: pos_divide_le_eq)
  then have hi: "?q < pow2 1000" using pow2_strict_mono [of 52 1000] by linarith
  obtain s where s: "round_double ?q = Fin s" "0 \<le> s" "s \<le> ?q * (1 + pow2 (- 53))" using round_quotient [OF lo hi] .
  have "of_int n * s \<le> of_int n * (?q * (1 + pow2 (- 53)))" using s(3) n(1) by (intro mult_left_mono) simp_all
  also have "\<dots> = of_int m + of_int m * pow2 (- 53)" using n(1) by (simp add: distrib_left)
  also have "\<dots> \<le> of_int m + pow2 52 * pow2 (- 53)" using m(2) by (intro add_left_mono mult_right_mono) simp_all
  also have "pow2 52 * pow2 (- 53) = 1 / 2" using pow2_add [of 52 "- 53"] by (simp add: pow2_def)
  finally show thesis using that s by blast
qed

lemma scaled_bound:
  assumes n: "0 < n" "n \<le> 2 ^ 53" and m: "0 < m" "m < 2 ^ 52" and s: "0 \<le> s" "of_int n * s \<le> of_int m + 1 / 2"
  obtains k where "scaled n (Fin s) = Inr k" "0 \<le> k" "k \<le> m"
proof -
  have f: "fmul (Fin (of_int n)) (Fin s) = round_double (of_int n * s)" using n s(1) by (simp add: fmul_def)
  have "representable (of_int m + 1 / 2)"
    unfolding representable_def by (rule exI [of _ "2 * m + 1"], rule exI [of _ "- 1"]) (use m in \<open>simp add: pow2_def\<close>)
  then have half: "round_double (of_int m + 1 / 2) = Fin (of_int m + 1 / 2)" by (rule round_double_exact)
  have "round_double 0 = Fin 0" by (simp add: round_double_def)
  then have "fle (Fin 0) (round_double (of_int n * s))" using round_double_mono [of 0 "of_int n * s"] n s(1) by simp
  moreover have "fle (round_double (of_int n * s)) (Fin (of_int m + 1 / 2))" using round_double_mono [OF s(2)] half by simp
  moreover have "0 \<le> of_int n * s" using n(1) s(1) by simp
  then have "round_double (of_int n * s) \<noteq> NegZero" by (auto simp: round_double_def Let_def)
  ultimately obtain z where z: "round_double (of_int n * s) = Fin z" "0 \<le> z" "z \<le> of_int m + 1 / 2"
    by (cases "round_double (of_int n * s)") (auto simp: fle_def)
  have "scaled n (Fin s) = Inr (trunc_rat z)" using n f z(1) by (simp add: scaled_def float_of_int_exact)
  moreover have "0 \<le> trunc_rat z" "trunc_rat z \<le> m" using z(2,3) by (auto simp: trunc_rat_def floor_le_iff)
  ultimately show thesis by (rule that)
qed

text \<open>C27. A page image is saved with no side longer than the limit: an image that is too large is scaled to a size
  within it, in spite of the rounding of the scale factor, and any other image keeps its size.\<close>

theorem image_size_within:
  assumes "0 < width" "width \<le> 2 ^ 53" "0 < height" "height \<le> 2 ^ 53" "0 < max_dim" "max_dim < 2 ^ 52"
  shows "\<exists>w h. image_size max_dim (width, height) = Inr (w, h) \<and> 0 \<le> w \<and> w \<le> max_dim \<and> 0 \<le> h \<and> h \<le> max_dim \<and>
    (width \<le> max_dim \<and> height \<le> max_dim \<longrightarrow> w = width \<and> h = height)"
proof (cases "max_dim < width \<or> max_dim < height")
  case False
  then show ?thesis using assms by (simp add: image_size_def)
next
  case True
  obtain a where a: "round_double (of_int max_dim / of_int width) = Fin a" "0 \<le> a" "of_int width * a \<le> of_int max_dim + 1 / 2"
    using quotient_factor [OF assms(1,2,5,6)] .
  obtain b where b: "round_double (of_int max_dim / of_int height) = Fin b" "0 \<le> b" "of_int height * b \<le> of_int max_dim + 1 / 2"
    using quotient_factor [OF assms(3,4,5,6)] .
  have f: "scale_factor max_dim width height = Fin (min a b)" using a(1) b(1) by (simp add: scale_factor_def Let_def min_def not_less)
  have "of_int width * min a b \<le> of_int width * a" "of_int height * min a b \<le> of_int height * b"
    using assms by (simp_all add: mult_left_mono)
  then have w: "of_int width * min a b \<le> of_int max_dim + 1 / 2" and h: "of_int height * min a b \<le> of_int max_dim + 1 / 2"
    using a(3) b(3) by linarith+
  have z: "0 \<le> min a b" using a(2) b(2) by simp
  obtain k where "scaled width (Fin (min a b)) = Inr k" "0 \<le> k" "k \<le> max_dim" using scaled_bound [OF assms(1,2,5,6) z w] .
  moreover obtain l where "scaled height (Fin (min a b)) = Inr l" "0 \<le> l" "l \<le> max_dim" using scaled_bound [OF assms(3-6) z h] .
  ultimately show ?thesis using True assms(1,3) f by (auto simp: image_size_def)
qed

theorem image_size_within_witness:
  "\<exists>w h. image_size 1000 (1700, 2200) = Inr (w, h) \<and> w \<le> 1000 \<and> h \<le> 1000"
  using image_size_within [of 1700 2200 1000] by auto

end
