(* ===== verification/Spec2Isabelle.thy ===== *)
theory Spec2Isabelle
  imports S01_Workloads S02_Evidence S03_Idxd ControlFloor SummaryOutput PackageRun PaperExtract PdfBoxes PdfFields PdfPages
begin

text \<open>
  Verification of the Python programs of the repository.

  \<^bold>\<open>The programs.\<close> The evidence pipeline under \<open>accel-rpc\<close> measures RPC workloads and packages the
  result. \<open>run_s01_workloads.py\<close>, \<open>run_s02_evidence.py\<close> and \<open>run_s03_idxd_evidence.py\<close> each load a JSON
  manifest, start a server and a client per workload, and check the reports these write; they share
  \<open>proof_runner_common.py\<close>. \<open>export_control_floor.py\<close> exports a benchmark baseline.
  \<open>run_s04_claim_package.py\<close> loads the package manifest through \<open>claim_package_contract.py\<close>, runs the S02
  and S03 verifiers, falls back to a fixture where that is allowed, and calls
  \<open>summarize_s04_claim_package.py\<close>, which pairs the reports and writes JSON, CSV and Markdown. The tools
  under \<open>tools/paper-text\<close> extract a paper from a PDF, turn it into sections and verify the sections. The
  scripts under \<open>.agents/skills/pdf/scripts\<close> check, draw and fill PDF forms.

  \<^bold>\<open>The language.\<close> \<open>Prelude\<close> has the error monad (\<open>Inl\<close> an exception, \<open>Inr\<close> a result), the loop
  combinators and insertion-ordered dictionaries. \<open>PyFloat\<close> is binary64 over the rationals with rounding
  written out; \<open>PyValue\<close> the values of \<open>json.loads\<close>, the exceptions and the built-in operations; \<open>PyOps\<close>
  indexing, ordering and arithmetic on such values, with the monotonicity of rounding; \<open>PyPath\<close> pure
  paths; \<open>PyRegex\<close> regular expressions with Python's backtracking priority, and \<open>str\<close> methods on code
  points. \<open>Host\<close> is the machine: the state \<open>mach\<close> (files, output, processes, calls made) and the record
  \<open>host\<close> that answers every external call; nothing is assumed of a host. Effects are
  \<open>mach \<Rightarrow> ('a res \<times> mach) option\<close>, where \<open>None\<close> is a call that does not return.

  \<^bold>\<open>The components.\<close>
  \<^item> \<open>RunnerCommon\<close>: \<open>proof_runner_common.py\<close>. The waiting loop is a \<open>partial_function\<close>. Lemmas: a run reaps
    its server however it ends, it ends once the clock passes the deadline, and what a normal end means.
  \<^item> \<open>WorkloadSpec\<close>: the interface of a validated manifest, a locale that the three runners interpret.
    \<open>EvidenceMatrix\<close>: the report comparisons that S02 and S03 share.
  \<^item> \<open>S01_Workloads\<close>, \<open>S02_Evidence\<close>, \<open>S03_Idxd\<close>: the runners. Lemmas: what a loaded manifest guarantees, that
    \<open>validate_artifacts\<close> accepts exactly the reports of a declarative test, no process left behind.
  \<^item> \<open>ControlFloor\<close>: the exporter, with the round trip of export and validation.
  \<^item> \<open>ClaimContract\<close>: the package manifest, with what a loaded package guarantees.
  \<^item> \<open>Summarize\<close>, \<open>SummaryOutput\<close>: the summarizer and the meaning of its outputs: rows against a direct
    specification, CSV read back, rendered numbers, the type of the document.
  \<^item> \<open>S04_ClaimPackage\<close>, \<open>Traces\<close>, \<open>PackageRun\<close>: the package runner, a logic of its child processes, and the
    refinement of an abstract machine of phases.
  \<^item> \<open>PaperText\<close>, \<open>PaperExtract\<close>: sectionizer and verifier, and the extractor. Lemmas: page headings are
    removed along the whole flow, what the verifier accepts, what cleaning a block gives.
  \<^item> \<open>PdfBoxes\<close>: \<open>check_bounding_boxes.py\<close>, \<open>create_validation_image.py\<close> and
    \<open>fill_pdf_form_with_annotations.py\<close>. Lemmas: the checker succeeds exactly when no two boxes of a page
    overlap and every text fits, its output is bounded, and accepted boxes stay apart as annotations.
  \<^item> \<open>PdfFields\<close>: \<open>check_fillable_fields.py\<close>, \<open>extract_form_field_info.py\<close> and \<open>fill_fillable_fields.py\<close>. The walk
    along parents is a \<open>partial_function\<close>. Lemmas: when the walk ends and with which name, what the list
    of fields holds, and that a PDF is written exactly when every value is accepted.
  \<^item> \<open>PdfPages\<close>: \<open>extract_form_structure.py\<close> and \<open>convert_pdf_to_images.py\<close>. Lemmas: rows lie between
    neighbouring lines, and page images keep within the size limit.
  \<^item> This theory: the properties that join the summarizer with the package runner and with the exporter.

  \<^bold>\<open>Bounds.\<close> No fuel is used. A Python \<open>int\<close> is \<open>int\<close>; a loop over data is structural recursion; the waiting loop
  and the walk along a PDF's parents may run forever, and when they return is a theorem of its own. In the evidence pipeline a \<open>str\<close> is a
  \<open>string\<close>, which covers code points up to U+00FF; in the paper tools a text is a list of arbitrary code
  points, and Unicode's character classes are the parameter \<open>unicode\<close>, of which \<open>unicode_ok\<close> assumes the
  ASCII part. Coordinates in the box theorems are finite floats or integers that a float holds exactly.

  \<^bold>\<open>Parameters.\<close> Child processes, the clock, sockets, the file system and \<open>json.loads\<close> answer through \<open>host\<close>
  and \<open>world\<close>; \<open>pdftotext\<close> and \<open>pdfinfo\<close> through \<open>pdf_tools\<close>; pypdf through \<open>pdf_lib\<close> and \<open>pdf_reader\<close>;
  pdfplumber through \<open>plumber_page\<close>. Parsed command lines are
  records where a script uses \<open>argparse\<close>, and the argument list itself where it reads \<open>sys.argv\<close>.

  \<^bold>\<open>Not modelled.\<close> Lines 37 to 403 and 410 to 417 of \<open>run_s04_claim_package.py\<close> are copies of the contract's functions that
  the module replaces before it runs. \<open>hw-eval\<close> and
  \<open>dsa-stdexec/benchmark\<close> draw figures and assemble HTML by calls to matplotlib and plotly, whose
  effect is a picture. Rust, C++ and shell sources are outside this development.
\<close>

section \<open>The runner and its summariser\<close>

text \<open>C8. The summariser, called with the arguments the runner puts on its command line, leaves what the
  runner then checks: when it exits with 0, all three derived outputs exist and are not empty where
  \<open>validate_summary_outputs\<close> looks for them, and \<open>validate_report_references\<close> can only fail on the
  report contract. Assumed of the file system: the run root is already resolved.\<close>

theorem summarizer_satisfies_runner:
  assumes cmd: "summary_command summarizer (manifest_copy_path run_root) run_root =
      [''python3'', script, ''--manifest'', sm_arg_manifest args, ''--run-root'', dir]" "sm_arg_run_root args = Some dir"
    and m: "claim_load_manifest (files s) repo (fs_resolve (files s) (manifest_copy_path run_root)) = Inr manifest"
    and root: "fs_resolve (files s) (resolve_repo_path repo (path_str run_root)) = run_root" "wf_path run_root"
    and run: "sm_main h repo args s = Some (Inr 0, t)"
  shows "validate_summary_outputs (files t) manifest run_root summary_output device = Inr () \<and>
    (check_report_references (files t) repo manifest run_root summary_output device = Inr contract \<longleftrightarrow>
      (\<exists>raw. map_of (cm_inputs manifest) ''report_contract'' = Some raw \<and>
         contract = fs_resolve (files t) (resolve_repo_path repo raw) \<and> fs_exists (files t) contract))"
proof -
  have args: "sm_arg_manifest args = path_str (manifest_copy_path run_root)" "sm_arg_run_root args = Some (path_str run_root)"
    using cmd by (simp_all add: summary_command_def)
  have copy: "path_of (path_str (manifest_copy_path run_root)) = manifest_copy_path run_root"
    unfolding manifest_copy_path_def by (rule path_of_str) (simp add: root(2))
  have ne: "path_str run_root \<noteq> []" by (auto simp: path_str_def Let_def)
  obtain outs where "summarize h repo (fs_resolve (files s) (manifest_copy_path run_root)) (Some (path_str run_root))
      (sm_arg_verify_only args) s = Some (Inr outs, t)"
    using run unfolding sm_main_iff args copy by blast
  then obtain m' where "claim_load_manifest (files s) repo (fs_resolve (files s) (manifest_copy_path run_root)) = Inr m'"
    and "verify_outputs (files t) (output_paths m' (sm_resolve_run_root (files s) repo m' (Some (path_str run_root)))) = Inr ()"
    by (rule summarize_loads)
  moreover have "sm_resolve_run_root (files s) repo manifest (Some (path_str run_root)) = run_root"
    using root(1) by (simp add: sm_resolve_run_root_def or_else_def ne)
  ultimately have "verify_outputs (files t) (summary_output_paths manifest run_root) = Inr ()"
    using m by (simp add: output_paths_def summary_output_paths_def)
  then have out: "\<forall>(k, p) \<in> set (summary_output_paths manifest run_root). fs_exists (files t) p \<and> 0 < fs_size (files t) p"
    by (auto simp: verify_outputs_def each_Inr_iff split: if_splits)
  then show ?thesis
    by (auto simp: validate_summary_outputs_iff check_references_iff [OF m])
qed

lemma sm_demo_runs: "\<exists>t. sm_main demo_host (path_of ''r'') sm_demo_args (demo_mach\<lparr>files := sm_demo_world\<rparr>) = Some (Inr 0, t)"
proof -
  obtain cfl loaded where l: "load_control_floor sm_demo_world (path_of ''r'') sm_demo_manifest = Inr cfl"
    "load_family_reports sm_demo_world sm_demo_manifest sm_demo_root = Inr loaded"
    using sm_demo_floor sm_demo_families by blast
  show ?thesis unfolding sm_main_iff
    using summarize_runs [OF demo_host_quiet, of "demo_mach\<lparr>files := sm_demo_world\<rparr>" "path_of ''r''"
        "path_of (sm_arg_manifest sm_demo_args)" sm_demo_manifest "sm_arg_run_root sm_demo_args" sm_demo_root cfl loaded
        "sm_arg_verify_only sm_demo_args"] sm_demo_loads l
    by (auto simp: sm_demo_resolved)
qed

theorem summarizer_satisfies_runner_witness:
  "\<exists>t. sm_main demo_host (path_of ''r'') sm_demo_args (demo_mach\<lparr>files := sm_demo_world\<rparr>) = Some (Inr 0, t) \<and>
    validate_summary_outputs (files t) sm_demo_manifest sm_demo_root (path_of ''o'') ''dev'' = Inr ()"
proof -
  obtain t where t: "sm_main demo_host (path_of ''r'') sm_demo_args (demo_mach\<lparr>files := sm_demo_world\<rparr>) = Some (Inr 0, t)"
    using sm_demo_runs by blast
  have "summary_command (path_of ''s'') (manifest_copy_path sm_demo_root) sm_demo_root =
      [''python3'', path_str (path_of ''s''), ''--manifest'', sm_arg_manifest sm_demo_args, ''--run-root'', path_str sm_demo_root]"
    "sm_arg_run_root sm_demo_args = Some (path_str sm_demo_root)"
    by (simp_all add: summary_command_def sm_demo_args_def)
  moreover have "path_of (sm_arg_manifest sm_demo_args) = manifest_copy_path sm_demo_root"
    by (simp add: sm_demo_args_def manifest_copy_path_def sm_demo_root_def path_of_str)
  then have "claim_load_manifest sm_demo_world (path_of ''r'') (fs_resolve sm_demo_world (manifest_copy_path sm_demo_root)) =
      Inr sm_demo_manifest"
    using sm_demo_loads sm_demo_resolved(2) by simp
  moreover have "fs_resolve sm_demo_world (resolve_repo_path (path_of ''r'') (path_str sm_demo_root)) = sm_demo_root" by code_simp
  moreover have "wf_path sm_demo_root" by (simp add: sm_demo_root_def)
  ultimately have "validate_summary_outputs (files t) sm_demo_manifest sm_demo_root (path_of ''o'') ''dev'' = Inr ()"
    using summarizer_satisfies_runner [OF _ _ _ _ _ t] by simp
  with t show ?thesis by blast
qed

section \<open>The exporter and the summariser\<close>

text \<open>What the exporter's dictionary of benchmarks holds for one name, after its keys are sorted.\<close>

lemma exported_benchmark:
  assumes p: "export_payload w criterion_root suite_name expected now = Inr payload"
    and sorted: "sort_keys (JObj payload) = JObj payload'"
    and "name \<in> set expected"
  obtains b d e where "sub (sub payload ''benchmarks'') name = to_json b" "dget payload' ''benchmarks'' = JObj d"
    "dget d name = JObj e" "bs_name b = name" "strip name \<noteq> []" "map_of e = (\<lambda>k. map_option sort_keys (map_of (to_json b) k))"
  using p
proof (rule export_payload_Inr)
  fix bs
  define bm where "bm = foldl (\<lambda>d b. AList.update (bs_name b) (JObj (to_json b)) d) [] bs"
  assume bs: "list_all2 (summarized suite_name) (benchmark_directories w (path_div criterion_root suite_name)) bs"
    and pl: "payload = [(''schema_version'', JInt 1), (''suite_name'', JStr suite_name),
       (''criterion_root'', JStr (path_str criterion_root)), (''generated_at_utc'', JStr now),
       (''benchmarks'', JObj (foldl (\<lambda>d b. AList.update (bs_name b) (JObj (to_json b)) d) [] bs))]"
    and keys: "set expected \<subseteq> bs_name ` set bs"
  note map = benchmark_map [of bs, folded bm_def]
  obtain bm' where bm': "sort_keys (JObj bm) = JObj bm'" by simp
  have "distinct (map fst payload)" by (simp add: pl)
  from map_of_sort_keys [OF this sorted] have "map_of payload' ''benchmarks'' = Some (JObj bm')"
    using bm' by (simp add: pl bm_def [symmetric])
  then have get: "dget payload' ''benchmarks'' = JObj bm'" by (simp add: dget_def)
  obtain v where "map_of bm name = Some v"
    using assms(3) keys map(3) by (metis image_iff map_of_eq_None_iff not_None_eq subsetD)
  moreover from this obtain b where b: "b \<in> set bs" "bs_name b = name" "v = JObj (to_json b)"
    using map(2) by (fastforce dest: map_of_SomeD)
  ultimately have "sub bm name = to_json b" and v: "dget bm' name = sort_keys (JObj (to_json b))"
    using map_of_sort_keys [OF map(1) bm', of name] by (simp_all add: dget_def sub_def)
  then have raw: "sub (sub payload ''benchmarks'') name = to_json b" by (simp add: pl bm_def [symmetric] sub_def dget_def)
  obtain e where e: "sort_keys (JObj (to_json b)) = JObj e" by simp
  have "strip name \<noteq> []" using bs b(1,2) by (auto simp: list_all2_conv_all_nth in_set_conv_nth summarized_def)
  moreover have "map_of e = (\<lambda>k. map_option sort_keys (map_of (to_json b) k))"
    using map_of_sort_keys [OF _ e] by (auto simp: to_json_def)
  ultimately show thesis using that [OF raw get _ b(2)] v e by simp
qed

text \<open>What the summariser keeps of a benchmark.\<close>

definition floor_entry_of :: "benchmark_summary \<Rightarrow> floor_entry" where
  "floor_entry_of b = \<lparr>fe_benchmark_name = bs_name b, fe_mean_ns = bs_mean_ns b, fe_median_ns = bs_median_ns b,
     fe_std_dev_ns = bs_std_dev_ns b, fe_sample_count = bs_sample_count b\<rparr>"

lemma exported_entry_loads:
  assumes e: "map_of e = (\<lambda>k. map_option sort_keys (map_of (to_json b) k))"
    and d: "dget d (bs_name b) = JObj e" "strip (bs_name b) \<noteq> []" and n: "\<bar>bs_sample_count b\<bar> \<le> 2 ^ 53"
  shows "load_floor_entry sw d (JStr (bs_name b)) = Inr (bs_name b, floor_entry_of b)"
proof -
  have "bs_name b \<noteq> []" using d(2) by (auto simp: strip_def)
  moreover have "require_str e ''benchmark_name'' sc = Inr (bs_name b)" "require_number e ''mean_ns'' sc = Inr (bs_mean_ns b)"
    "require_number e ''median_ns'' sc = Inr (bs_median_ns b)" "require_number e ''std_dev_ns'' sc = Inr (bs_std_dev_ns b)"
    "require_number e ''sample_count'' sc = Inr (Fin (of_int (bs_sample_count b)))" for sc
    using calculation n by (simp_all add: require_str_def require_number_def require_value_def has_key_def dget_def e to_json_def
        float_of_int_exact)
  ultimately show ?thesis by (simp add: load_floor_entry_def d(1) trunc_rat_def floor_entry_of_def)
qed

lemma floor_loop:
  assumes "\<forall>n \<in> set ns. g (JStr n) = Inr (n, val n)"
  shows "\<exists>d. foldm (\<lambda>rendered raw. bnd (g raw) (\<lambda>(name, entry). Inr (AList.update name entry rendered))) acc (map JStr ns) = Inr d \<and>
    (\<forall>n. map_of d n = (if n \<in> set ns then Some (val n) else map_of acc n))"
  using assms by (induction ns arbitrary: acc) (fastforce simp: update_conv')+

lemma exported_entries:
  assumes p: "export_payload w criterion_root suite_name expected now = Inr payload" and s: "sort_keys (JObj payload) = JObj payload'"
    and count: "\<forall>name \<in> set expected. \<forall>n. dget (sub (sub payload ''benchmarks'') name) ''sample_count'' = JInt n \<longrightarrow> \<bar>n\<bar> \<le> 2 ^ 53"
    and ne: "expected \<noteq> []"
  obtains d B where "dget payload' ''benchmarks'' = JObj d"
    "\<forall>name \<in> set expected. sub (sub payload ''benchmarks'') name = to_json (B name) \<and>
      load_floor_entry sw d (JStr name) = Inr (name, floor_entry_of (B name))"
proof -
  let ?bs = "sub payload ''benchmarks''"
  have ex: "\<exists>b d e. sub ?bs name = to_json b \<and> dget payload' ''benchmarks'' = JObj d \<and> dget d name = JObj e \<and> bs_name b = name \<and>
      strip name \<noteq> [] \<and> map_of e = (\<lambda>k. map_option sort_keys (map_of (to_json b) k))" if "name \<in> set expected" for name
    by (rule exported_benchmark [OF p s that]) blast
  obtain d where d: "dget payload' ''benchmarks'' = JObj d" using ex [of "hd expected"] ne by auto
  have "\<forall>name \<in> set expected. \<exists>b. sub ?bs name = to_json b \<and> load_floor_entry sw d (JStr name) = Inr (name, floor_entry_of b)"
  proof
    fix name
    assume n: "name \<in> set expected"
    obtain b e where b: "sub ?bs name = to_json b" "dget d name = JObj e" "bs_name b = name" "strip name \<noteq> []"
      "map_of e = (\<lambda>k. map_option sort_keys (map_of (to_json b) k))"
      using ex [OF n] d by auto
    have "\<bar>bs_sample_count b\<bar> \<le> 2 ^ 53" using count n b(1) by (auto simp: to_json_def dget_def)
    then show "\<exists>b. sub ?bs name = to_json b \<and> load_floor_entry sw d (JStr name) = Inr (name, floor_entry_of b)"
      using exported_entry_loads [OF b(5), of d] b by auto
  qed
  from bchoice [OF this] d that show thesis by blast
qed

lemma floor_entry_fields:
  "let e = floor_entry_of b in dget (to_json b) ''benchmark_name'' = JStr (fe_benchmark_name e) \<and>
    dget (to_json b) ''mean_ns'' = JFloat (fe_mean_ns e) \<and> dget (to_json b) ''median_ns'' = JFloat (fe_median_ns e) \<and>
    dget (to_json b) ''std_dev_ns'' = JFloat (fe_std_dev_ns e) \<and> dget (to_json b) ''sample_count'' = JInt (fe_sample_count e)"
  by (simp add: floor_entry_of_def to_json_def dget_def)

text \<open>C9. The control floor that the exporter writes is one the summariser reads: after a successful export to
  the file the package names, with the benchmarks its software manifest expects, \<open>load_control_floor\<close>
  succeeds and hands on the exported numbers of every expected benchmark unchanged. Assumed of
  \<open>json\<close>: reading what was dumped gives the value back; and no benchmark has more than \<open>2 ^ 53\<close> samples
  (the summariser reads the count as a float).\<close>

theorem export_accepted_by_summarizer:
  assumes x: "export_summary h criterion_root out suite_name expected s = Some (Inr payload, t)"
    and json: "json_loads (files t) (h_dumps h (JObj payload) @ [CHR 0x0A]) = Inr (sort_keys (JObj payload))"
    and floor: "map_of (cm_inputs manifest) ''control_floor_summary'' = Some cf" "resolve_repo_path repo cf = out"
    and sw: "map_of (cm_inputs manifest) ''software_manifest'' = Some sm"
      "bnd (fs_read (files t) (resolve_repo_path repo sm)) (json_loads (files t)) = Inr (JObj doc)"
      "dget doc ''expected_benchmarks'' = JArr (map JStr expected)" "expected \<noteq> []"
    and count: "\<forall>name \<in> set expected. \<forall>n. dget (sub (sub payload ''benchmarks'') name) ''sample_count'' = JInt n \<longrightarrow> \<bar>n\<bar> \<le> 2 ^ 53"
  shows "\<exists>f. load_control_floor (files t) repo manifest = Inr f \<and> (\<forall>name \<in> set expected. \<exists>e.
    map_of (cfl_benchmarks f) name = Some e \<and> (let b = sub (sub payload ''benchmarks'') name in
      dget b ''benchmark_name'' = JStr (fe_benchmark_name e) \<and> dget b ''mean_ns'' = JFloat (fe_mean_ns e) \<and>
      dget b ''median_ns'' = JFloat (fe_median_ns e) \<and> dget b ''std_dev_ns'' = JFloat (fe_std_dev_ns e) \<and>
      dget b ''sample_count'' = JInt (fe_sample_count e)))"
proof -
  let ?sm = "resolve_repo_path repo sm"
  obtain payload' where s: "sort_keys (JObj payload) = JObj payload'" by simp
  note x' = export_summary_written [OF x]
  obtain d B where d: "dget payload' ''benchmarks'' = JObj d"
    and B: "\<forall>name \<in> set expected. sub (sub payload ''benchmarks'') name = to_json (B name) \<and>
      load_floor_entry ?sm d (JStr name) = Inr (name, floor_entry_of (B name))"
    by (rule exported_entries [OF x'(1) s count sw(4)])
  obtain f where f: "foldm (\<lambda>rendered raw. bnd (load_floor_entry ?sm d raw) (\<lambda>(name, entry).
      Inr (AList.update name entry rendered))) [] (map JStr expected) = Inr f"
    and look: "\<forall>n. map_of f n = (if n \<in> set expected then Some (floor_entry_of (B n)) else map_of [] n)"
    using floor_loop [of expected "load_floor_entry ?sm d" "\<lambda>n. floor_entry_of (B n)" "[]"] B by blast
  have "\<exists>c. load_control_floor (files t) repo manifest = Inr c \<and> cfl_benchmarks c = f"
    using x'(2) json s floor sw f d
    by (auto simp: load_control_floor_def key_item_def sm_load_json_object_def except_as_def require_dict_def bnd_Inr_iff)
  with look B floor_entry_fields show ?thesis by (auto simp: Let_def)
qed

theorem export_accepted_by_summarizer_witness:
  "\<exists>t f e. export_summary cf_demo_host (path_of ''c'') (path_of ''out/f'') ''suite'' [''spawn'']
      (demo_mach\<lparr>files := cf_demo_world\<rparr>) = Some (Inr cf_demo_payload, t) \<and>
    load_control_floor (files t) (path_of ''out'')
      (claim_demo\<lparr>cm_inputs := [(''control_floor_summary'', ''f''), (''software_manifest'', ''m'')]\<rparr>) = Inr f \<and>
    map_of (cfl_benchmarks f) ''spawn'' = Some e"
proof (rule cf_demo_exports)
  fix t
  assume t: "export_summary cf_demo_host (path_of ''c'') (path_of ''out/f'') ''suite'' [''spawn'']
      (demo_mach\<lparr>files := cf_demo_world\<rparr>) = Some (Inr cf_demo_payload, t)"
    "json_loads (files t) = json_loads cf_demo_world" "fs_read (files t) (path_of ''out/m'') = Inr ''out/m''"
    "json_loads (files t) (h_dumps cf_demo_host (JObj cf_demo_payload) @ [CHR 0x0A]) = Inr (sort_keys (JObj cf_demo_payload))"
  have p: "resolve_repo_path (path_of ''out'') ''f'' = path_of ''out/f''"
    "resolve_repo_path (path_of ''out'') ''m'' = path_of ''out/m''" by code_simp+
  have l: "json_loads cf_demo_world ''out/m'' = Inr (JObj [(''expected_benchmarks'', JArr [JStr ''spawn''])])"
    "dget (sub (sub cf_demo_payload ''benchmarks'') ''spawn'') ''sample_count'' = JInt 1" by code_simp+
  from export_accepted_by_summarizer [OF t(1,4) _ p(1), of
      "claim_demo\<lparr>cm_inputs := [(''control_floor_summary'', ''f''), (''software_manifest'', ''m'')]\<rparr>" "''m''"
      "[(''expected_benchmarks'', JArr [JStr ''spawn''])]"]
  show ?thesis using t(1,2,3) p(2) l by (auto simp: dget_def)
qed

end
